(* ===== verification/Prelude.thy ===== *)
theory Prelude
  imports Main "HOL-Library.Word" "HOL-Library.AList" "HOL-Library.Sublist"
begin

text \<open>
  Shared vocabulary of the development: the JavaScript values every component handles (strings
  as sequences of 16-bit code units, byte arrays, \<open>Map\<close> objects), the string methods the source
  calls, and the interfaces that several components provide or use, stated as locales:
  \<^item> \<open>codec\<close>: an encoder with a decoder that undoes it (hex, base64, UTF-8, JSON text);
  \<^item> \<open>keyed_map\<close>: lookup, insert and delete by key (\<open>Map\<close> objects);
  \<^item> \<open>guarded_machine\<close>: a step function with an invariant (the Durable Object, the worker).
\<close>

unbundle bit_operations_syntax

named_theorems js_simps \<open>evaluation of string literals and string methods\<close>
named_theorems map_simps \<open>lookup after insertion and deletion\<close>

subsection \<open>Strings and bytes\<close>

text \<open>
  A JavaScript string is a list of UTF-16 code units; \<open>js\<close> embeds an ASCII literal of the source.
\<close>

type_synonym byte = "8 word"
type_synonym bytes = "byte list"
type_synonym jschar = "16 word"
type_synonym jsstring = "jschar list"

definition js :: "string \<Rightarrow> jsstring" where
  "js s = map of_char s"

lemma unat_of_char16: "unat (of_char c :: jschar) = of_char c"
proof -
  have "(of_char c :: nat) mod 65536 = of_char c"
    by (rule mod_less, rule less_trans [of _ 256]) simp_all
  then show ?thesis
    using unat_of_nat [of "of_char c", where 'a = 16] by (simp add: of_nat_of_char)
qed

lemma of_char16_eq_iff [simp]: "(of_char c :: jschar) = of_char d \<longleftrightarrow> c = d"
  by (metis of_char_eq_iff unat_of_char16)

lemma js_Nil [simp]: "js [] = []"
  and js_Cons: "js (c # s) = of_char c # js s"
  and js_append: "js (s @ t) = js s @ js t"
  and length_js [simp]: "length (js s) = length s"
  by (simp_all add: js_def)

lemma js_eq_iff [simp]: "js s = js t \<longleftrightarrow> s = t"
  unfolding js_def by (rule inj_map_eq_map) (auto simp: inj_def)

lemma js_eq_Nil_iff [simp]: "js s = [] \<longleftrightarrow> s = []" "[] = js s \<longleftrightarrow> s = []"
  by (simp_all add: js_def)

lemmas js_literal = js_def of_char_def

text \<open>\<open>s.startsWith(p)\<close>, \<open>s.includes(p)\<close> and \<open>s.charCodeAt(i)\<close>; the last one is
  \<open>NaN\<close> out of range, which the bitwise operators of the language read as 0.\<close>

definition startsWith :: "jsstring \<Rightarrow> jsstring \<Rightarrow> bool" where
  "startsWith s p \<longleftrightarrow> take (length p) s = p"

fun includesStr :: "jsstring \<Rightarrow> jsstring \<Rightarrow> bool" where
  "includesStr [] p \<longleftrightarrow> p = []"
| "includesStr (c # s) p \<longleftrightarrow> startsWith (c # s) p \<or> includesStr s p"

definition charCodeAt :: "jsstring \<Rightarrow> nat \<Rightarrow> 32 word" where
  "charCodeAt s i = (if i < length s then ucast (s ! i) else 0)"

lemma startsWith_append [simp]: "startsWith (p @ s) p"
  by (simp add: startsWith_def)

lemma startsWith_iff: "startsWith s p \<longleftrightarrow> (\<exists>t. s = p @ t)"
  by (metis append_take_drop_id startsWith_append startsWith_def)

lemma startsWith_prefix: "startsWith s p \<longleftrightarrow> prefix p s"
  by (simp add: startsWith_iff prefix_def)

lemma includesStr_sublist: "includesStr s p \<longleftrightarrow> sublist p s"
  by (induction s) (auto simp: startsWith_prefix sublist_Cons_right)

text \<open>
  \<open>toLowerCase\<close> on the code units a header value or a host name can have: ASCII and Latin-1
  (header values are byte strings), and the Kelvin sign, the one other code unit whose lower-case
  form is an ASCII letter.
\<close>

definition lowerUnit :: "jschar \<Rightarrow> jschar" where
  "lowerUnit c =
     (if 0x41 \<le> c \<and> c \<le> 0x5A then c + 0x20
      else if 0xC0 \<le> c \<and> c \<le> 0xDE \<and> c \<noteq> 0xD7 then c + 0x20
      else if c = 0x212A then 0x6B
      else c)"

definition toLowerCase :: "jsstring \<Rightarrow> jsstring" where
  "toLowerCase s = map lowerUnit s"

lemma length_toLowerCase [simp]: "length (toLowerCase s) = length s"
  by (simp add: toLowerCase_def)

text \<open>White space and line terminators of the language, and \<open>s.trim()\<close>.\<close>

definition isSpace :: "jschar \<Rightarrow> bool" where
  "isSpace c \<longleftrightarrow>
     0x9 \<le> unat c \<and> unat c \<le> 0xD \<or> 0x2000 \<le> unat c \<and> unat c \<le> 0x200A \<or>
     unat c \<in> {0x20, 0xA0, 0x1680, 0x2028, 0x2029, 0x202F, 0x205F, 0x3000, 0xFEFF}"

definition trim :: "jsstring \<Rightarrow> jsstring" where
  "trim s = rev (dropWhile isSpace (rev (dropWhile isSpace s)))"

subsection \<open>Codecs\<close>

text \<open>
  The contract of an encoder and its decoder: decoding what was encoded gives the value back, for
  the values \<open>ok\<close> holds of.
\<close>

locale codec =
  fixes enc :: "'a \<Rightarrow> 'b" and dec :: "'b \<Rightarrow> 'a option" and ok :: "'a \<Rightarrow> bool"
  assumes dec_enc: "ok x \<Longrightarrow> dec (enc x) = Some x"
begin

lemma enc_eq_iff: "ok x \<Longrightarrow> ok y \<Longrightarrow> enc x = enc y \<longleftrightarrow> x = y"
  by (metis dec_enc option.inject)

lemma enc_inj_on: "inj_on enc {x. ok x}"
  by (auto intro!: inj_onI simp: enc_eq_iff)

end

text \<open>Two codecs in a row are a codec.\<close>

locale codec_chain = inner: codec enc1 dec1 ok1 + outer: codec enc2 dec2 ok2
  for enc1 :: "'a \<Rightarrow> 'b" and dec1 ok1 and enc2 :: "'b \<Rightarrow> 'c" and dec2 ok2 +
  assumes enc1_ok2: "ok1 x \<Longrightarrow> ok2 (enc1 x)"
begin

lemma chain_dec_enc: "ok1 x \<Longrightarrow> Option.bind (dec2 (enc2 (enc1 x))) dec1 = Some x"
  by (simp add: inner.dec_enc outer.dec_enc enc1_ok2)

end

sublocale codec_chain \<subseteq> chained: codec "\<lambda>x. enc2 (enc1 x)" "\<lambda>y. Option.bind (dec2 y) dec1" ok1
  by unfold_locales (rule chain_dec_enc)

subsection \<open>Maps\<close>

text \<open>
  A \<open>Map\<close> object is an association list in insertion order: \<open>set\<close> replaces a present key in
  place and appends a new one, \<open>delete\<close> removes the key. Both are the operations of
  \<open>HOL-Library.AList\<close>.
\<close>

type_synonym ('k, 'v) jsmap = "('k \<times> 'v) list"

definition map_get :: "('k, 'v) jsmap \<Rightarrow> 'k \<Rightarrow> 'v option" where
  "map_get m k = map_of m k"

definition map_set :: "'k \<Rightarrow> 'v \<Rightarrow> ('k, 'v) jsmap \<Rightarrow> ('k, 'v) jsmap" where
  "map_set k v m = AList.update k v m"

definition map_delete :: "'k \<Rightarrow> ('k, 'v) jsmap \<Rightarrow> ('k, 'v) jsmap" where
  "map_delete k m = AList.delete k m"

definition map_ok :: "('k, 'v) jsmap \<Rightarrow> bool" where
  "map_ok m \<longleftrightarrow> distinct (map fst m)"

locale keyed_map =
  fixes get :: "'m \<Rightarrow> 'k \<Rightarrow> 'v option"
    and put :: "'k \<Rightarrow> 'v \<Rightarrow> 'm \<Rightarrow> 'm"
    and del :: "'k \<Rightarrow> 'm \<Rightarrow> 'm"
    and invar :: "'m \<Rightarrow> bool"
  assumes get_put: "get (put k v m) k' = (if k = k' then Some v else get m k')"
    and get_del: "get (del k m) k' = (if k = k' then None else get m k')"
    and invar_put: "invar m \<Longrightarrow> invar (put k v m)"
    and invar_del: "invar m \<Longrightarrow> invar (del k m)"
begin

lemma get_fold_del: "get (fold del ks m) k = (if k \<in> set ks then None else get m k)"
  by (induction ks arbitrary: m) (auto simp: get_del)

lemma invar_fold_del: "invar m \<Longrightarrow> invar (fold del ks m)"
  by (induction ks arbitrary: m) (auto simp: invar_del)

lemma get_put_del: "get (put k v (del k m)) k' = get (put k v m) k'"
  by (simp add: get_put get_del)

end

interpretation js_map: keyed_map map_get map_set map_delete map_ok
  by unfold_locales
    (auto simp: map_get_def map_set_def map_delete_def map_ok_def update_conv' delete_conv'
      distinct_update distinct_delete)

lemmas [map_simps] = js_map.get_put js_map.get_del

lemma map_get_Nil [simp, map_simps]: "map_get [] k = None"
  by (simp add: map_get_def)

lemma map_ok_Nil [simp]: "map_ok []"
  by (simp add: map_ok_def)

lemma map_get_eq_None_iff: "map_get m k = None \<longleftrightarrow> k \<notin> fst ` set m"
  by (simp add: map_get_def map_of_eq_None_iff)

lemma map_get_eq_Some_iff: "map_ok m \<Longrightarrow> map_get m k = Some v \<longleftrightarrow> (k, v) \<in> set m"
  by (simp add: map_get_def map_ok_def)

lemma map_get_SomeD: "map_get m k = Some v \<Longrightarrow> (k, v) \<in> set m"
  by (simp add: map_get_def map_of_SomeD)

subsection \<open>Machines with an invariant\<close>

text \<open>
  A component that reacts to events one at a time: a step function to a new state and the effects
  of the step, an invariant of its states and a guard that says which events can occur.
\<close>

fun run :: "('s \<Rightarrow> 'e \<Rightarrow> 's \<times> 'o list) \<Rightarrow> 's \<Rightarrow> 'e list \<Rightarrow> 's \<times> 'o list" where
  "run step s [] = (s, [])"
| "run step s (e # es) =
     (let (s', os) = step s e; (s'', os') = run step s' es in (s'', os @ os'))"

fun allowed :: "('s \<Rightarrow> 'e \<Rightarrow> bool) \<Rightarrow> ('s \<Rightarrow> 'e \<Rightarrow> 's \<times> 'o list) \<Rightarrow> 's \<Rightarrow> 'e list \<Rightarrow> bool" where
  "allowed guard step s [] \<longleftrightarrow> True"
| "allowed guard step s (e # es) \<longleftrightarrow> guard s e \<and> allowed guard step (fst (step s e)) es"

lemma fst_run_Cons: "fst (run step s (e # es)) = fst (run step (fst (step s e)) es)"
  and snd_run_Cons: "snd (run step s (e # es)) = snd (step s e) @ snd (run step (fst (step s e)) es)"
  by (simp_all add: case_prod_beta Let_def)

lemma fst_run_append: "fst (run step s (es @ fs)) = fst (run step (fst (run step s es)) fs)"
  by (induction es arbitrary: s) (simp_all del: run.simps(2) add: fst_run_Cons)

lemma snd_run_append:
  "snd (run step s (es @ fs)) = snd (run step s es) @ snd (run step (fst (run step s es)) fs)"
  by (induction es arbitrary: s) (simp_all del: run.simps(2) add: fst_run_Cons snd_run_Cons)

lemma allowed_append:
  "allowed guard step s (es @ fs) \<longleftrightarrow>
     allowed guard step s es \<and> allowed guard step (fst (run step s es)) fs"
  by (induction es arbitrary: s) (simp_all del: run.simps(2) add: fst_run_Cons)

locale guarded_machine =
  fixes step :: "'s \<Rightarrow> 'e \<Rightarrow> 's \<times> 'o list"
    and guard :: "'s \<Rightarrow> 'e \<Rightarrow> bool"
    and inv :: "'s \<Rightarrow> bool"
  assumes inv_step: "inv s \<Longrightarrow> guard s e \<Longrightarrow> inv (fst (step s e))"
begin

lemma inv_run: "inv s \<Longrightarrow> allowed guard step s es \<Longrightarrow> inv (fst (run step s es))"
  by (induction es arbitrary: s) (auto simp: inv_step fst_run_Cons simp del: run.simps(2))

text \<open>An effect of a run is an effect of an allowed step from a state with the invariant.\<close>

lemma run_effect:
  "inv s \<Longrightarrow> allowed guard step s es \<Longrightarrow> out \<in> set (snd (run step s es)) \<Longrightarrow>
     \<exists>s' e. inv s' \<and> guard s' e \<and> out \<in> set (snd (step s' e))"
proof (induction es arbitrary: s)
  case (Cons e es)
  then show ?case using inv_step [of s e] by (auto simp: snd_run_Cons simp del: run.simps(2))
qed simp

end

text \<open>
  Refinement of such a component to an abstract specification: a relation between abstract states
  labelled with the effects in between, closed under composition, that every step of the component
  follows through an abstraction function.
\<close>

locale simulation = guarded_machine step guard inv
  for step :: "'s \<Rightarrow> 'e \<Rightarrow> 's \<times> 'o list" and guard and inv +
  fixes abs :: "'s \<Rightarrow> 'a" and spec :: "'a \<Rightarrow> 'o list \<Rightarrow> 'a \<Rightarrow> bool"
  assumes spec_refl: "spec a [] a"
    and spec_trans: "spec a xs b \<Longrightarrow> spec b ys c \<Longrightarrow> spec a (xs @ ys) c"
    and step_sim: "inv s \<Longrightarrow> guard s e \<Longrightarrow> spec (abs s) (snd (step s e)) (abs (fst (step s e)))"
begin

lemma run_sim: "inv s \<Longrightarrow> allowed guard step s es \<Longrightarrow> spec (abs s) (snd (run step s es)) (abs (fst (run step s es)))"
proof (induction es arbitrary: s)
  case (Cons e es)
  then have "spec (abs s) (snd (step s e)) (abs (fst (step s e)))"
    "spec (abs (fst (step s e))) (snd (run step (fst (step s e)) es)) (abs (fst (run step (fst (step s e)) es)))"
    using inv_step step_sim by auto
  from spec_trans [OF this] show ?case by (simp only: fst_run_Cons snd_run_Cons)
qed (simp add: spec_refl)

end

end
