(* ===== verification/Utf8.thy ===== *)
theory Utf8
  imports Prelude
begin

text \<open>
  UTF-8 as the source uses it: \<open>new TextEncoder().encode(s)\<close>
  (headfwd-proxy/src/index.ts, \<open>computeFingerprint\<close> and \<open>handleRegisterVerify\<close>) and the decoding
  that \<open>request.text()\<close> and \<open>request.json()\<close> perform on a body. Encoding replaces lone
  surrogates by U+FFFD; decoding replaces each ill-formed subsequence by U+FFFD and drops a leading
  byte order mark. The main lemma is the round trip on well-formed strings.
\<close>

definition replacement :: nat where
  "replacement = 0xFFFD"

definition isHigh :: "jschar \<Rightarrow> bool" where
  "isHigh c \<longleftrightarrow> 0xD800 \<le> unat c \<and> unat c \<le> 0xDBFF"

definition isLow :: "jschar \<Rightarrow> bool" where
  "isLow c \<longleftrightarrow> 0xDC00 \<le> unat c \<and> unat c \<le> 0xDFFF"

text \<open>The scalar values of a string: surrogate pairs combined, lone surrogates replaced.\<close>

fun scalars :: "jsstring \<Rightarrow> nat list" where
  "scalars [] = []"
| "scalars [c] = [if isHigh c \<or> isLow c then replacement else unat c]"
| "scalars (c # d # s) =
     (if isHigh c \<and> isLow d
      then (0x10000 + (unat c - 0xD800) * 0x400 + (unat d - 0xDC00)) # scalars s
      else (if isHigh c \<or> isLow c then replacement else unat c) # scalars (d # s))"

definition scalarOk :: "nat \<Rightarrow> bool" where
  "scalarOk n \<longleftrightarrow> n < 0x110000 \<and> \<not> (0xD800 \<le> n \<and> n \<le> 0xDFFF)"

definition encodeScalar :: "nat \<Rightarrow> nat list" where
  "encodeScalar n =
     (if n < 0x80 then [n]
      else if n < 0x800 then [0xC0 + n div 64, 0x80 + n mod 64]
      else if n < 0x10000 then [0xE0 + n div 4096, 0x80 + n div 64 mod 64, 0x80 + n mod 64]
      else [0xF0 + n div 262144, 0x80 + n div 4096 mod 64, 0x80 + n div 64 mod 64, 0x80 + n mod 64])"

definition utf8_encode :: "jsstring \<Rightarrow> bytes" where
  "utf8_encode s = map of_nat (concat (map encodeScalar (scalars s)))"

definition isCont :: "nat \<Rightarrow> bool" where
  "isCont b \<longleftrightarrow> 0x80 \<le> b \<and> b \<le> 0xBF"

text \<open>
  The decoder: the range of the second byte depends on the lead byte, and a byte that does not
  continue a sequence is read again as the start of the next one.
\<close>

definition second3 :: "nat \<Rightarrow> nat \<Rightarrow> bool" where
  "second3 b c \<longleftrightarrow> (if b = 0xE0 then 0xA0 else 0x80) \<le> c \<and> c \<le> (if b = 0xED then 0x9F else 0xBF)"

definition second4 :: "nat \<Rightarrow> nat \<Rightarrow> bool" where
  "second4 b c \<longleftrightarrow> (if b = 0xF0 then 0x90 else 0x80) \<le> c \<and> c \<le> (if b = 0xF4 then 0x8F else 0xBF)"

function decodeUnits :: "nat list \<Rightarrow> nat list" where
  "decodeUnits [] = []"
| "decodeUnits (b # bs) =
     (if b < 0x80 then b # decodeUnits bs
      else if 0xC2 \<le> b \<and> b \<le> 0xDF then
        (case bs of c # cs \<Rightarrow>
           if isCont c then ((b - 0xC0) * 64 + (c - 0x80)) # decodeUnits cs
           else replacement # decodeUnits bs
         | [] \<Rightarrow> [replacement])
      else if 0xE0 \<le> b \<and> b \<le> 0xEF then
        (case bs of c # cs \<Rightarrow>
           if second3 b c then
             (case cs of d # ds \<Rightarrow>
                if isCont d
                then ((b - 0xE0) * 4096 + (c - 0x80) * 64 + (d - 0x80)) # decodeUnits ds
                else replacement # decodeUnits cs
              | [] \<Rightarrow> [replacement])
           else replacement # decodeUnits bs
         | [] \<Rightarrow> [replacement])
      else if 0xF0 \<le> b \<and> b \<le> 0xF4 then
        (case bs of c # cs \<Rightarrow>
           if second4 b c then
             (case cs of d # ds \<Rightarrow>
                if isCont d then
                  (case ds of e # es \<Rightarrow>
                     if isCont e
                     then ((b - 0xF0) * 262144 + (c - 0x80) * 4096 + (d - 0x80) * 64 + (e - 0x80))
                            # decodeUnits es
                     else replacement # decodeUnits ds
                   | [] \<Rightarrow> [replacement])
                else replacement # decodeUnits cs
              | [] \<Rightarrow> [replacement])
           else replacement # decodeUnits bs
         | [] \<Rightarrow> [replacement])
      else replacement # decodeUnits bs)"
  by pat_completeness auto
termination
  by (relation "measure length") auto

declare decodeUnits.simps(2) [simp del]

text \<open>Back to UTF-16.\<close>

definition units :: "nat \<Rightarrow> jsstring" where
  "units n =
     (if n < 0x10000 then [of_nat n]
      else [of_nat (0xD800 + (n - 0x10000) div 0x400), of_nat (0xDC00 + (n - 0x10000) mod 0x400)])"

definition stripBom :: "nat list \<Rightarrow> nat list" where
  "stripBom ns = (if take 1 ns = [0xFEFF] then drop 1 ns else ns)"

definition utf8_decode :: "bytes \<Rightarrow> jsstring" where
  "utf8_decode bs = concat (map units (stripBom (decodeUnits (map unat bs))))"

text \<open>Well-formed strings: no lone surrogate.\<close>

fun utf16_ok :: "jsstring \<Rightarrow> bool" where
  "utf16_ok [] \<longleftrightarrow> True"
| "utf16_ok [c] \<longleftrightarrow> \<not> isHigh c \<and> \<not> isLow c"
| "utf16_ok (c # d # s) \<longleftrightarrow>
     (if isHigh c then isLow d \<and> utf16_ok s else \<not> isLow c \<and> utf16_ok (d # s))"

definition text_ok :: "jsstring \<Rightarrow> bool" where
  "text_ok s \<longleftrightarrow> utf16_ok s \<and> take 1 s \<noteq> [0xFEFF]"

subsection \<open>Round trip\<close>

lemma split_base64:
  fixes n :: nat
  shows "n div 64 * 64 + n mod 64 = n"
    and "n div 4096 * 64 + n div 64 mod 64 = n div 64"
    and "n div 262144 * 64 + n div 4096 mod 64 = n div 4096"
  using div_mult_mod_eq [of n 64] div_mult_mod_eq [of "n div 64" 64]
    div_mult_mod_eq [of "n div 4096" 64]
  by (simp_all add: div_mult2_eq [symmetric])

lemma second3I: "b < 64 \<Longrightarrow> (a = 0 \<longrightarrow> 32 \<le> b) \<Longrightarrow> (a = 13 \<longrightarrow> b < 32) \<Longrightarrow> second3 (0xE0 + a) (0x80 + b)"
  and second4I: "b < 64 \<Longrightarrow> (a = 0 \<longrightarrow> 16 \<le> b) \<Longrightarrow> (a = 4 \<longrightarrow> b < 16) \<Longrightarrow> second4 (0xF0 + a) (0x80 + b)"
  by (auto simp: second3_def second4_def)

lemma isCont_mod: "isCont (0x80 + n mod 64)"
  using mod_less_divisor [of 64 n] unfolding isCont_def by linarith

lemma decodeUnits_encodeScalar:
  assumes "scalarOk n"
  shows "decodeUnits (encodeScalar n @ ns) = n # decodeUnits ns"
proof -
  consider "n < 0x80" | "0x80 \<le> n" "n < 0x800" | "0x800 \<le> n" "n < 0x10000" | "0x10000 \<le> n"
    by linarith
  then show ?thesis
  proof cases
    case 1
    then show ?thesis by (simp add: encodeScalar_def decodeUnits.simps(2))
  next
    case 2
    let ?a = "n div 64" and ?b = "n mod 64"
    have r: "2 \<le> ?a" "?a < 32" "?b < 64" "?a * 64 + ?b = n"
      using 2 by simp_all
    have "encodeScalar n = [0xC0 + ?a, 0x80 + ?b]"
      using 2 by (simp add: encodeScalar_def)
    with r show ?thesis
      by (simp add: decodeUnits.simps(2) isCont_mod del: div_mult_mod_eq)
  next
    case 3
    let ?a = "n div 4096" and ?b = "n div 64 mod 64" and ?c = "n mod 64"
    have b: "?b < 64" "?c < 64" by simp_all
    have s: "?a * 4096 + ?b * 64 + ?c = n"
      using split_base64 [of n] by linarith
    from s b 3 have a: "?a < 16" by linarith
    note r = a b s
    from s b 3 assms have "?a = 0 \<longrightarrow> 32 \<le> ?b" and "?a = 13 \<longrightarrow> ?b < 32"
      unfolding scalarOk_def by linarith+
    with b(1) have "second3 (0xE0 + ?a) (0x80 + ?b)"
      by (rule second3I)
    moreover have "encodeScalar n = [0xE0 + ?a, 0x80 + ?b, 0x80 + ?c]"
      using 3 by (simp add: encodeScalar_def)
    ultimately show ?thesis
      using r by (simp add: decodeUnits.simps(2) isCont_mod)
  next
    case 4
    let ?a = "n div 262144" and ?b = "n div 4096 mod 64" and ?c = "n div 64 mod 64"
      and ?d = "n mod 64"
    have b: "?b < 64" "?c < 64" "?d < 64" by simp_all
    have s: "?a * 262144 + ?b * 4096 + ?c * 64 + ?d = n"
      using split_base64 [of n] by linarith
    from s b 4 assms have a: "?a < 5" unfolding scalarOk_def by linarith
    note r = a b
    from s b 4 assms have "?a = 0 \<longrightarrow> 16 \<le> ?b" and "?a = 4 \<longrightarrow> ?b < 16"
      unfolding scalarOk_def by linarith+
    with b(1) have "second4 (0xF0 + ?a) (0x80 + ?b)"
      by (rule second4I)
    moreover have "encodeScalar n = [0xF0 + ?a, 0x80 + ?b, 0x80 + ?c, 0x80 + ?d]"
      using 4 by (simp add: encodeScalar_def)
    ultimately show ?thesis
      using r s by (simp add: decodeUnits.simps(2) isCont_mod)
  qed
qed

lemma decodeUnits_concat:
  "\<forall>n\<in>set ns. scalarOk n \<Longrightarrow> decodeUnits (concat (map encodeScalar ns)) = ns"
  by (induction ns) (simp_all add: decodeUnits_encodeScalar)

lemma unat_jschar_less: "unat (c :: jschar) < 0x10000"
  using unsigned_less [of c, where ?'a = nat] by simp

lemma scalarOk_replacement [simp]: "scalarOk replacement"
  by (simp add: scalarOk_def replacement_def)

lemma scalarOk_single: "\<not> isHigh c \<Longrightarrow> \<not> isLow c \<Longrightarrow> scalarOk (unat c)"
  using unat_jschar_less [of c] by (auto simp: scalarOk_def isHigh_def isLow_def)

lemma scalarOk_pair:
  assumes "isHigh c" "isLow d"
  shows "scalarOk (0x10000 + (unat c - 0xD800) * 0x400 + (unat d - 0xDC00))"
proof -
  have "unat c - 0xD800 < 0x400" "unat d - 0xDC00 < 0x400"
    using assms by (auto simp: isHigh_def isLow_def)
  then have "(unat c - 0xD800) * 0x400 + (unat d - 0xDC00) < 0x100000"
    by linarith
  then show ?thesis
    unfolding scalarOk_def by linarith
qed

lemma scalars_ok: "\<forall>n\<in>set (scalars s). scalarOk n"
  by (induction s rule: scalars.induct) (simp_all add: scalarOk_single scalarOk_pair)

lemma encodeScalar_bytes: "scalarOk n \<Longrightarrow> \<forall>b\<in>set (encodeScalar n). b < 256"
  unfolding encodeScalar_def scalarOk_def by auto

lemma map_unat_encode:
  assumes "\<forall>b\<in>set bs. b < 256"
  shows "map unat (map of_nat bs :: bytes) = bs"
  using assms by (induction bs) (simp_all add: unat_of_nat)

lemma decodeUnits_utf8_encode: "decodeUnits (map unat (utf8_encode s)) = scalars s"
proof -
  have "\<forall>b\<in>set (concat (map encodeScalar (scalars s))). b < 256"
    using scalars_ok [of s] encodeScalar_bytes by auto
  then show ?thesis
    unfolding utf8_encode_def by (simp only: map_unat_encode decodeUnits_concat [OF scalars_ok])
qed

lemma units_pair:
  assumes "isHigh c" "isLow d"
  shows "units (0x10000 + (unat c - 0xD800) * 0x400 + (unat d - 0xDC00)) = [c, d]"
proof -
  let ?h = "unat c - 0xD800" and ?l = "unat d - 0xDC00"
  have l: "?l < 0x400" using assms by (auto simp: isLow_def)
  then have "(?h * 0x400 + ?l) div 0x400 = ?h" "(?h * 0x400 + ?l) mod 0x400 = ?l"
    by simp_all
  moreover have "0xD800 + ?h = unat c" "0xDC00 + ?l = unat d"
    using assms by (auto simp: isHigh_def isLow_def)
  ultimately show ?thesis
    by (simp add: units_def add.assoc)
qed

lemma units_single: "units (unat (c :: jschar)) = [c]"
  using unat_jschar_less [of c] by (simp add: units_def)

lemma units_scalars: "utf16_ok s \<Longrightarrow> concat (map units (scalars s)) = s"
  by (induction s rule: utf16_ok.induct)
    (auto simp: units_pair units_single split: if_splits)

lemma scalars_bom: "utf16_ok s \<Longrightarrow> take 1 (scalars s) = [0xFEFF] \<Longrightarrow> take 1 s = [0xFEFF]"
proof (cases s rule: scalars.cases)
  case (2 c)
  assume "utf16_ok s" "take 1 (scalars s) = [0xFEFF]"
  with 2 have "unat c = unat (0xFEFF :: jschar)" by (auto simp: split: if_splits)
  then show ?thesis using 2 by (simp add: word_unat_eq_iff)
next
  case (3 c d s')
  assume "utf16_ok s" "take 1 (scalars s) = [0xFEFF]"
  with 3 have "unat c = unat (0xFEFF :: jschar)" by (auto simp: split: if_splits)
  then show ?thesis using 3 by (simp add: word_unat_eq_iff)
qed simp

lemma utf8_decode_encode: "text_ok s \<Longrightarrow> utf8_decode (utf8_encode s) = s"
  using scalars_bom [of s]
  by (auto simp: utf8_decode_def decodeUnits_utf8_encode stripBom_def text_ok_def units_scalars)

interpretation utf8: codec utf8_encode "\<lambda>bs. Some (utf8_decode bs)" text_ok
  by unfold_locales (simp add: utf8_decode_encode)

text \<open>A body that is the UTF-8 form of a text survives decoding and re-encoding.\<close>

lemma utf8_bytes_preserved: "text_ok s \<Longrightarrow> utf8_encode (utf8_decode (utf8_encode s)) = utf8_encode s"
  by (simp add: utf8_decode_encode)

text \<open>ASCII strings encode to their code units.\<close>

definition ascii :: "jsstring \<Rightarrow> bool" where
  "ascii s \<longleftrightarrow> (\<forall>c\<in>set s. unat c < 0x80)"

lemma ascii_append [simp]: "ascii (s @ t) \<longleftrightarrow> ascii s \<and> ascii t"
  and ascii_Nil [simp]: "ascii []"
  and ascii_Cons [simp]: "ascii (c # s) \<longleftrightarrow> unat c < 0x80 \<and> ascii s"
  by (auto simp: ascii_def)

lemma scalars_ascii: "ascii s \<Longrightarrow> scalars s = map unat s"
  by (induction s rule: scalars.induct) (auto simp: isHigh_def isLow_def)

lemma utf8_encode_ascii: "ascii s \<Longrightarrow> utf8_encode s = map (\<lambda>c. of_nat (unat c)) s"
  by (induction s) (auto simp: utf8_encode_def scalars_ascii encodeScalar_def)

lemma utf16_ok_ascii: "ascii s \<Longrightarrow> utf16_ok s"
  by (induction s rule: utf16_ok.induct) (auto simp: isHigh_def isLow_def)

end
