(* ===== verification/Hex.thy ===== *)
theory Hex
  imports Prelude
begin

text \<open>
  Hexadecimal conversion of headfwd-proxy/src/index.ts: \<open>bufferToHex\<close> (also inlined in
  \<open>computeFingerprint\<close>, \<open>generateSecret\<close> and \<open>generateNonce\<close>) and \<open>hexToBytes\<close>, with the
  language's \<open>parseInt(_, 16)\<close> written out (leading white space, sign, \<open>0x\<close> prefix, longest
  run of digits, \<open>NaN\<close>). Lemmas: the digits produced, the length, the round trip, and the exact
  value of \<open>hexToBytes\<close> on any string, hexadecimal or not.
\<close>

subsection \<open>Printing\<close>

definition hexDigit :: "nat \<Rightarrow> jschar" where
  "hexDigit n = (if n < 10 then of_nat (48 + n) else of_nat (87 + n))"

text \<open>\<open>b.toString(16)\<close> for a byte: no leading zero.\<close>

definition toString16 :: "byte \<Rightarrow> jsstring" where
  "toString16 b =
     (if unat b < 16 then [hexDigit (unat b)]
      else [hexDigit (unat b div 16), hexDigit (unat b mod 16)])"

definition padStart :: "nat \<Rightarrow> jschar \<Rightarrow> jsstring \<Rightarrow> jsstring" where
  "padStart n c s = replicate (n - length s) c @ s"

definition byteHex :: "byte \<Rightarrow> jsstring" where
  "byteHex b = padStart 2 (of_char (CHR ''0'')) (toString16 b)"

definition bufferToHex :: "bytes \<Rightarrow> jsstring" where
  "bufferToHex buffer = concat (map byteHex buffer)"

subsection \<open>Parsing\<close>

definition digitVal :: "jschar \<Rightarrow> nat option" where
  "digitVal c =
     (if 0x30 \<le> unat c \<and> unat c \<le> 0x39 then Some (unat c - 0x30)
      else if 0x61 \<le> unat c \<and> unat c \<le> 0x66 then Some (unat c - 87)
      else if 0x41 \<le> unat c \<and> unat c \<le> 0x46 then Some (unat c - 55)
      else None)"

fun parseDigits :: "int \<Rightarrow> jsstring \<Rightarrow> int" where
  "parseDigits v [] = v"
| "parseDigits v (c # s) =
     (case digitVal c of None \<Rightarrow> v | Some d \<Rightarrow> parseDigits (v * 16 + int d) s)"

text \<open>\<open>parseInt(s, 16)\<close>; \<open>None\<close> is \<open>NaN\<close>.\<close>

definition parseInt16 :: "jsstring \<Rightarrow> int option" where
  "parseInt16 s =
     (let t = dropWhile isSpace s;
          neg = startsWith t (js ''-'');
          u = (if neg \<or> startsWith t (js ''+'') then drop 1 t else t);
          v = (if startsWith u (js ''0x'') \<or> startsWith u (js ''0X'') then drop 2 u else u)
      in case v of [] \<Rightarrow> None
         | c # _ \<Rightarrow> if digitVal c = None then None
                    else Some ((if neg then -1 else 1) * parseDigits 0 v))"

text \<open>Storing a number in a \<open>Uint8Array\<close>: \<open>NaN\<close> becomes 0, integers wrap modulo 256.\<close>

definition toUint8 :: "int option \<Rightarrow> byte" where
  "toUint8 n = (case n of None \<Rightarrow> 0 | Some v \<Rightarrow> of_int v)"

text \<open>\<open>hex.substr(i, 2)\<close>\<close>

definition substr2 :: "jsstring \<Rightarrow> nat \<Rightarrow> jsstring" where
  "substr2 s i = take 2 (drop i s)"

text \<open>
  The loop runs for \<open>i = 0, 2, \<dots>\<close> below the length; a string of odd length makes one write past
  the end of the array, which typed arrays ignore (as \<open>xs[k := v]\<close> does).
\<close>

definition hexToBytes :: "jsstring \<Rightarrow> bytes" where
  "hexToBytes hex =
     fold (\<lambda>k bytes. bytes[k := toUint8 (parseInt16 (substr2 hex (2 * k)))])
       [0 ..< (length hex + 1) div 2] (replicate (length hex div 2) 0)"

subsection \<open>Digits\<close>

definition lowerHex :: "jschar \<Rightarrow> bool" where
  "lowerHex c \<longleftrightarrow> 0x30 \<le> unat c \<and> unat c \<le> 0x39 \<or> 0x61 \<le> unat c \<and> unat c \<le> 0x66"

lemma unat_hexDigit: "n < 16 \<Longrightarrow> unat (hexDigit n) = (if n < 10 then 48 + n else 87 + n)"
  by (simp add: hexDigit_def unat_of_nat del: of_nat_add)

lemma lowerHex_hexDigit: "n < 16 \<Longrightarrow> lowerHex (hexDigit n)"
  by (simp add: lowerHex_def unat_hexDigit)

lemma digitVal_hexDigit: "n < 16 \<Longrightarrow> digitVal (hexDigit n) = Some n"
  by (simp add: digitVal_def unat_hexDigit)

lemma unat_byte_less: "unat (b :: byte) < 256"
  using unsigned_less [of b, where ?'a = nat] by simp

lemma byteHex_eq: "byteHex b = [hexDigit (unat b div 16), hexDigit (unat b mod 16)]"
proof -
  have "(of_char (CHR ''0'') :: jschar) = hexDigit 0"
    by (simp add: hexDigit_def of_char_def)
  then show ?thesis
    by (simp add: byteHex_def padStart_def toString16_def)
qed

lemma byte_nibbles: "unat (b :: byte) div 16 < 16" "unat b mod 16 < 16"
  using unat_byte_less [of b] by auto

lemma length_byteHex [simp]: "length (byteHex b) = 2"
  by (simp add: byteHex_eq)

lemma lowerHex_byteHex: "c \<in> set (byteHex b) \<Longrightarrow> lowerHex c"
  using byte_nibbles [of b] by (auto simp: byteHex_eq lowerHex_hexDigit)

lemma length_bufferToHex [simp]: "length (bufferToHex bs) = 2 * length bs"
  by (induction bs) (simp_all add: bufferToHex_def)

lemma lowerHex_bufferToHex: "c \<in> set (bufferToHex bs) \<Longrightarrow> lowerHex c"
  by (auto simp: bufferToHex_def lowerHex_byteHex)

subsection \<open>What \<open>hexToBytes\<close> computes\<close>

lemma fold_writes:
  "length xs = n \<Longrightarrow> m \<le> n \<Longrightarrow>
     fold (\<lambda>k xs. xs[k := f k]) [0..<m] xs = map f [0..<m] @ drop m xs"
proof (induction m)
  case (Suc m)
  then have "fold (\<lambda>k xs. xs[k := f k]) [0..<m] xs = map f [0..<m] @ drop m xs"
    by simp
  moreover have "drop m xs = xs ! m # drop (Suc m) xs"
    using Suc.prems by (simp add: Cons_nth_drop_Suc)
  ultimately show ?case
    by (simp add: list_update_append)
qed simp

lemma hexToBytes_eq:
  "hexToBytes hex = map (\<lambda>k. toUint8 (parseInt16 (substr2 hex (2 * k)))) [0..<length hex div 2]"
proof -
  let ?f = "\<lambda>k. toUint8 (parseInt16 (substr2 hex (2 * k)))"
    and ?n = "length hex div 2"
  have w: "fold (\<lambda>k xs. xs[k := ?f k]) [0..<?n] (replicate ?n 0) = map ?f [0..<?n]"
    by (subst fold_writes [of _ ?n]) simp_all
  have "(length hex + 1) div 2 = ?n \<or> (length hex + 1) div 2 = Suc ?n"
    by presburger
  then show ?thesis
    unfolding hexToBytes_def using w by (auto simp: list_update_beyond)
qed

lemma length_hexToBytes [simp]: "length (hexToBytes hex) = length hex div 2"
  by (simp add: hexToBytes_eq)

lemma not_isSpace_hexDigit: "n < 16 \<Longrightarrow> \<not> isSpace (hexDigit n)"
  by (simp add: isSpace_def unat_hexDigit)

lemma hexDigit_neq:
  assumes "n < 16"
  shows "hexDigit n \<noteq> 45" "hexDigit n \<noteq> 43" "hexDigit n \<noteq> 120" "hexDigit n \<noteq> 88"
  using unat_hexDigit [OF assms] assms
  by (auto simp: word_unat_eq_iff split: if_splits)

lemma parseInt16_byteHex: "parseInt16 (byteHex b) = Some (int (unat b))"
proof -
  let ?h = "unat b div 16" and ?l = "unat b mod 16"
  have d: "?h < 16" "?l < 16" by (rule byte_nibbles)+
  have "int ?h * 16 + int ?l = int (unat b)"
    by (metis div_mult_mod_eq of_nat_add of_nat_mult of_nat_numeral)
  with d show ?thesis
    by (simp add: parseInt16_def byteHex_eq Let_def not_isSpace_hexDigit startsWith_def js_Cons
        hexDigit_neq digitVal_hexDigit)
qed

lemma substr2_bufferToHex:
  "k < length bs \<Longrightarrow> substr2 (bufferToHex bs) (2 * k) = byteHex (bs ! k)"
proof (induction bs arbitrary: k)
  case (Cons b bs)
  show ?case
  proof (cases k)
    case 0
    then show ?thesis by (simp add: bufferToHex_def substr2_def)
  next
    case (Suc j)
    with Cons show ?thesis by (simp add: bufferToHex_def substr2_def)
  qed
qed simp

lemma hexToBytes_bufferToHex: "hexToBytes (bufferToHex bs) = bs"
  by (rule nth_equalityI)
    (simp_all add: hexToBytes_eq substr2_bufferToHex parseInt16_byteHex toUint8_def)

interpretation hex: codec bufferToHex "\<lambda>s. Some (hexToBytes s)" "\<lambda>_. True"
  by unfold_locales (simp add: hexToBytes_bufferToHex)

text \<open>A pair of characters with no leading digit is read as 0, not rejected.\<close>

lemma parseInt16_NaN: "digitVal c = None \<Longrightarrow> \<not> isSpace c \<Longrightarrow> c \<noteq> of_char CHR ''-'' \<Longrightarrow>
    c \<noteq> of_char CHR ''+'' \<Longrightarrow> parseInt16 (c # s) = None"
  by (auto simp: parseInt16_def Let_def startsWith_def js_Cons digitVal_def of_char_def)

text \<open>
  \<open>hexToBytes\<close> undoes \<open>bufferToHex\<close> on every byte array, and \<open>bufferToHex\<close> produces two
  lower-case hexadecimal digits per byte.
\<close>

theorem hex_roundtrip:
  "hexToBytes (bufferToHex bs) = bs \<and> length (bufferToHex bs) = 2 * length bs \<and>
   list_all lowerHex (bufferToHex bs)"
  by (simp add: hexToBytes_bufferToHex list_all_iff lowerHex_bufferToHex)

end
