(* ===== verification/Json.thy ===== *)
theory Json
  imports Utf8 Hex
begin

text \<open>
  \<open>JSON.stringify\<close> and \<open>JSON.parse\<close> on the values the proxy exchanges (request bodies, KV records,
  tunnel messages), and the dynamic operations the source applies to a parsed value: property
  access, truthiness, conversion to a string.

  A number is a decimal \<open>m / 10 ^ k\<close>, exact where the language rounds to a double; the program
  itself only prints integers. The parser is a recursive descent over the text with fuel; the text
  is twice as long in fuel, plus two, which is always enough (\<open>parse_fuel_enough\<close>). The main lemma
  is the round trip \<open>JSON_parse (JSON_stringify j) = Some j\<close> for values with distinct keys and
  integers below the safe bound.
\<close>

datatype json =
    JNull
  | JBool bool
  | JNum int nat
  | JStr jsstring
  | JArr "json list"
  | JObj "(jsstring \<times> json) list"

abbreviation JInt :: "int \<Rightarrow> json" where
  "JInt i \<equiv> JNum i 0"

subsection \<open>Printing\<close>

definition quote :: jschar where "quote = 0x22"
definition backslash :: jschar where "backslash = 0x5C"

definition hex4 :: "jschar \<Rightarrow> jsstring" where
  "hex4 c = map hexDigit [unat c div 4096, unat c div 256 mod 16, unat c div 16 mod 16, unat c mod 16]"

definition shortEscape :: "jschar \<Rightarrow> jschar option" where
  "shortEscape c =
     map_of [(0x22, 0x22), (0x5C, 0x5C), (0x08, 0x62), (0x09, 0x74), (0x0A, 0x6E), (0x0C, 0x66), (0x0D, 0x72)] c"

definition quoteUnit :: "jschar \<Rightarrow> jsstring" where
  "quoteUnit c =
     (case shortEscape c of Some e \<Rightarrow> [backslash, e]
      | None \<Rightarrow> if unat c < 0x20 \<or> isHigh c \<or> isLow c then [backslash, 0x75] @ hex4 c else [c])"

fun quoteUnits :: "jsstring \<Rightarrow> jsstring" where
  "quoteUnits [] = []"
| "quoteUnits [c] = quoteUnit c"
| "quoteUnits (c # d # s) =
     (if isHigh c \<and> isLow d then c # d # quoteUnits s else quoteUnit c @ quoteUnits (d # s))"

definition quoteString :: "jsstring \<Rightarrow> jsstring" where
  "quoteString s = [quote] @ quoteUnits s @ [quote]"

definition decDigit :: "nat \<Rightarrow> jschar" where
  "decDigit n = of_nat (48 + n)"

fun showNat :: "nat \<Rightarrow> jsstring" where
  "showNat n = (if n < 10 then [decDigit n] else showNat (n div 10) @ [decDigit (n mod 10)])"

declare showNat.simps [simp del]

definition showNum :: "int \<Rightarrow> nat \<Rightarrow> jsstring" where
  "showNum m k =
     (if m < 0 then js ''-'' else []) @
     (let ds = padStart (Suc k) (decDigit 0) (showNat (nat \<bar>m\<bar>)); n = length ds - k
      in if k = 0 then ds else take n ds @ js ''.'' @ drop n ds)"

fun intercalate :: "jsstring \<Rightarrow> jsstring list \<Rightarrow> jsstring" where
  "intercalate sep [] = []"
| "intercalate sep [s] = s"
| "intercalate sep (s # t # r) = s @ sep @ intercalate sep (t # r)"

fun JSON_stringify :: "json \<Rightarrow> jsstring" where
  "JSON_stringify JNull = js ''null''"
| "JSON_stringify (JBool b) = (if b then js ''true'' else js ''false'')"
| "JSON_stringify (JNum m k) = showNum m k"
| "JSON_stringify (JStr s) = quoteString s"
| "JSON_stringify (JArr xs) = js ''['' @ intercalate (js '','') (map JSON_stringify xs) @ js '']''"
| "JSON_stringify (JObj kvs) =
     js ''{'' @ intercalate (js '','') (map (\<lambda>(k, v). quoteString k @ js '':'' @ JSON_stringify v) kvs)
       @ js ''}''"

subsection \<open>Parsing\<close>

definition jsonSpace :: "jschar \<Rightarrow> bool" where
  "jsonSpace c \<longleftrightarrow> unat c \<in> {0x20, 0x9, 0xA, 0xD}"

abbreviation skipWs :: "jsstring \<Rightarrow> jsstring" where
  "skipWs \<equiv> dropWhile jsonSpace"

definition isDigit :: "jschar \<Rightarrow> bool" where
  "isDigit c \<longleftrightarrow> 48 \<le> unat c \<and> unat c \<le> 57"

definition decVal :: "jsstring \<Rightarrow> nat" where
  "decVal ds = foldl (\<lambda>v c. v * 10 + (unat c - 48)) 0 ds"

definition hexVal4 :: "jsstring \<Rightarrow> nat option" where
  "hexVal4 ds =
     (if list_all (\<lambda>c. digitVal c \<noteq> None) ds
      then Some (foldl (\<lambda>v c. v * 16 + the (digitVal c)) 0 ds) else None)"

definition unescape :: "jschar \<Rightarrow> jschar option" where
  "unescape e =
     map_of [(0x22, 0x22), (0x5C, 0x5C), (0x2F, 0x2F), (0x62, 0x08), (0x74, 0x09), (0x6E, 0x0A), (0x66, 0x0C), (0x72, 0x0D)] e"

text \<open>The characters of a string literal, after the opening quote.\<close>

function parseChars :: "jsstring \<Rightarrow> (jsstring \<times> jsstring) option" where
  "parseChars [] = None"
| "parseChars (c # s) =
     (if c = quote then Some ([], s)
      else if c = backslash then
        (if take 1 s = [0x75]
         then (if length s < 5 then None
               else case hexVal4 (take 4 (drop 1 s)) of None \<Rightarrow> None
                    | Some v \<Rightarrow> map_option (\<lambda>(t, r). (of_nat v # t, r)) (parseChars (drop 5 s)))
         else case s of [] \<Rightarrow> None
              | e # r' \<Rightarrow> (case unescape e of None \<Rightarrow> None
                          | Some x \<Rightarrow> map_option (\<lambda>(t, r). (x # t, r)) (parseChars r')))
      else if unat c < 0x20 then None
      else map_option (\<lambda>(t, r). (c # t, r)) (parseChars s))"
  by pat_completeness auto
termination
  by (relation "measure length") auto

declare parseChars.simps(2) [simp del]

fun normDec :: "int \<Rightarrow> nat \<Rightarrow> json" where
  "normDec m 0 = JNum m 0"
| "normDec m (Suc k) = (if m mod 10 = 0 then normDec (m div 10) k else JNum m (Suc k))"

definition parseFrac :: "jsstring \<Rightarrow> (jsstring \<times> jsstring) option" where
  "parseFrac s =
     (if startsWith s (js ''.'')
      then (let ds = takeWhile isDigit (drop 1 s) in
            if ds = [] then None else Some (ds, dropWhile isDigit (drop 1 s)))
      else Some ([], s))"

definition parseExp :: "jsstring \<Rightarrow> (int \<times> jsstring) option" where
  "parseExp s =
     (if startsWith s (js ''e'') \<or> startsWith s (js ''E'')
      then (let t = drop 1 s; neg = startsWith t (js ''-'');
                u = (if neg \<or> startsWith t (js ''+'') then drop 1 t else t);
                ds = takeWhile isDigit u
            in if ds = [] then None
               else Some ((if neg then -1 else 1) * int (decVal ds), dropWhile isDigit u))
      else Some (0, s))"

definition parseNumber :: "jsstring \<Rightarrow> (json \<times> jsstring) option" where
  "parseNumber s =
     (let neg = startsWith s (js ''-''); t = (if neg then drop 1 s else s);
          ds = takeWhile isDigit t
      in if ds = [] \<or> hd ds = decDigit 0 \<and> length ds > 1 then None
         else case parseFrac (dropWhile isDigit t) of None \<Rightarrow> None
         | Some (fs, u) \<Rightarrow> (case parseExp u of None \<Rightarrow> None
         | Some (e, r) \<Rightarrow>
             let m = (if neg then -1 else 1) * int (decVal (ds @ fs)); k = e - int (length fs)
             in Some (if k \<ge> 0 then JNum (m * 10 ^ nat k) 0 else normDec m (nat (- k)), r)))"

definition parseWord :: "string \<Rightarrow> json \<Rightarrow> jsstring \<Rightarrow> (json \<times> jsstring) option" where
  "parseWord w j s = (if startsWith s (js w) then Some (j, drop (length w) s) else None)"

text \<open>An object keeps the first position and the last value of a repeated key.\<close>

definition mkObj :: "(jsstring \<times> json) list \<Rightarrow> json" where
  "mkObj kvs = JObj (fold (\<lambda>(k, v) m. map_set k v m) kvs [])"

fun parseValue :: "nat \<Rightarrow> jsstring \<Rightarrow> (json \<times> jsstring) option"
  and parseElems :: "nat \<Rightarrow> jsstring \<Rightarrow> (json list \<times> jsstring) option"
  and parseMembers :: "nat \<Rightarrow> jsstring \<Rightarrow> ((jsstring \<times> json) list \<times> jsstring) option" where
  "parseValue 0 s = None"
| "parseValue (Suc n) s =
     (case skipWs s of [] \<Rightarrow> None
      | c # t \<Rightarrow>
          if c = of_char CHR ''['' then
            (if startsWith (skipWs t) (js '']'') then Some (JArr [], drop 1 (skipWs t))
             else map_option (\<lambda>(xs, r). (JArr xs, r)) (parseElems n t))
          else if c = of_char CHR ''{'' then
            (if startsWith (skipWs t) (js ''}'') then Some (JObj [], drop 1 (skipWs t))
             else map_option (\<lambda>(kvs, r). (mkObj kvs, r)) (parseMembers n t))
          else if c = quote then map_option (\<lambda>(x, r). (JStr x, r)) (parseChars t)
          else if c = of_char CHR ''t'' then parseWord ''true'' (JBool True) (c # t)
          else if c = of_char CHR ''f'' then parseWord ''false'' (JBool False) (c # t)
          else if c = of_char CHR ''n'' then parseWord ''null'' JNull (c # t)
          else parseNumber (c # t))"
| "parseElems 0 s = None"
| "parseElems (Suc n) s =
     (case parseValue n s of None \<Rightarrow> None
      | Some (v, r) \<Rightarrow>
          (let u = skipWs r in
           if startsWith u (js '']'') then Some ([v], drop 1 u)
           else if startsWith u (js '','')
           then map_option (\<lambda>(xs, r'). (v # xs, r')) (parseElems n (drop 1 u))
           else None))"
| "parseMembers 0 s = None"
| "parseMembers (Suc n) s =
     (case skipWs s of [] \<Rightarrow> None
      | c # t \<Rightarrow>
          if c \<noteq> quote then None
          else case parseChars t of None \<Rightarrow> None
          | Some (k, r) \<Rightarrow>
              if \<not> startsWith (skipWs r) (js '':'') then None
              else case parseValue n (drop 1 (skipWs r)) of None \<Rightarrow> None
              | Some (v, r') \<Rightarrow>
                  (let u = skipWs r' in
                   if startsWith u (js ''}'') then Some ([(k, v)], drop 1 u)
                   else if startsWith u (js '','')
                   then map_option (\<lambda>(kvs, q). ((k, v) # kvs, q)) (parseMembers n (drop 1 u))
                   else None))"

definition JSON_parse :: "jsstring \<Rightarrow> json option" where
  "JSON_parse s =
     (case parseValue (2 * length s + 2) s of None \<Rightarrow> None
      | Some (v, r) \<Rightarrow> if skipWs r = [] then Some v else None)"


subsection \<open>Dynamic operations on parsed values\<close>

text \<open>
  \<open>None :: json option\<close> is \<open>undefined\<close>. \<open>getProp\<close> reads a property: it throws (outer \<open>None\<close>) on
  \<open>undefined\<close> and \<open>null\<close>, and gives \<open>undefined\<close> for an absent one.
\<close>

definition getProp :: "json option \<Rightarrow> string \<Rightarrow> json option option" where
  "getProp j k =
     (case j of None \<Rightarrow> None
      | Some JNull \<Rightarrow> None
      | Some (JObj kvs) \<Rightarrow> Some (map_get kvs (js k))
      | Some _ \<Rightarrow> Some None)"

fun truthy :: "json option \<Rightarrow> bool" where
  "truthy None \<longleftrightarrow> False"
| "truthy (Some JNull) \<longleftrightarrow> False"
| "truthy (Some (JBool b)) \<longleftrightarrow> b"
| "truthy (Some (JNum m k)) \<longleftrightarrow> m \<noteq> 0"
| "truthy (Some (JStr s)) \<longleftrightarrow> s \<noteq> []"
| "truthy (Some _) \<longleftrightarrow> True"

text \<open>
  Conversion to a string, as in a template literal. A parsed object prints as
  \<open>[object Object]\<close>, unless it has a property \<open>toString\<close> of its own, which is never callable:
  then the conversion throws.
\<close>

fun toStringJ :: "json \<Rightarrow> jsstring option" where
  "toStringJ JNull = Some (js ''null'')"
| "toStringJ (JBool b) = Some (if b then js ''true'' else js ''false'')"
| "toStringJ (JNum m k) = Some (showNum m k)"
| "toStringJ (JStr s) = Some s"
| "toStringJ (JArr xs) =
     map_option (intercalate (js '',''))
       (those (map (\<lambda>x. if x = JNull then Some [] else toStringJ x) xs))"
| "toStringJ (JObj kvs) =
     (if map_get kvs (js ''toString'') = None then Some (js ''[object Object]'') else None)"

text \<open>An object literal: properties whose value is \<open>undefined\<close> are not printed.\<close>

definition objLit :: "(string \<times> json option) list \<Rightarrow> json" where
  "objLit kvs = JObj (List.map_filter (\<lambda>(k, v). map_option (\<lambda>x. (js k, x)) v) kvs)"

subsection \<open>Numbers\<close>

lemma unat_decDigit: "n < 10 \<Longrightarrow> unat (decDigit n) = 48 + n"
  by (simp add: decDigit_def unat_of_nat del: of_nat_add)

lemma decVal_snoc: "decVal (ds @ [d]) = decVal ds * 10 + (unat d - 48)"
  by (simp add: decVal_def)

lemma decVal_showNat: "decVal (showNat n) = n"
proof (induction n rule: showNat.induct)
  case (1 n)
  then show ?case
    by (cases "n < 10")
      (simp_all add: showNat.simps [of n] decVal_snoc unat_decDigit, simp add: decVal_def unat_decDigit)
qed

lemma showNat_digits: "c \<in> set (showNat n) \<Longrightarrow> isDigit c"
proof (induction n rule: showNat.induct)
  case (1 n)
  then show ?case
    by (cases "n < 10") (auto simp: showNat.simps [of n] isDigit_def unat_decDigit)
qed

lemma showNat_not_Nil [simp]: "showNat n \<noteq> []"
  by (simp add: showNat.simps [of n])

lemma hd_showNat: "0 < n \<Longrightarrow> hd (showNat n) \<noteq> decDigit 0"
proof (induction n rule: showNat.induct)
  case (1 n)
  then show ?case
    by (cases "n < 10") (auto simp: showNat.simps [of n] word_unat_eq_iff unat_decDigit)
qed

definition stops :: "jsstring \<Rightarrow> bool" where
  "stops r \<longleftrightarrow> r = [] \<or> hd r \<in> {0x2C, 0x5D, 0x7D}"

lemma stops_cases:
  assumes "stops r"
  obtains "r = []" | t where "r = 0x2C # t" | t where "r = 0x5D # t" | t where "r = 0x7D # t"
  using assms by (cases r) (auto simp: stops_def)

lemma takeWhile_digits: "(\<And>c. c \<in> set ds \<Longrightarrow> isDigit c) \<Longrightarrow> stops r \<Longrightarrow>
    takeWhile isDigit (ds @ r) = ds \<and> dropWhile isDigit (ds @ r) = r"
  by (erule stops_cases) (auto simp: isDigit_def takeWhile_append2 dropWhile_append2)

lemma parseFrac_stops: "stops r \<Longrightarrow> parseFrac r = Some ([], r)"
  and parseExp_stops: "stops r \<Longrightarrow> parseExp r = Some (0, r)"
  by (erule stops_cases; simp add: parseFrac_def parseExp_def startsWith_def js_literal)+

lemma not_minus_showNat: "\<not> startsWith (showNat n @ r) (js ''-'')"
proof -
  have "isDigit (hd (showNat n))" by (rule showNat_digits [OF hd_in_set]) simp
  then show ?thesis by (cases "showNat n") (auto simp: startsWith_def js_literal isDigit_def)
qed

lemma showNum_int: "showNum m 0 = (if m < 0 then js ''-'' else []) @ showNat (nat \<bar>m\<bar>)"
  using showNat_not_Nil [of "nat \<bar>m\<bar>"] by (auto simp: showNum_def padStart_def Let_def Suc_le_eq simp del: showNat_not_Nil)

lemma parseNumber_showNum:
  assumes "stops r"
  shows "parseNumber (showNum m 0 @ r) = Some (JNum m 0, r)"
proof -
  let ?n = "nat \<bar>m\<bar>"
  have d: "takeWhile isDigit (showNat ?n @ r) = showNat ?n" "dropWhile isDigit (showNat ?n @ r) = r"
    using takeWhile_digits [OF _ assms, of "showNat ?n"] showNat_digits by blast+
  have z: "\<not> (hd (showNat ?n) = decDigit 0 \<and> length (showNat ?n) > 1)"
    using hd_showNat [of ?n] by (cases "?n = 0") (auto simp: showNat.simps [of 0])
  have neg: "startsWith (js ''-'' @ t) (js ''-'')" "drop 1 (js ''-'' @ t) = t" for t
    by (simp_all)
  show ?thesis
    using d z not_minus_showNat [of ?n r] neg
    by (cases "m < 0") (auto simp: parseNumber_def showNum_int Let_def parseFrac_stops [OF assms] parseExp_stops [OF assms] decVal_showNat)
qed


subsection \<open>Strings\<close>

lemma unescape_shortEscape: "shortEscape c = Some e \<Longrightarrow> unescape e = Some c \<and> e \<noteq> 0x75"
  by (auto simp: shortEscape_def unescape_def split: if_splits)

lemma shortEscape_None: "shortEscape c = None \<Longrightarrow> c \<noteq> quote \<and> c \<noteq> backslash"
  by (auto simp: shortEscape_def quote_def backslash_def split: if_splits)

lemma hexVal4_hex4: "hexVal4 (hex4 c) = Some (unat c)"
proof -
  let ?a = "unat c div 4096" and ?b = "unat c div 256 mod 16" and ?c = "unat c div 16 mod 16"
    and ?d = "unat c mod 16"
  have lt: "?a < 16" using unat_jschar_less [of c] by (simp add: less_mult_imp_div_less)
  have "?a * 16 + ?b = unat c div 256" "unat c div 256 * 16 + ?c = unat c div 16"
    "unat c div 16 * 16 + ?d = unat c"
    using div_mult_mod_eq [of "unat c div 256" 16] div_mult_mod_eq [of "unat c div 16" 16]
      div_mult_mod_eq [of "unat c" 16]
    by (simp_all add: div_mult2_eq [symmetric])
  then have "((?a * 16 + ?b) * 16 + ?c) * 16 + ?d = unat c" by simp
  with lt show ?thesis
    by (simp add: hexVal4_def hex4_def digitVal_hexDigit)
qed

lemma length_hex4 [simp]: "length (hex4 c) = 4"
  by (simp add: hex4_def)

lemma parseChars_plain:
  "c \<noteq> quote \<Longrightarrow> c \<noteq> backslash \<Longrightarrow> 0x20 \<le> unat c \<Longrightarrow>
     parseChars (c # t) = map_option (\<lambda>(x, r). (c # x, r)) (parseChars t)"
  by (simp add: parseChars.simps(2))

lemma quote_not_backslash [simp]: "backslash \<noteq> quote" "quote \<noteq> backslash"
  by (simp_all add: quote_def backslash_def)

lemma parseChars_quoteUnit:
  "parseChars (quoteUnit c @ t) = map_option (\<lambda>(x, r). (c # x, r)) (parseChars t)"
proof (cases "shortEscape c")
  case (Some e)
  then show ?thesis
    using unescape_shortEscape [OF Some] by (simp add: quoteUnit_def parseChars.simps(2))
next
  case None
  then have "c \<noteq> quote" "c \<noteq> backslash" using shortEscape_None by auto
  then show ?thesis
    using None by (auto simp: quoteUnit_def parseChars_plain hexVal4_hex4 parseChars.simps(2) [of backslash])
qed

lemma surrogate_plain:
  "isHigh c \<or> isLow c \<Longrightarrow> c \<noteq> quote \<and> c \<noteq> backslash \<and> 0x20 \<le> unat c"
  by (auto simp: isHigh_def isLow_def quote_def backslash_def)

lemma parseChars_quoteUnits: "parseChars (quoteUnits s @ quote # r) = Some (s, r)"
proof (induction s rule: quoteUnits.induct)
  case 1
  then show ?case by (simp add: parseChars.simps(2))
next
  case (2 c)
  then show ?case by (simp add: parseChars_quoteUnit parseChars.simps(2) [of quote])
next
  case (3 c d s)
  show ?case
  proof (cases "isHigh c \<and> isLow d")
    case True
    with 3(1) show ?thesis
      by (simp add: parseChars_plain surrogate_plain)
  next
    case False
    with 3(2) show ?thesis
      by (simp add: parseChars_quoteUnit del: quoteUnits.simps(2,3)) (auto simp del: quoteUnits.simps(2) simp: parseChars_quoteUnit)
  qed
qed

subsection \<open>Values\<close>

definition safeInteger :: "int \<Rightarrow> bool" where
  "safeInteger m \<longleftrightarrow> \<bar>m\<bar> < 2 ^ 53"

fun json_ok :: "json \<Rightarrow> bool" where
  "json_ok (JNum m k) \<longleftrightarrow> k = 0 \<and> safeInteger m"
| "json_ok (JArr xs) \<longleftrightarrow> list_all json_ok xs"
| "json_ok (JObj kvs) \<longleftrightarrow> map_ok kvs \<and> list_all (\<lambda>(k, v). json_ok v) kvs"
| "json_ok _ \<longleftrightarrow> True"

lemmas js_chars = js_literal quote_def

lemma showNum_head: "\<exists>c t. showNum m 0 = c # t \<and> (c = 0x2D \<or> isDigit c)"
proof -
  have "isDigit (hd (showNat (nat \<bar>m\<bar>)))" by (rule showNat_digits [OF hd_in_set]) simp
  then show ?thesis
    by (cases "showNat (nat \<bar>m\<bar>)") (auto simp: showNum_int js_literal)
qed

lemma stringify_head:
  assumes "json_ok j"
  shows "\<exists>c t. JSON_stringify j = c # t \<and> \<not> jsonSpace c \<and> c \<noteq> 0x5D \<and> c \<noteq> 0x7D"
proof (cases j)
  case (JNum m k)
  with assms show ?thesis
    using showNum_head [of m] by (auto simp: isDigit_def jsonSpace_def)
qed (auto simp: quoteString_def js_chars jsonSpace_def)

lemma skipWs_stringify: "json_ok j \<Longrightarrow> skipWs (JSON_stringify j @ r) = JSON_stringify j @ r"
  using stringify_head [of j] by auto

lemma skipWs_stops: "stops r \<Longrightarrow> skipWs r = r"
  by (erule stops_cases) (auto simp: jsonSpace_def)

lemma parseValue_num:
  assumes "stops r" "0 < n"
  shows "parseValue n (showNum m 0 @ r) = Some (JNum m 0, r)"
proof -
  obtain c t where c: "showNum m 0 = c # t" "c = 0x2D \<or> isDigit c"
    using showNum_head by blast
  have ne: "\<not> jsonSpace c" "c \<noteq> 0x5B" "c \<noteq> 0x7B" "c \<noteq> 0x22" "c \<noteq> 0x74" "c \<noteq> 0x66" "c \<noteq> 0x6E"
    using c(2) by (auto simp: isDigit_def jsonSpace_def)
  obtain k where "n = Suc k" using assms(2) gr0_conv_Suc by blast
  moreover have "parseNumber (c # t @ r) = Some (JNum m 0, r)"
    using parseNumber_showNum [OF assms(1), of m] c(1) by simp
  ultimately show ?thesis
    using c(1) ne by (simp add: quote_def of_char_def)
qed

lemma quote_plain: "\<not> jsonSpace quote" "quote \<noteq> 0x5B" "quote \<noteq> 0x7B" "quote \<noteq> 0x7D"
  by (simp_all add: quote_def jsonSpace_def)

lemma parseValue_str: "0 < n \<Longrightarrow> parseValue n (quoteString s @ r) = Some (JStr s, r)"
  by (cases n) (simp_all add: quoteString_def parseChars_quoteUnits quote_plain)

lemma parseValue_word:
  "0 < n \<Longrightarrow> parseValue n (js ''null'' @ r) = Some (JNull, r)"
  "0 < n \<Longrightarrow> parseValue n (js ''true'' @ r) = Some (JBool True, r)"
  "0 < n \<Longrightarrow> parseValue n (js ''false'' @ r) = Some (JBool False, r)"
  by (cases n; simp add: js_literal jsonSpace_def quote_def parseWord_def startsWith_def)+

lemma parseValue_empty:
  "0 < n \<Longrightarrow> parseValue n (0x5B # 0x5D # r) = Some (JArr [], r)"
  "0 < n \<Longrightarrow> parseValue n (0x7B # 0x7D # r) = Some (JObj [], r)"
  by (cases n; simp add: js_literal jsonSpace_def startsWith_def)+

definition parses :: "json \<Rightarrow> bool" where
  "parses j \<longleftrightarrow> (\<forall>n r. stops r \<longrightarrow> 2 * length (JSON_stringify j @ r) + 1 \<le> n \<longrightarrow>
     parseValue n (JSON_stringify j @ r) = Some (j, r))"

lemma parsesD: "parses j \<Longrightarrow> stops r \<Longrightarrow> 2 * length (JSON_stringify j @ r) + 1 \<le> n \<Longrightarrow>
    parseValue n (JSON_stringify j @ r) = Some (j, r)"
  unfolding parses_def by blast

lemma stops_Cons [simp]: "stops (c # r) \<longleftrightarrow> c \<in> {0x2C, 0x5D, 0x7D}"
  and stops_Nil [simp]: "stops []"
  by (simp_all add: stops_def)

lemma parseElems_stringify:
  "xs \<noteq> [] \<Longrightarrow> \<forall>x\<in>set xs. parses x \<Longrightarrow>
   2 * length (intercalate (js '','') (map JSON_stringify xs) @ 0x5D # r) + 2 \<le> n \<Longrightarrow>
   parseElems n (intercalate (js '','') (map JSON_stringify xs) @ 0x5D # r) = Some (xs, r)"
proof (induction xs arbitrary: n rule: list_nonempty_induct)
  case (single x)
  then obtain k where k: "n = Suc k" by (cases n) auto
  have "parseValue k (JSON_stringify x @ 0x5D # r) = Some (x, 0x5D # r)"
    using single k by (intro parsesD) auto
  then show ?case by (simp add: k jsonSpace_def startsWith_def js_literal)
next
  case (cons x xs)
  then obtain k where k: "n = Suc k" by (cases n) auto
  obtain y ys where xs: "xs = y # ys" using cons.hyps by (cases xs) auto
  let ?rest = "intercalate (js '','') (map JSON_stringify xs) @ 0x5D # r"
  have "parseValue k (JSON_stringify x @ 0x2C # ?rest) = Some (x, 0x2C # ?rest)"
    using cons.prems k xs by (intro parsesD) (auto simp: js_literal)
  moreover have "parseElems k ?rest = Some (xs, r)"
    using cons.prems k xs by (intro cons.IH) (auto simp: js_literal)
  moreover have "intercalate (js '','') (map JSON_stringify (x # xs)) @ 0x5D # r
      = JSON_stringify x @ 0x2C # ?rest"
    by (simp add: xs js_literal)
  ultimately show ?case
    by (simp add: k jsonSpace_def startsWith_def js_literal)
qed

abbreviation showMember :: "jsstring \<times> json \<Rightarrow> jsstring" where
  "showMember \<equiv> \<lambda>(k, v). quoteString k @ js '':'' @ JSON_stringify v"

lemma parseMembers_one:
  assumes "parses v" "stops r" "2 * length (showMember (k, v) @ r) + 2 \<le> Suc n"
  shows "parseMembers (Suc n) (showMember (k, v) @ r) =
    (if startsWith r (js ''}'') then Some ([(k, v)], drop 1 r)
     else if startsWith r (js '','') then map_option (\<lambda>(kvs, q). ((k, v) # kvs, q)) (parseMembers n (drop 1 r))
     else None)"
proof -
  have "parseValue n (JSON_stringify v @ r) = Some (v, r)"
    using assms by (intro parsesD) (auto simp: quoteString_def)
  then show ?thesis
    using parseChars_quoteUnits [of k "0x3A # JSON_stringify v @ r"] skipWs_stops [OF assms(2)]
    by (simp add: quoteString_def js_literal jsonSpace_def startsWith_def quote_def Let_def)
qed

lemma parseMembers_stringify:
  "kvs \<noteq> [] \<Longrightarrow> \<forall>(k, v)\<in>set kvs. parses v \<Longrightarrow>
   2 * length (intercalate (js '','') (map showMember kvs) @ 0x7D # r) + 2 \<le> n \<Longrightarrow>
   parseMembers n (intercalate (js '','') (map showMember kvs) @ 0x7D # r) = Some (kvs, r)"
proof (induction kvs arbitrary: n rule: list_nonempty_induct)
  case (single kv)
  then obtain k v m where "kv = (k, v)" "n = Suc m" by (cases kv; cases n) auto
  with single have p: "parses v" "2 * length (showMember (k, v) @ 0x7D # r) + 2 \<le> Suc m"
    by simp_all
  have "parseMembers (Suc m) (showMember (k, v) @ 0x7D # r) = Some ([(k, v)], r)"
    using p by (subst parseMembers_one) (simp_all add: startsWith_def js_literal)
  then show ?case by (simp add: \<open>kv = (k, v)\<close> \<open>n = Suc m\<close> del: parseMembers.simps)
next
  case (cons kv kvs)
  then obtain k v m where kv: "kv = (k, v)" "n = Suc m" by (cases kv; cases n) auto
  obtain y ys where xs: "kvs = y # ys" using cons.hyps by (cases kvs) auto
  let ?rest = "intercalate (js '','') (map showMember kvs) @ 0x7D # r"
  have e: "intercalate (js '','') (map showMember ((k, v) # kvs)) @ 0x7D # r = showMember (k, v) @ 0x2C # ?rest"
    by (simp add: xs js_literal)
  have "parseMembers m ?rest = Some (kvs, r)"
    using cons.prems kv xs by (intro cons.IH) (auto simp: js_literal quoteString_def)
  moreover have "parses v" "2 * length (showMember (k, v) @ 0x2C # ?rest) + 2 \<le> Suc m"
    using cons.prems kv e by auto
  ultimately show ?case
    unfolding kv e by (subst parseMembers_one) (simp_all add: startsWith_def js_literal)
qed

lemma update_absent: "k \<notin> fst ` set m \<Longrightarrow> AList.update k v m = m @ [(k, v)]"
  by (induction m) auto

lemma mkObj_distinct: "map_ok kvs \<Longrightarrow> mkObj kvs = JObj kvs"
proof -
  have "map_ok (acc @ kvs) \<Longrightarrow> fold (\<lambda>(k, v) m. map_set k v m) kvs acc = acc @ kvs" for acc
  proof (induction kvs arbitrary: acc)
    case (Cons kv kvs)
    then have "map_set (fst kv) (snd kv) acc = acc @ [kv]"
      by (auto simp: map_set_def map_ok_def update_absent)
    with Cons.IH [of "acc @ [kv]"] Cons.prems show ?case by (simp add: case_prod_beta)
  qed simp
  from this [of "[]"] show "map_ok kvs \<Longrightarrow> mkObj kvs = JObj kvs" by (simp add: mkObj_def)
qed

lemma parses_json_ok: "json_ok j \<Longrightarrow> parses j"
proof (induction j)
  case (JArr xs)
  then have ok: "\<forall>x\<in>set xs. parses x" by (auto simp: list_all_iff)
  show ?case
  proof (cases xs)
    case Nil
    then show ?thesis by (simp add: parses_def js_literal parseValue_empty)
  next
    case (Cons y ys)
    then obtain c t where c: "JSON_stringify y = c # t" "\<not> jsonSpace c" "c \<noteq> 0x5D"
      using JArr.prems stringify_head [of y] by auto
    have h: "\<exists>u. intercalate (js '','') (map JSON_stringify xs) = c # u"
      using Cons c(1) by (cases ys) auto
    show ?thesis
      unfolding parses_def
    proof (intro allI impI)
      fix n r
      assume n: "2 * length (JSON_stringify (JArr xs) @ r) + 1 \<le> n"
      then obtain m where m: "n = Suc m" by (cases n) auto
      have "parseElems m (intercalate (js '','') (map JSON_stringify xs) @ 0x5D # r) = Some (xs, r)"
        using n m Cons ok by (intro parseElems_stringify) auto
      then show "parseValue n (JSON_stringify (JArr xs) @ r) = Some (JArr xs, r)"
        using h c by (auto simp: m js_literal jsonSpace_def startsWith_def)
    qed
  qed
next
  case (JObj kvs)
  then have ok: "\<forall>(k, v)\<in>set kvs. parses v" by (fastforce simp: list_all_iff)
  show ?case
  proof (cases kvs)
    case Nil
    then show ?thesis by (simp add: parses_def js_literal parseValue_empty)
  next
    case (Cons y ys)
    have h: "\<exists>u. intercalate (js '','') (map showMember kvs) = quote # u"
      using Cons by (cases ys; cases y) (auto simp: quoteString_def)
    show ?thesis
      unfolding parses_def
    proof (intro allI impI)
      fix n r
      assume n: "2 * length (JSON_stringify (JObj kvs) @ r) + 1 \<le> n"
      then obtain m where m: "n = Suc m" by (cases n) auto
      have "parseMembers m (intercalate (js '','') (map showMember kvs) @ 0x7D # r) = Some (kvs, r)"
        using n m Cons ok by (intro parseMembers_stringify) auto
      then show "parseValue n (JSON_stringify (JObj kvs) @ r) = Some (JObj kvs, r)"
        using h JObj.prems mkObj_distinct [of kvs] quote_plain
        by (auto simp: m js_literal jsonSpace_def startsWith_def)
    qed
  qed
qed (auto simp: parses_def parseValue_num parseValue_str parseValue_word)

lemma JSON_parse_stringify: "json_ok j \<Longrightarrow> JSON_parse (JSON_stringify j) = Some j"
  using parsesD [OF parses_json_ok, of j "[]" "2 * length (JSON_stringify j) + 2"]
  by (simp add: JSON_parse_def)

interpretation json_text: codec JSON_stringify JSON_parse json_ok
  by unfold_locales (rule JSON_parse_stringify)


subsection \<open>The fuel is enough\<close>

lemma length_skipWs: "length (skipWs s) \<le> length s"
  by (rule length_dropWhile_le)

lemma skipWs_Cons: "skipWs s = c # t \<Longrightarrow> length t < length s"
  using length_skipWs [of s] by simp

lemma parseChars_shorter: "parseChars s = Some (x, r) \<Longrightarrow> length r < length s"
proof (induction s arbitrary: x rule: parseChars.induct)
  case (2 c s)
  then show ?case
    by (fastforce simp: parseChars.simps(2) [of c s] split: if_splits option.splits list.splits)
qed simp

lemma parseFrac_shorter: "parseFrac s = Some (x, r) \<Longrightarrow> length r \<le> length s"
  using length_dropWhile_le [of isDigit "drop 1 s"]
  by (auto simp: parseFrac_def Let_def split: if_splits)

lemma parseExp_shorter: "parseExp s = Some (x, r) \<Longrightarrow> length r \<le> length s"
  using length_dropWhile_le [of isDigit "drop 1 s"] length_dropWhile_le [of isDigit "drop 1 (drop 1 s)"]
  by (auto simp: parseExp_def Let_def split: if_splits)

lemma parseNumber_shorter: "parseNumber s = Some (x, r) \<Longrightarrow> length r < length s"
proof -
  assume a: "parseNumber s = Some (x, r)"
  let ?t = "if startsWith s (js ''-'') then drop 1 s else s"
  from a obtain fs u e where
    ds: "takeWhile isDigit ?t \<noteq> []" and f: "parseFrac (dropWhile isDigit ?t) = Some (fs, u)"
    and e: "parseExp u = Some (e, r)"
    by (auto simp: parseNumber_def Let_def split: if_splits option.splits)
  have "length (takeWhile isDigit ?t) + length (dropWhile isDigit ?t) = length ?t"
    by (metis length_append takeWhile_dropWhile_id)
  with ds have "length (dropWhile isDigit ?t) < length ?t"
    by (metis add_less_same_cancel2 length_greater_0_conv less_add_same_cancel2)
  with parseFrac_shorter [OF f] parseExp_shorter [OF e] show ?thesis
    by (auto split: if_splits)
qed

lemma parseWord_shorter: "parseWord w j s = Some (x, r) \<Longrightarrow> w \<noteq> [] \<Longrightarrow> length r < length s"
  by (cases s) (auto simp: parseWord_def startsWith_def split: if_splits dest: sym)

lemma parse_shorter:
  "parseValue n s = Some (v, r) \<Longrightarrow> length r < length s"
  "parseElems n s = Some (vs, r) \<Longrightarrow> length r < length s"
  "parseMembers n s = Some (kvs, r) \<Longrightarrow> length r < length s"
proof (induction n s and n s and n s arbitrary: v r and vs r and kvs r
    rule: parseValue_parseElems_parseMembers.induct)
  case (2 n s)
  show ?case
  proof (cases "skipWs s")
    case Nil
    with "2.prems" show ?thesis by simp
  next
    case (Cons c t)
    then have "length t < length s" by (rule skipWs_Cons)
    moreover have "length (drop 1 (skipWs t)) \<le> length t"
      using length_skipWs [of t] by simp
    moreover have "length r < length (c # t)"
      if "length r \<le> length t" using that by simp
    ultimately show ?thesis
      using "2.prems" "2.IH" Cons length_skipWs [of s]
      by (auto simp: split: if_splits dest: parseChars_shorter parseNumber_shorter parseWord_shorter)
        (fastforce dest: parseChars_shorter parseNumber_shorter parseWord_shorter)+
  qed
next
  case (4 n s)
  from "4.prems" obtain v1 r1 where v: "parseValue n s = Some (v1, r1)"
    by (auto split: option.splits)
  with "4.IH"(1) have "length r1 < length s" by blast
  moreover have "length r \<le> length (skipWs r1)"
    using "4.prems" "4.IH"(2) [OF v refl refl] v
    by (fastforce simp: Let_def split: if_splits)
  ultimately show ?case using length_skipWs [of r1] by linarith
next
  case (6 n s)
  from "6.prems" obtain t k r1 where t: "skipWs s = quote # t" and k: "parseChars t = Some (k, r1)"
    and c: "startsWith (skipWs r1) (js '':'')"
    by (auto split: option.splits list.splits if_splits)
  from "6.prems" t k c obtain v1 r2 where v: "parseValue n (drop 1 (skipWs r1)) = Some (v1, r2)"
    by (auto split: option.splits)
  have "length r2 < length (drop 1 (skipWs r1))"
    using "6.IH"(1) [OF t _ k refl] c v by simp
  moreover have "length r \<le> length (skipWs r2)"
    using "6.prems" "6.IH"(2) [OF t _ k refl _ v refl refl] t k c v
    by (fastforce simp: Let_def split: if_splits)
  ultimately show ?case
    using length_skipWs [of r1] length_skipWs [of r2] parseChars_shorter [OF k] skipWs_Cons [OF t]
    by simp
qed simp_all

definition enough :: "nat \<Rightarrow> nat \<Rightarrow> jsstring \<Rightarrow> bool" where
  "enough k n s \<longleftrightarrow> 2 * length s + k \<le> n"

lemma fuel_irrelevant:
  "enough 1 n s \<Longrightarrow> enough 1 m s \<Longrightarrow> parseValue n s = parseValue m s"
  "enough 2 n s \<Longrightarrow> enough 2 m s \<Longrightarrow> parseElems n s = parseElems m s"
  "enough 2 n s \<Longrightarrow> enough 2 m s \<Longrightarrow> parseMembers n s = parseMembers m s"
proof (induction n s and n s and n s arbitrary: m and m and m
    rule: parseValue_parseElems_parseMembers.induct)
  case (2 n s)
  from "2.prems" obtain m' where m: "m = Suc m'" by (cases m) (auto simp: enough_def)
  show ?case
  proof (cases "skipWs s")
    case (Cons c t)
    then have e: "enough 2 n t" "enough 2 m' t"
      using skipWs_Cons [OF Cons] "2.prems" m by (auto simp: enough_def)
    have "c = of_char CHR ''['' \<Longrightarrow> \<not> startsWith (skipWs t) (js '']'') \<Longrightarrow> parseElems n t = parseElems m' t"
      and "c = of_char CHR ''{'' \<Longrightarrow> \<not> startsWith (skipWs t) (js ''}'') \<Longrightarrow> parseMembers n t = parseMembers m' t"
      using "2.IH" [OF Cons] e of_char16_eq_iff [of "CHR ''{''" "CHR ''[''"] by blast+
    with Cons show ?thesis by (auto simp: m)
  next
    case Nil
    then show ?thesis by (simp add: m del: dropWhile_eq_Nil_conv)
  qed
next
  case (4 n s)
  from "4.prems" obtain m' where m: "m = Suc m'" by (cases m) (auto simp: enough_def)
  have v: "parseValue n s = parseValue m' s"
    by (rule "4.IH"(1)) (use "4.prems" m in \<open>simp_all add: enough_def\<close>)
  show ?case
  proof (cases "parseValue n s")
    case (Some p)
    then obtain v1 r1 where p: "parseValue n s = Some (v1, r1)" by (cases p) auto
    have "length (drop 1 (skipWs r1)) < length s"
      using parse_shorter(1) [OF p] length_skipWs [of r1] by simp
    then have "enough 2 n (drop 1 (skipWs r1))" "enough 2 m' (drop 1 (skipWs r1))"
      using "4.prems" m by (auto simp: enough_def)
    with "4.IH"(2) [OF p refl refl, of m'] show ?thesis
      using p v by (auto simp: m Let_def)
  qed (use v in \<open>simp add: m\<close>)
next
  case (6 n s)
  from "6.prems" obtain m' where m: "m = Suc m'" by (cases m) (auto simp: enough_def)
  show ?case
  proof (cases "\<exists>t k r1. skipWs s = quote # t \<and> parseChars t = Some (k, r1) \<and> startsWith (skipWs r1) (js '':'')")
    case False
    then show ?thesis by (auto simp: m split: list.splits option.splits)
  next
    case True
    then obtain t k r1 where t: "skipWs s = quote # t" and k: "parseChars t = Some (k, r1)"
      and c: "startsWith (skipWs r1) (js '':'')" by blast
    let ?u = "drop 1 (skipWs r1)"
    have u: "length ?u + 1 < length s"
      using parseChars_shorter [OF k] length_skipWs [of r1] skipWs_Cons [OF t] c
      by (cases "skipWs r1") (auto simp: startsWith_def)
    then have e: "enough 1 n ?u" "enough 1 m' ?u"
      using "6.prems" m by (auto simp: enough_def)
    have v: "parseValue n ?u = parseValue m' ?u"
      using "6.IH"(1) [OF t _ k refl, of m'] c e by blast
    show ?thesis
    proof (cases "parseValue n ?u")
      case (Some p)
      then obtain v1 r2 where p: "parseValue n ?u = Some (v1, r2)" by (cases p) auto
      have "length (drop 1 (skipWs r2)) < length s"
        using parse_shorter(1) [OF p] u length_skipWs [of r2] by simp
      then have "enough 2 n (drop 1 (skipWs r2))" "enough 2 m' (drop 1 (skipWs r2))"
        using "6.prems" m by (auto simp: enough_def)
      with "6.IH"(2) [OF t _ k refl _ p refl refl, of m'] show ?thesis
        using p trans [OF v [symmetric] p] t k c by (auto simp: m Let_def)
    qed (use v t k c in \<open>simp add: m\<close>)
  qed
qed (simp_all add: enough_def)

lemma parse_fuel_enough:
  "2 * length s + 2 \<le> n \<Longrightarrow> parseValue n s = parseValue (2 * length s + 2) s"
  by (rule fuel_irrelevant(1)) (simp_all add: enough_def)

lemma map_get_objLit_Nil: "objLit [] = JObj []"
  and objLit_Some: "objLit ((k, Some v) # kvs) = (case objLit kvs of JObj r \<Rightarrow> JObj ((js k, v) # r) | j \<Rightarrow> j)"
  and objLit_None: "objLit ((k, None) # kvs) = objLit kvs"
  by (simp_all add: objLit_def List.map_filter_def)

lemmas objLit_simps [simp] = map_get_objLit_Nil objLit_Some objLit_None

subsection \<open>JSON text as UTF-8\<close>

text \<open>
  \<open>JSON.stringify\<close> escapes lone surrogates, so its output is always well formed and survives
  UTF-8: a body that carries JSON text gives the value back.
\<close>

lemma utf16_ok_Cons: "\<not> isHigh c \<Longrightarrow> utf16_ok (c # s) \<longleftrightarrow> \<not> isLow c \<and> utf16_ok s"
  by (cases s) auto

lemma utf16_ok_append: "utf16_ok s \<Longrightarrow> utf16_ok t \<Longrightarrow> utf16_ok (s @ t)"
  by (induction s rule: utf16_ok.induct) (auto simp: utf16_ok_Cons split: if_splits)

lemma utf16_ok_js [simp]: "utf16_ok (js s)" if "list_all (\<lambda>c. of_char c < (128 :: nat)) s"
  using that by (intro utf16_ok_ascii) (auto simp: ascii_def js_def unat_of_char16 list_all_iff)

lemma surrogates_disjoint: "isHigh c \<Longrightarrow> \<not> isLow c"
  by (auto simp: isHigh_def isLow_def)

lemma ascii_hex4: "ascii (hex4 c)"
proof -
  have "unat (hexDigit n) < 128" if "n < 16" for n
    using that by (simp add: unat_hexDigit)
  then show ?thesis using unat_jschar_less [of c] by (simp add: hex4_def less_mult_imp_div_less)
qed

lemma ascii_showNat: "ascii (showNat n)"
  by (force simp: ascii_def isDigit_def dest: showNat_digits)

lemma ascii_shortEscape: "shortEscape c = Some e \<Longrightarrow> unat e < 128"
  by (auto simp: shortEscape_def split: if_splits)

lemma utf16_ok_quoteUnit: "utf16_ok (quoteUnit c)"
proof (cases "shortEscape c")
  case None
  then show ?thesis
    using ascii_hex4 [of c]
    by (auto simp: quoteUnit_def backslash_def intro!: utf16_ok_ascii) (auto simp: isHigh_def isLow_def)
next
  case (Some e)
  then show ?thesis
    using ascii_shortEscape [OF Some]
    by (intro utf16_ok_ascii) (simp add: quoteUnit_def backslash_def)
qed

lemma utf16_ok_quoteUnits: "utf16_ok (quoteUnits s)"
  by (induction s rule: quoteUnits.induct)
    (auto simp: utf16_ok_quoteUnit utf16_ok_append)

lemma utf16_ok_quoteString: "utf16_ok (quoteString s)"
  unfolding quoteString_def
  by (intro utf16_ok_append utf16_ok_quoteUnits) (simp_all add: quote_def isHigh_def isLow_def)

lemma utf16_ok_intercalate:
  "utf16_ok sep \<Longrightarrow> \<forall>s\<in>set ss. utf16_ok s \<Longrightarrow> utf16_ok (intercalate sep ss)"
  by (induction sep ss rule: intercalate.induct) (simp_all add: utf16_ok_append)

lemma utf16_ok_stringify: "json_ok j \<Longrightarrow> utf16_ok (JSON_stringify j)"
proof (induction j rule: JSON_stringify.induct)
  case (3 m k)
  then show ?case by (simp add: showNum_int utf16_ok_append utf16_ok_ascii ascii_showNat of_char_def)
next
  case (5 xs)
  then show ?case
    by (auto intro!: utf16_ok_append utf16_ok_intercalate simp: of_char_def list_all_iff)
next
  case (6 kvs)
  then show ?case
    by (fastforce intro!: utf16_ok_append utf16_ok_intercalate simp: of_char_def list_all_iff utf16_ok_quoteString)
qed (simp_all add: of_char_def utf16_ok_quoteString)

lemma stringify_first: "json_ok j \<Longrightarrow> \<exists>c t. JSON_stringify j = c # t \<and> c \<noteq> 0xFEFF"
proof (cases j)
  case (JNum m k)
  assume "json_ok j"
  with JNum show ?thesis using showNum_head [of m] by (auto simp: isDigit_def)
qed (auto simp: quoteString_def js_chars)

lemma text_ok_stringify: "json_ok j \<Longrightarrow> text_ok (JSON_stringify j)"
  using stringify_first [of j] utf16_ok_stringify [of j] by (auto simp: text_ok_def)

interpretation json_utf8: codec_chain JSON_stringify JSON_parse json_ok
    utf8_encode "\<lambda>bs. Some (utf8_decode bs)" text_ok
  by unfold_locales (rule text_ok_stringify)

lemma JSON_parse_utf8: "json_ok j \<Longrightarrow> JSON_parse (utf8_decode (utf8_encode (JSON_stringify j))) = Some j"
  using json_utf8.chain_dec_enc by simp

text \<open>
  JSON text is a faithful carrier: parsing what \<open>JSON.stringify\<close> printed gives the value
  back, for every value with distinct keys whose numbers are integers below the safe bound.
\<close>

theorem json_roundtrip:
  assumes "json_ok j"
  shows "JSON_parse (JSON_stringify j) = Some j"
  using assms by (rule json_text.dec_enc)

end
