(* ===== verification/Platform.thy ===== *)
theory Platform
  imports Json
begin

text \<open>
  What the worker and the Durable Object get from their platform: HTTP messages, the bindings of
  the environment (headfwd-proxy/src/types.ts, \<open>Env\<close>), and the two services that are not code of
  this repository and therefore parameters of the model:
  \<^item> \<open>webcrypto\<close>: the \<open>crypto.subtle\<close> calls of index.ts; \<open>webcrypto_ok\<close> states the documented
    facts the protocol relies on (digest length, key import and export, symmetry of X25519);
  \<^item> \<open>kv_namespace\<close>: the Workers KV binding \<open>REGISTRY\<close>; \<open>kv_consistent\<close> states its documented
    read, write, delete and expiration behaviour as seen from one location, \<open>kv_available\<close>
    that no call is rejected.
\<close>

subsection \<open>HTTP\<close>

text \<open>
  A request carries its parsed URL (\<open>new URL(request.url)\<close>). Header names are lower case, as the
  \<open>Headers\<close> object stores them.
\<close>

record url =
  href :: jsstring
  hostname :: jsstring
  pathname :: jsstring
  searchParams :: "(jsstring \<times> jsstring) list"

record http_request =
  req_method :: jsstring
  req_url :: url
  req_headers :: "(jsstring \<times> jsstring) list"
  req_body :: "bytes option"

datatype body = NullBody | TextBody jsstring | BytesBody bytes

record http_response =
  resp_status :: int
  resp_headers :: "(jsstring \<times> jsstring) list"
  resp_body :: body
  resp_webSocket :: "nat option"

definition headersGet :: "(jsstring \<times> jsstring) list \<Rightarrow> string \<Rightarrow> jsstring option" where
  "headersGet hs name = map_get hs (toLowerCase (js name))"

definition requestBytes :: "http_request \<Rightarrow> bytes" where
  "requestBytes req = (case req_body req of None \<Rightarrow> [] | Some b \<Rightarrow> b)"

text \<open>\<open>await request.json()\<close>; \<open>None\<close> is the rejection.\<close>

definition requestJson :: "http_request \<Rightarrow> json option" where
  "requestJson req = JSON_parse (utf8_decode (requestBytes req))"

definition jsonHeaders :: "(jsstring \<times> jsstring) list" where
  "jsonHeaders = [(js ''Content-Type'', js ''application/json'')]"

definition jsonResponse :: "int \<Rightarrow> json \<Rightarrow> http_response" where
  "jsonResponse st j =
     \<lparr>resp_status = st, resp_headers = jsonHeaders, resp_body = TextBody (JSON_stringify j),
      resp_webSocket = None\<rparr>"

definition textResponse :: "int \<Rightarrow> string \<Rightarrow> http_response" where
  "textResponse st s =
     \<lparr>resp_status = st, resp_headers = [], resp_body = TextBody (js s), resp_webSocket = None\<rparr>"

subsection \<open>Web Crypto\<close>

text \<open>
  Keys are their raw bytes. Rejected promises are \<open>None\<close>. \<open>deriveBits priv pub\<close> is the X25519
  agreement; \<open>x25519Public priv\<close> is the public key of a generated pair.
\<close>

record webcrypto =
  sha256 :: "bytes \<Rightarrow> bytes"
  x25519Public :: "bytes \<Rightarrow> bytes"
  exportPrivateJwk :: "bytes \<Rightarrow> json"
  importPrivateJwk :: "json option \<Rightarrow> bytes option"
  importPublicRaw :: "bytes \<Rightarrow> bytes option"
  deriveBits :: "bytes \<Rightarrow> bytes \<Rightarrow> bytes option"
  hmacSha256 :: "bytes \<Rightarrow> bytes \<Rightarrow> bytes"

definition webcrypto_ok :: "webcrypto \<Rightarrow> bool" where
  "webcrypto_ok cr \<longleftrightarrow>
     (\<forall>m. length (sha256 cr m) = 32) \<and>
     (\<forall>k m. length (hmacSha256 cr k m) = 32) \<and>
     (\<forall>k. length (x25519Public cr k) = 32) \<and>
     (\<forall>k. json_ok (exportPrivateJwk cr k)) \<and>
     (\<forall>k. importPrivateJwk cr (Some (exportPrivateJwk cr k)) = Some k) \<and>
     (\<forall>b. length b = 32 \<longrightarrow> importPublicRaw cr b = Some b) \<and>
     (\<forall>a b. deriveBits cr a (x25519Public cr b) = deriveBits cr b (x25519Public cr a))"

lemma webcrypto_okD:
  assumes "webcrypto_ok cr"
  shows "length (sha256 cr m) = 32" "length (hmacSha256 cr k m) = 32" "length (x25519Public cr k) = 32"
    "json_ok (exportPrivateJwk cr k)" "importPrivateJwk cr (Some (exportPrivateJwk cr k)) = Some k"
    "length b = 32 \<Longrightarrow> importPublicRaw cr b = Some b"
    "deriveBits cr k (x25519Public cr k') = deriveBits cr k' (x25519Public cr k)"
  using assms unfolding webcrypto_ok_def by blast+

subsection \<open>Workers KV\<close>

text \<open>
  Times are milliseconds, the \<open>expirationTtl\<close> option of \<open>put\<close> is in seconds. \<open>kvGet\<close> gives
  \<open>Some None\<close> for \<open>null\<close>; an outer \<open>None\<close> is a rejected promise, in all three calls.
\<close>

record 's kv_namespace =
  kvGet :: "'s \<Rightarrow> int \<Rightarrow> jsstring \<Rightarrow> jsstring option option"
  kvPut :: "'s \<Rightarrow> int \<Rightarrow> jsstring \<Rightarrow> jsstring \<Rightarrow> int \<Rightarrow> 's option"
  kvDelete :: "'s \<Rightarrow> int \<Rightarrow> jsstring \<Rightarrow> 's option"

definition kv_consistent :: "'s kv_namespace \<Rightarrow> bool" where
  "kv_consistent kv \<longleftrightarrow>
     (\<forall>s t k v ttl s'. kvPut kv s t k v ttl = Some s' \<longrightarrow>
        (\<forall>t'. t' < t + 1000 * ttl \<longrightarrow> kvGet kv s' t' k = Some (Some v)) \<and>
        (\<forall>t'. t + 1000 * ttl \<le> t' \<longrightarrow> kvGet kv s' t' k = Some None) \<and>
        (\<forall>t' k'. k' \<noteq> k \<longrightarrow> kvGet kv s' t' k' = kvGet kv s t' k')) \<and>
     (\<forall>s t k s'. kvDelete kv s t k = Some s' \<longrightarrow>
        (\<forall>t'. kvGet kv s' t' k = Some None) \<and>
        (\<forall>t' k'. k' \<noteq> k \<longrightarrow> kvGet kv s' t' k' = kvGet kv s t' k'))"

lemma kv_put_get:
  assumes "kv_consistent kv" "kvPut kv s t k v ttl = Some s'"
  shows "t' < t + 1000 * ttl \<Longrightarrow> kvGet kv s' t' k = Some (Some v)"
    "t + 1000 * ttl \<le> t' \<Longrightarrow> kvGet kv s' t' k = Some None"
    "k' \<noteq> k \<Longrightarrow> kvGet kv s' t' k' = kvGet kv s t' k'"
  using assms unfolding kv_consistent_def by blast+

lemma kv_delete_get:
  assumes "kv_consistent kv" "kvDelete kv s t k = Some s'"
  shows "kvGet kv s' t' k = Some None" "k' \<noteq> k \<Longrightarrow> kvGet kv s' t' k' = kvGet kv s t' k'"
  using assms unfolding kv_consistent_def by blast+

text \<open>
  A weaker fact that also holds while a write is still propagating: a read only ever gives a value
  that was written under its key.
\<close>

definition kv_integrity :: "'s kv_namespace \<Rightarrow> bool" where
  "kv_integrity kv \<longleftrightarrow>
     (\<forall>s t k v ttl s' t' k' x. kvPut kv s t k v ttl = Some s' \<and> kvGet kv s' t' k' = Some (Some x) \<longrightarrow>
        k' = k \<and> x = v \<or> (\<exists>t''. kvGet kv s t'' k' = Some (Some x))) \<and>
     (\<forall>s t k s' t' k' x. kvDelete kv s t k = Some s' \<and> kvGet kv s' t' k' = Some (Some x) \<longrightarrow>
        (\<exists>t''. kvGet kv s t'' k' = Some (Some x)))"

lemma kv_integrity_put:
  "kv_integrity kv \<Longrightarrow> kvPut kv s t k v ttl = Some s' \<Longrightarrow> kvGet kv s' t' k' = Some (Some x) \<Longrightarrow>
     k' = k \<and> x = v \<or> (\<exists>t''. kvGet kv s t'' k' = Some (Some x))"
  and kv_integrity_delete:
  "kv_integrity kv \<Longrightarrow> kvDelete kv s t k = Some s' \<Longrightarrow> kvGet kv s' t' k' = Some (Some x) \<Longrightarrow>
     \<exists>t''. kvGet kv s t'' k' = Some (Some x)"
  unfolding kv_integrity_def by blast+

lemma kv_consistent_integrity:
  assumes "kv_consistent kv"
  shows "kv_integrity kv"
  unfolding kv_integrity_def
proof (intro conjI allI impI)
  fix s t k v ttl s' t' k' x
  assume "kvPut kv s t k v ttl = Some s' \<and> kvGet kv s' t' k' = Some (Some x)"
  then have p: "kvPut kv s t k v ttl = Some s'" and g: "kvGet kv s' t' k' = Some (Some x)" by auto
  show "k' = k \<and> x = v \<or> (\<exists>t''. kvGet kv s t'' k' = Some (Some x))"
    using kv_put_get [OF assms p] g by (cases "k' = k"; cases "t' < t + 1000 * ttl") auto
next
  fix s t k s' t' k' x
  assume "kvDelete kv s t k = Some s' \<and> kvGet kv s' t' k' = Some (Some x)"
  then show "\<exists>t''. kvGet kv s t'' k' = Some (Some x)"
    using kv_delete_get [OF assms] by (metis option.inject option.simps(3))
qed

definition kv_available :: "'s kv_namespace \<Rightarrow> bool" where
  "kv_available kv \<longleftrightarrow>
     (\<forall>s t k v ttl. kvPut kv s t k v ttl \<noteq> None) \<and> (\<forall>s t k. kvDelete kv s t k \<noteq> None)"

lemma kv_availableD: "kv_available kv \<Longrightarrow> kvPut kv s t k v ttl \<noteq> None" "kv_available kv \<Longrightarrow> kvDelete kv s t k \<noteq> None"
  unfolding kv_available_def by blast+

subsection \<open>Environment and inputs\<close>

record 's env =
  REGISTRY :: "'s kv_namespace option"
  TUNNEL_SECRET :: jsstring

text \<open>
  What one invocation draws from outside: the times of its successive \<open>Date.now()\<close> calls and KV
  operations (a KV operation and the \<open>Date.now()\<close> call among its arguments share one), the bytes
  \<open>crypto.getRandomValues\<close> fills a buffer with, and the private key \<open>crypto.subtle.generateKey\<close>
  returns.
\<close>

record inputs =
  now :: "nat \<Rightarrow> int"
  rnd :: "nat \<Rightarrow> byte"
  ephemeral :: bytes

end
