(* ===== verification/Identity.thy ===== *)
theory Identity
  imports Platform
begin

text \<open>
  Fingerprints, secrets and comparison (headfwd-proxy/src/index.ts): \<open>computeFingerprint\<close>,
  \<open>extractFingerprint\<close> (the same function is repeated in tunnel-do.ts), \<open>generateSecret\<close>,
  \<open>generateNonce\<close> and \<open>timingSafeEqual\<close>. Lemmas: a computed fingerprint is 32 lower-case
  hexadecimal digits, \<open>extractFingerprint\<close> accepts exactly the host names
  \<open><32 hex digits>.headfwd.net\<close> in any letter case, and \<open>timingSafeEqual\<close> is equality.
\<close>

subsection \<open>Definitions\<close>

definition computeFingerprint :: "webcrypto \<Rightarrow> jsstring \<Rightarrow> jsstring" where
  "computeFingerprint cr pubkey =
     (let hashArray = sha256 cr (utf8_encode pubkey);
          fullHex = concat (map byteHex hashArray)
      in take 32 fullHex)"

text \<open>The regular expression \<open>/^([a-f0-9]{32})\.headfwd\.net$/i\<close>.\<close>

definition hexDigitCI :: "jschar \<Rightarrow> bool" where
  "hexDigitCI c \<longleftrightarrow> lowerHex c \<or> 0x41 \<le> unat c \<and> unat c \<le> 0x46"

definition extractFingerprint :: "jsstring \<Rightarrow> jsstring option" where
  "extractFingerprint host =
     (if length host = 44 \<and> list_all hexDigitCI (take 32 host)
        \<and> toLowerCase (drop 32 host) = js ''.headfwd.net''
      then Some (toLowerCase (take 32 host)) else None)"

definition generateSecret :: "(nat \<Rightarrow> byte) \<Rightarrow> jsstring" where
  "generateSecret random = (let buffer = map random [0..<32] in concat (map byteHex buffer))"

definition generateNonce :: "(nat \<Rightarrow> byte) \<Rightarrow> jsstring" where
  "generateNonce random = (let buffer = map random [0..<32] in concat (map byteHex buffer))"

text \<open>\<open>result |= a.charCodeAt(i) ^ b.charCodeAt(i)\<close> over the whole length, on 32-bit integers.\<close>

definition timingSafeEqual :: "jsstring \<Rightarrow> jsstring \<Rightarrow> bool" where
  "timingSafeEqual a b =
     (if length a \<noteq> length b then False
      else fold (\<lambda>i result. result OR (charCodeAt a i XOR charCodeAt b i)) [0..<length a] 0 = 0)"

text \<open>
  The same call when the first argument is an arbitrary JSON value, as in \<open>handleRegisterVerify\<close>:
  only strings have \<open>charCodeAt\<close>, other values with a matching \<open>length\<close> make the call throw.
\<close>

definition lengthProp :: "json \<Rightarrow> json option" where
  "lengthProp j =
     (case j of JStr s \<Rightarrow> Some (JInt (int (length s)))
      | JArr xs \<Rightarrow> Some (JInt (int (length xs)))
      | JObj kvs \<Rightarrow> map_get kvs (js ''length'')
      | _ \<Rightarrow> None)"

definition timingSafeEqualDyn :: "json \<Rightarrow> jsstring \<Rightarrow> bool option" where
  "timingSafeEqualDyn a b =
     (case a of JStr s \<Rightarrow> Some (timingSafeEqual s b)
      | _ \<Rightarrow> if lengthProp a \<noteq> Some (JInt (int (length b))) then Some False
             else if b = [] then Some True else None)"

subsection \<open>Fingerprints\<close>

definition fingerprintForm :: "jsstring \<Rightarrow> bool" where
  "fingerprintForm s \<longleftrightarrow> length s = 32 \<and> list_all lowerHex s"

lemma computeFingerprint_eq: "computeFingerprint cr s = take 32 (bufferToHex (sha256 cr (utf8_encode s)))"
  by (simp add: computeFingerprint_def bufferToHex_def Let_def)

lemma computeFingerprint_form: "webcrypto_ok cr \<Longrightarrow> fingerprintForm (computeFingerprint cr s)"
  by (auto simp: fingerprintForm_def computeFingerprint_eq webcrypto_okD list_all_iff
      dest!: in_set_takeD lowerHex_bufferToHex)

lemma lowerUnit_lowerHex: "lowerHex c \<Longrightarrow> lowerUnit c = c"
  by (auto simp: lowerHex_def lowerUnit_def word_le_nat_alt word_unat_eq_iff)

lemma lowerUnit_hexDigitCI: "hexDigitCI c \<Longrightarrow> lowerHex (lowerUnit c)"
proof -
  assume a: "hexDigitCI c"
  have "unat (c + 0x20) = unat c + 0x20" if "unat c \<le> 0x46"
    using that by (subst unat_add_lem [THEN iffD1]) auto
  with a lowerUnit_lowerHex show ?thesis
    by (auto simp: hexDigitCI_def lowerUnit_def lowerHex_def word_le_nat_alt)
qed

lemma toLowerCase_lowerHex: "list_all lowerHex s \<Longrightarrow> toLowerCase s = s"
  by (induction s) (simp_all add: toLowerCase_def lowerUnit_lowerHex)

lemma toLowerCase_append: "toLowerCase (s @ t) = toLowerCase s @ toLowerCase t"
  by (simp add: toLowerCase_def)

lemma toLowerCase_host: "toLowerCase (js ''.headfwd.net'') = js ''.headfwd.net''"
  by (simp add: toLowerCase_def js_literal lowerUnit_def)

lemma extractFingerprint_Some_iff:
  "extractFingerprint h = Some f \<longleftrightarrow>
     (\<exists>p d. h = p @ d \<and> length p = 32 \<and> list_all hexDigitCI p \<and>
        toLowerCase d = js ''.headfwd.net'' \<and> f = toLowerCase p)"
proof
  assume "extractFingerprint h = Some f"
  then show "\<exists>p d. h = p @ d \<and> length p = 32 \<and> list_all hexDigitCI p \<and>
        toLowerCase d = js ''.headfwd.net'' \<and> f = toLowerCase p"
    by (intro exI [of _ "take 32 h"] exI [of _ "drop 32 h"])
      (auto simp: extractFingerprint_def split: if_splits)
next
  assume "\<exists>p d. h = p @ d \<and> length p = 32 \<and> list_all hexDigitCI p \<and>
        toLowerCase d = js ''.headfwd.net'' \<and> f = toLowerCase p"
  then obtain p d where p: "h = p @ d" "length p = 32" "list_all hexDigitCI p"
    "toLowerCase d = js ''.headfwd.net''" "f = toLowerCase p" by blast
  then have "length d = 12" using length_toLowerCase [of d] by simp
  with p show "extractFingerprint h = Some f" by (simp add: extractFingerprint_def)
qed

lemma extractFingerprint_form: "extractFingerprint h = Some f \<Longrightarrow> fingerprintForm f"
  by (auto simp: extractFingerprint_Some_iff fingerprintForm_def toLowerCase_def list_all_iff
      lowerUnit_hexDigitCI)

lemma extractFingerprint_host: "fingerprintForm f \<Longrightarrow> extractFingerprint (f @ js ''.headfwd.net'') = Some f"
  unfolding extractFingerprint_Some_iff
  by (intro exI [of _ f] exI [of _ "js ''.headfwd.net''"])
    (auto simp: fingerprintForm_def toLowerCase_lowerHex toLowerCase_host list_all_iff hexDigitCI_def)

subsection \<open>Secrets\<close>

lemma generateSecret_form: "length (generateSecret r) = 64 \<and> list_all lowerHex (generateSecret r)"
  using length_bufferToHex [of "map r [0..<32]"] lowerHex_byteHex
  by (auto simp: generateSecret_def bufferToHex_def list_all_iff Let_def)

lemma generateNonce_form: "length (generateNonce r) = 64 \<and> list_all lowerHex (generateNonce r)"
  using generateSecret_form [of r] by (simp add: generateNonce_def generateSecret_def)

subsection \<open>Comparison\<close>

lemma fold_or_eq_0_iff:
  "fold (\<lambda>i r. r OR f i) is (z :: 32 word) = 0 \<longleftrightarrow> z = 0 \<and> (\<forall>i\<in>set is. f i = 0)"
  by (induction "is" arbitrary: z) (auto simp: or_eq_0_iff)

lemma charCodeAt_eq_iff: "i < length a \<Longrightarrow> i < length b \<Longrightarrow> charCodeAt a i = charCodeAt b i \<longleftrightarrow> a ! i = b ! i"
  by (simp add: charCodeAt_def word_unat_eq_iff unsigned_ucast_eq take_bit_nat_eq_self
      unat_jschar_less [THEN less_trans])

lemma xor_zero_iff: "(x :: 32 word) XOR y = 0 \<longleftrightarrow> x = y"
  by (metis xor.assoc xor.left_neutral xor.right_neutral xor_self_eq)

lemma timingSafeEqual_iff: "timingSafeEqual a b \<longleftrightarrow> a = b"
  by (auto simp: timingSafeEqual_def fold_or_eq_0_iff xor_zero_iff charCodeAt_eq_iff
      intro: nth_equalityI)

subsection \<open>Properties\<close>

text \<open>
  A fingerprint is always 32 lower-case hexadecimal digits, the form of the subdomain the
  worker routes on.
\<close>

theorem fingerprint_wellformed:
  assumes "webcrypto_ok cr"
  shows "length (computeFingerprint cr pk) = 32 \<and> list_all lowerHex (computeFingerprint cr pk)"
  using computeFingerprint_form [OF assms] by (simp add: fingerprintForm_def)

text \<open>
  A host name has a fingerprint exactly when it is 32 hexadecimal digits followed by
  \<open>.headfwd.net\<close>, in any letter case, and the fingerprint is the lower-case form of the digits.
\<close>

theorem extractFingerprint_spec:
  "extractFingerprint h = Some f \<longleftrightarrow>
     (\<exists>p d. h = p @ d \<and> length p = 32 \<and> list_all hexDigitCI p \<and>
        toLowerCase d = js ''.headfwd.net'' \<and> f = toLowerCase p)"
  by (rule extractFingerprint_Some_iff)

text \<open>
  C34. The constant-time comparison, which accumulates the exclusive or of all code units, decides
  equality of strings.
\<close>

theorem timingSafeEqual_spec: "timingSafeEqual a b \<longleftrightarrow> a = b"
  by (rule timingSafeEqual_iff)

end
