(* ===== verification/Registration.thy ===== *)
theory Registration
  imports Identity
begin

text \<open>
  The registration endpoints of headfwd-proxy/src/index.ts: the module's two in-memory maps,
  \<open>cleanupExpiredChallenges\<close>, the legacy \<open>handleRegister\<close>, and the two phases
  \<open>handleRegisterInit\<close> and \<open>handleRegisterVerify\<close>. Each handler takes the worker's state and gives
  the new state and the response; the \<open>try/catch\<close> around each body is the response
  \<open>invalidRequest\<close> on every branch that throws. The verification handler awaits several promises
  between reading the challenge and writing the registration, and other requests may run in
  between: it is the composition of \<open>verifyLookup\<close> and \<open>verifyCommit\<close>.
\<close>

subsection \<open>State\<close>

record challenge =
  ch_publicKey :: jsstring
  ch_nonce :: jsstring
  ch_ephemeralPrivateKeyJwk :: json
  ch_expiresAt :: int

record registration =
  reg_publicKey :: jsstring
  reg_secret :: jsstring

record 's worker =
  kvState :: 's
  localChallenges :: "(jsstring, challenge) jsmap"
  localRegistrations :: "(jsstring, registration) jsmap"

text \<open>The loop over \<open>localChallenges.entries()\<close>: it only deletes the entry it visits.\<close>

definition cleanupExpiredChallenges :: "int \<Rightarrow> 's worker \<Rightarrow> 's worker" where
  "cleanupExpiredChallenges t w =
     fold (\<lambda>(fingerprint, data) w'.
        if ch_expiresAt data < t
        then w'\<lparr>localChallenges := map_delete fingerprint (localChallenges w')\<rparr> else w')
      (localChallenges w) w"

subsection \<open>Responses\<close>

definition errorResponse :: "int \<Rightarrow> string \<Rightarrow> http_response" where
  "errorResponse st msg = jsonResponse st (objLit [(''error'', Some (JStr (js msg)))])"

definition invalidRequest :: http_response where
  "invalidRequest = errorResponse 400 ''Invalid request''"

definition challengeMissing :: http_response where
  "challengeMissing =
     errorResponse 400 ''Challenge expired or not found. Please call /api/register/init first.''"

text \<open>
  The reply both \<open>handleRegister\<close> and \<open>handleRegisterVerify\<close> end with; \<open>fp\<close> is the value sent
  back, \<open>fingerprint\<close> its form inside the template literals.
\<close>

definition tunnelReply :: "http_request \<Rightarrow> json \<Rightarrow> jsstring \<Rightarrow> jsstring \<Rightarrow> http_response" where
  "tunnelReply req fp fingerprint secret =
     (let host = hostname (req_url req);
          isLocal = (host = js ''localhost'' \<or> startsWith host (js ''127.0.0.1''));
          baseUrl = (if isLocal then js ''localhost:8787'' else js ''headfwd.net'');
          protocol = (if isLocal then js ''ws'' else js ''wss'');
          httpProtocol = (if isLocal then js ''http'' else js ''https'')
      in jsonResponse 200 (objLit
           [(''fingerprint'', Some fp),
            (''tunnelUrl'', Some (JStr (protocol @ js ''://'' @ fingerprint @ js ''.'' @ baseUrl
                                   @ js ''/tunnel?auth='' @ secret))),
            (''publicUrl'', Some (JStr (httpProtocol @ js ''://'' @ fingerprint @ js ''.'' @ baseUrl)))]))"

subsection \<open>Records in the KV namespace\<close>

definition challengeKey :: "jsstring \<Rightarrow> jsstring" where
  "challengeKey fingerprint = js ''challenge:'' @ fingerprint"

definition tunnelKey :: "jsstring \<Rightarrow> jsstring" where
  "tunnelKey fingerprint = js ''tunnel:'' @ fingerprint"

definition oneYear :: int where
  "oneYear = 60 * 60 * 24 * 365"

definition registrationRecord :: "json option \<Rightarrow> jsstring \<Rightarrow> int \<Rightarrow> json" where
  "registrationRecord publicKey secret createdAt =
     objLit [(''publicKey'', publicKey), (''secret'', Some (JStr secret)),
             (''createdAt'', Some (JInt createdAt))]"

definition challengeRecord :: "jsstring \<Rightarrow> jsstring \<Rightarrow> json \<Rightarrow> int \<Rightarrow> json" where
  "challengeRecord publicKey nonce jwk createdAt =
     objLit [(''publicKey'', Some (JStr publicKey)), (''nonce'', Some (JStr nonce)),
             (''ephemeralPrivateKeyJwk'', Some jwk), (''createdAt'', Some (JInt createdAt))]"

subsection \<open>Legacy registration\<close>

definition handleRegister ::
  "webcrypto \<Rightarrow> 's env \<Rightarrow> inputs \<Rightarrow> http_request \<Rightarrow> 's worker \<Rightarrow> 's worker \<times> http_response" where
  "handleRegister cr env inp req w =
     (case Option.bind (requestJson req) (\<lambda>j. getProp (Some j) ''pubkey'') of
        None \<Rightarrow> (w, invalidRequest)
      | Some pubkey \<Rightarrow>
          if \<not> truthy pubkey then (w, errorResponse 400 ''Missing pubkey'')
          else case Option.bind pubkey toStringJ of
            None \<Rightarrow> (w, invalidRequest)
          | Some pk \<Rightarrow>
              (let fingerprint = computeFingerprint cr pk;
                   secret = TUNNEL_SECRET env;
                   reply = tunnelReply req (JStr fingerprint) fingerprint secret
               in case REGISTRY env of
                    None \<Rightarrow> (w, reply)
                  | Some kv \<Rightarrow>
                      (case kvPut kv (kvState w) (now inp 0) (tunnelKey fingerprint)
                              (JSON_stringify (registrationRecord pubkey secret (now inp 0))) oneYear of
                         None \<Rightarrow> (w, invalidRequest)
                       | Some s \<Rightarrow> (w\<lparr>kvState := s\<rparr>, reply))))"

subsection \<open>Phase 1\<close>

definition handleRegisterInit ::
  "webcrypto \<Rightarrow> 's env \<Rightarrow> inputs \<Rightarrow> http_request \<Rightarrow> 's worker \<Rightarrow> 's worker \<times> http_response" where
  "handleRegisterInit cr env inp req w =
     (case Option.bind (requestJson req) (\<lambda>j. getProp (Some j) ''publicKey'') of
        None \<Rightarrow> (w, invalidRequest)
      | Some pk \<Rightarrow>
          if \<not> truthy pk then (w, errorResponse 400 ''Missing publicKey'')
          else case pk of
            Some (JStr publicKey) \<Rightarrow>
              if \<not> startsWith publicKey (js ''mkey:'')
              then (w, errorResponse 400 ''Invalid publicKey format. Expected mkey:hex'')
              else
                (let fingerprint = computeFingerprint cr publicKey;
                     nonce = generateNonce (rnd inp);
                     ephemeralPublicRaw = x25519Public cr (ephemeral inp);
                     jwk = exportPrivateJwk cr (ephemeral inp);
                     expiresAt = now inp 0 + 300000;
                     reply = jsonResponse 200 (objLit
                       [(''fingerprint'', Some (JStr fingerprint)), (''nonce'', Some (JStr nonce)),
                        (''proxyPublicKey'', Some (JStr (bufferToHex ephemeralPublicRaw))),
                        (''expiresAt'', Some (JInt expiresAt))])
                 in case REGISTRY env of
                      Some kv \<Rightarrow>
                        (case kvPut kv (kvState w) (now inp 1) (challengeKey fingerprint)
                                (JSON_stringify (challengeRecord publicKey nonce jwk (now inp 1))) 300 of
                           None \<Rightarrow> (w, invalidRequest)
                         | Some s \<Rightarrow> (w\<lparr>kvState := s\<rparr>, reply))
                    | None \<Rightarrow>
                        (w\<lparr>localChallenges := map_set fingerprint
                             \<lparr>ch_publicKey = publicKey, ch_nonce = nonce,
                              ch_ephemeralPrivateKeyJwk = jwk, ch_expiresAt = expiresAt\<rparr>
                             (localChallenges w)\<rparr>, reply))
          | _ \<Rightarrow> (w, invalidRequest))"

subsection \<open>Phase 2\<close>

text \<open>
  What the handler holds across its awaits: the fingerprint and proof of the request, and the
  fields of the challenge it read.
\<close>

record verify_context =
  vc_fingerprint :: json
  vc_fingerprintText :: jsstring
  vc_proof :: json
  vc_publicKey :: "json option"
  vc_nonce :: "json option"
  vc_jwk :: "json option"

definition readRegistry ::
  "'s kv_namespace \<Rightarrow> inputs \<Rightarrow> json \<Rightarrow> json \<Rightarrow> 's worker \<Rightarrow> http_response + verify_context" where
  "readRegistry kv inp fp proof w =
     (case toStringJ fp of None \<Rightarrow> Inl invalidRequest
      | Some fingerprint \<Rightarrow>
          (case kvGet kv (kvState w) (now inp 0) (challengeKey fingerprint) of
             None \<Rightarrow> Inl invalidRequest
           | Some None \<Rightarrow> Inl challengeMissing
           | Some (Some challengeData) \<Rightarrow>
               if challengeData = [] then Inl challengeMissing
               else case JSON_parse challengeData of None \<Rightarrow> Inl invalidRequest
               | Some parsed \<Rightarrow>
                   (case (getProp (Some parsed) ''publicKey'', getProp (Some parsed) ''nonce'',
                          getProp (Some parsed) ''ephemeralPrivateKeyJwk'') of
                      (Some publicKey, Some nonce, Some jwk) \<Rightarrow>
                        Inr \<lparr>vc_fingerprint = fp, vc_fingerprintText = fingerprint, vc_proof = proof,
                             vc_publicKey = publicKey, vc_nonce = nonce, vc_jwk = jwk\<rparr>
                    | _ \<Rightarrow> Inl invalidRequest)))"

definition readLocal ::
  "inputs \<Rightarrow> json \<Rightarrow> json \<Rightarrow> 's worker \<Rightarrow> 's worker \<times> (http_response + verify_context)" where
  "readLocal inp fp proof w =
     (let w1 = cleanupExpiredChallenges (now inp 0) w in
      case fp of
        JStr fingerprint \<Rightarrow>
          (case map_get (localChallenges w1) fingerprint of
             Some challenge \<Rightarrow>
               if ch_expiresAt challenge < now inp 1
               then (w1\<lparr>localChallenges := map_delete fingerprint (localChallenges w1)\<rparr>,
                     Inl challengeMissing)
               else (w1, Inr \<lparr>vc_fingerprint = fp, vc_fingerprintText = fingerprint, vc_proof = proof,
                      vc_publicKey = Some (JStr (ch_publicKey challenge)),
                      vc_nonce = Some (JStr (ch_nonce challenge)),
                      vc_jwk = Some (ch_ephemeralPrivateKeyJwk challenge)\<rparr>)
           | None \<Rightarrow>
               (w1\<lparr>localChallenges := map_delete fingerprint (localChallenges w1)\<rparr>,
                Inl challengeMissing))
      | _ \<Rightarrow> (w1, Inl challengeMissing))"

definition verifyLookup ::
  "'s env \<Rightarrow> inputs \<Rightarrow> http_request \<Rightarrow> 's worker \<Rightarrow> 's worker \<times> (http_response + verify_context)" where
  "verifyLookup env inp req w =
     (case Option.bind (requestJson req) (\<lambda>j. Option.bind (getProp (Some j) ''fingerprint'')
             (\<lambda>fp. map_option (\<lambda>proof. (fp, proof)) (getProp (Some j) ''proof''))) of
        None \<Rightarrow> (w, Inl invalidRequest)
      | Some (fp, proof) \<Rightarrow>
          (case (fp, proof) of
             (Some f, Some p) \<Rightarrow>
               if \<not> truthy fp \<or> \<not> truthy proof
               then (w, Inl (errorResponse 400 ''Missing fingerprint or proof''))
               else (case REGISTRY env of
                       Some kv \<Rightarrow> (w, readRegistry kv inp f p w)
                     | None \<Rightarrow> readLocal inp f p w)
           | _ \<Rightarrow> (w, Inl (errorResponse 400 ''Missing fingerprint or proof''))))"

text \<open>
  \<open>hexToBytes(publicKey.slice(5))\<close>: arrays have a \<open>slice\<close> too, but no \<open>substr\<close>; other values
  have neither, so the call throws.
\<close>

definition sidecarKeyBytes :: "json option \<Rightarrow> bytes option" where
  "sidecarKeyBytes publicKey =
     (case publicKey of
        Some (JStr s) \<Rightarrow> Some (hexToBytes (drop 5 s))
      | Some (JArr xs) \<Rightarrow> if length xs \<le> 5 then Some [] else None
      | _ \<Rightarrow> None)"

definition encodeNonce :: "json option \<Rightarrow> bytes option" where
  "encodeNonce nonce =
     (case nonce of None \<Rightarrow> Some [] | Some j \<Rightarrow> map_option utf8_encode (toStringJ j))"

definition expectedProof :: "webcrypto \<Rightarrow> verify_context \<Rightarrow> jsstring option" where
  "expectedProof cr vc =
     (case sidecarKeyBytes (vc_publicKey vc) of None \<Rightarrow> None
      | Some raw \<Rightarrow> (case importPublicRaw cr raw of None \<Rightarrow> None
      | Some sidecarPublicKey \<Rightarrow> (case importPrivateJwk cr (vc_jwk vc) of None \<Rightarrow> None
      | Some proxyPrivateKey \<Rightarrow> (case deriveBits cr proxyPrivateKey sidecarPublicKey of None \<Rightarrow> None
      | Some sharedSecret \<Rightarrow>
          map_option (\<lambda>m. bufferToHex (hmacSha256 cr sharedSecret m)) (encodeNonce (vc_nonce vc))))))"

definition storeRegistration ::
  "'s env \<Rightarrow> inputs \<Rightarrow> verify_context \<Rightarrow> jsstring \<Rightarrow> 's worker \<Rightarrow> 's worker \<times> bool" where
  "storeRegistration env inp vc secret w =
     (case REGISTRY env of
        Some kv \<Rightarrow>
          (case kvPut kv (kvState w) (now inp 2) (tunnelKey (vc_fingerprintText vc))
                  (JSON_stringify (registrationRecord (vc_publicKey vc) secret (now inp 2))) oneYear of
             None \<Rightarrow> (w, False)
           | Some s \<Rightarrow>
               (case kvDelete kv s (now inp 3) (challengeKey (vc_fingerprintText vc)) of
                  None \<Rightarrow> (w\<lparr>kvState := s\<rparr>, False)
                | Some s' \<Rightarrow> (w\<lparr>kvState := s'\<rparr>, True)))
      | None \<Rightarrow>
          (w\<lparr>localRegistrations := map_set (vc_fingerprintText vc)
               \<lparr>reg_publicKey = (case vc_publicKey vc of Some (JStr s) \<Rightarrow> s | _ \<Rightarrow> []),
                reg_secret = secret\<rparr> (localRegistrations w),
             localChallenges := map_delete (vc_fingerprintText vc) (localChallenges w)\<rparr>, True))"

definition verifyCommit ::
  "webcrypto \<Rightarrow> 's env \<Rightarrow> inputs \<Rightarrow> http_request \<Rightarrow> verify_context \<Rightarrow> 's worker
     \<Rightarrow> 's worker \<times> http_response" where
  "verifyCommit cr env inp req vc w =
     (case Option.bind (expectedProof cr vc) (timingSafeEqualDyn (vc_proof vc)) of
        None \<Rightarrow> (w, invalidRequest)
      | Some False \<Rightarrow> (w, errorResponse 403 ''Invalid proof'')
      | Some True \<Rightarrow>
          (let secret = generateSecret (rnd inp);
               (w', stored) = storeRegistration env inp vc secret w
           in if stored
              then (w', tunnelReply req (vc_fingerprint vc) (vc_fingerprintText vc) secret)
              else (w', invalidRequest)))"

definition handleRegisterVerify ::
  "webcrypto \<Rightarrow> 's env \<Rightarrow> inputs \<Rightarrow> http_request \<Rightarrow> 's worker \<Rightarrow> 's worker \<times> http_response" where
  "handleRegisterVerify cr env inp req w =
     (case verifyLookup env inp req w of
        (w1, Inl resp) \<Rightarrow> (w1, resp)
      | (w1, Inr vc) \<Rightarrow> verifyCommit cr env inp req vc w1)"

subsection \<open>Reading the stores\<close>

lemma cleanup_eq:
  "cleanupExpiredChallenges t w =
     w\<lparr>localChallenges := fold map_delete
        (map fst (filter (\<lambda>(k, d). ch_expiresAt d < t) (localChallenges w))) (localChallenges w)\<rparr>"
proof -
  have "fold (\<lambda>(fingerprint, data) w'.
        if ch_expiresAt data < t
        then w'\<lparr>localChallenges := map_delete fingerprint (localChallenges w')\<rparr> else w') xs v
     = v\<lparr>localChallenges := fold map_delete
        (map fst (filter (\<lambda>(k, d). ch_expiresAt d < t) xs)) (localChallenges v)\<rparr>" for xs and v :: "'a worker"
    by (induction xs arbitrary: v) auto
  then show ?thesis by (simp add: cleanupExpiredChallenges_def)
qed

lemma cleanup_frame [simp]:
  "kvState (cleanupExpiredChallenges t w) = kvState w"
  "localRegistrations (cleanupExpiredChallenges t w) = localRegistrations w"
  by (simp_all add: cleanup_eq)

lemma map_ok_cleanup: "map_ok (localChallenges w) \<Longrightarrow> map_ok (localChallenges (cleanupExpiredChallenges t w))"
  by (simp add: cleanup_eq js_map.invar_fold_del)

lemma get_cleanup:
  assumes "map_ok (localChallenges w)"
  shows "map_get (localChallenges (cleanupExpiredChallenges t w)) k =
     (case map_get (localChallenges w) k of None \<Rightarrow> None
      | Some d \<Rightarrow> if ch_expiresAt d < t then None else Some d)"
proof -
  have "k \<in> fst ` {(k, d) \<in> set (localChallenges w). ch_expiresAt d < t} \<longleftrightarrow>
      (\<exists>d. map_get (localChallenges w) k = Some d \<and> ch_expiresAt d < t)"
    by (auto simp: map_get_eq_Some_iff [OF assms] image_iff)
  moreover have "set (map fst (filter (\<lambda>(k, d). ch_expiresAt d < t) (localChallenges w))) =
      fst ` {(k, d) \<in> set (localChallenges w). ch_expiresAt d < t}" by auto
  ultimately show ?thesis
    by (auto simp: cleanup_eq js_map.get_fold_del split: option.split)
qed

subsection \<open>Records survive the KV namespace\<close>

lemma getProp_simps [simp]:
  "getProp None k = None" "getProp (Some JNull) k = None"
  "getProp (Some (JObj kvs)) k = Some (map_get kvs (js k))"
  "getProp (Some (JStr s)) k = Some None" "getProp (Some (JBool b)) k = Some None"
  "getProp (Some (JNum m n)) k = Some None" "getProp (Some (JArr xs)) k = Some None"
  by (simp_all add: getProp_def)

lemma map_get_Cons [simp]: "map_get ((k, v) # m) k' = (if k = k' then Some v else map_get m k')"
  by (simp add: map_get_def)

lemma challengeRecord_ok:
  "json_ok jwk \<Longrightarrow> safeInteger c \<Longrightarrow> json_ok (challengeRecord pk nonce jwk c)"
  by (simp add: challengeRecord_def map_ok_def)

lemma registrationRecord_ok:
  "(\<And>j. pk = Some j \<Longrightarrow> json_ok j) \<Longrightarrow> safeInteger c \<Longrightarrow> json_ok (registrationRecord pk secret c)"
  by (cases pk) (simp_all add: registrationRecord_def map_ok_def)

lemma challengeRecord_props:
  "getProp (Some (challengeRecord pk nonce jwk c)) ''publicKey'' = Some (Some (JStr pk))"
  "getProp (Some (challengeRecord pk nonce jwk c)) ''nonce'' = Some (Some (JStr nonce))"
  "getProp (Some (challengeRecord pk nonce jwk c)) ''ephemeralPrivateKeyJwk'' = Some (Some jwk)"
  by (simp_all add: challengeRecord_def)

lemma registrationRecord_props:
  "getProp (Some (registrationRecord pk secret c)) ''publicKey'' = Some pk"
  "getProp (Some (registrationRecord pk secret c)) ''secret'' = Some (Some (JStr secret))"
  by (cases pk; simp add: registrationRecord_def)+

lemma stringify_not_Nil: "json_ok j \<Longrightarrow> JSON_stringify j \<noteq> []"
  using stringify_head [of j] by auto


subsection \<open>Keys\<close>

lemma challengeKey_eq_iff [simp]: "challengeKey f = challengeKey g \<longleftrightarrow> f = g"
  and tunnelKey_eq_iff [simp]: "tunnelKey f = tunnelKey g \<longleftrightarrow> f = g"
  and challengeKey_neq_tunnelKey [simp]: "challengeKey f \<noteq> tunnelKey g" "tunnelKey g \<noteq> challengeKey f"
  by (simp_all add: challengeKey_def tunnelKey_def js_Cons)

subsection \<open>What a request asks for\<close>

definition legacyRequest :: "http_request \<Rightarrow> json \<Rightarrow> bool" where
  "legacyRequest req pk \<longleftrightarrow>
     Option.bind (requestJson req) (\<lambda>j. getProp (Some j) ''pubkey'') = Some (Some pk)"

definition initRequest :: "http_request \<Rightarrow> jsstring \<Rightarrow> bool" where
  "initRequest req pk \<longleftrightarrow>
     Option.bind (requestJson req) (\<lambda>j. getProp (Some j) ''publicKey'') = Some (Some (JStr pk))"

definition verifyRequest :: "http_request \<Rightarrow> json \<Rightarrow> json \<Rightarrow> bool" where
  "verifyRequest req fp proof \<longleftrightarrow>
     (\<exists>j. requestJson req = Some j \<and> getProp (Some j) ''fingerprint'' = Some (Some fp) \<and>
          getProp (Some j) ''proof'' = Some (Some proof))"

definition initReply :: "webcrypto \<Rightarrow> inputs \<Rightarrow> jsstring \<Rightarrow> http_response" where
  "initReply cr inp pk =
     jsonResponse 200 (objLit
       [(''fingerprint'', Some (JStr (computeFingerprint cr pk))),
        (''nonce'', Some (JStr (generateNonce (rnd inp)))),
        (''proxyPublicKey'', Some (JStr (bufferToHex (x25519Public cr (ephemeral inp))))),
        (''expiresAt'', Some (JInt (now inp 0 + 300000)))])"

definition issuedChallenge :: "webcrypto \<Rightarrow> inputs \<Rightarrow> jsstring \<Rightarrow> challenge" where
  "issuedChallenge cr inp pk =
     \<lparr>ch_publicKey = pk, ch_nonce = generateNonce (rnd inp),
      ch_ephemeralPrivateKeyJwk = exportPrivateJwk cr (ephemeral inp),
      ch_expiresAt = now inp 0 + 300000\<rparr>"

definition initRecord :: "webcrypto \<Rightarrow> inputs \<Rightarrow> jsstring \<Rightarrow> jsstring" where
  "initRecord cr inp pk =
     JSON_stringify (challengeRecord pk (generateNonce (rnd inp)) (exportPrivateJwk cr (ephemeral inp)) (now inp 1))"

lemma mkey_truthy: "startsWith pk (js ''mkey:'') \<Longrightarrow> pk \<noteq> []"
  by (auto simp: startsWith_def)

lemma init_local:
  assumes "REGISTRY env = None" "initRequest req pk" "startsWith pk (js ''mkey:'')"
  shows "handleRegisterInit cr env inp req w =
    (w\<lparr>localChallenges := map_set (computeFingerprint cr pk) (issuedChallenge cr inp pk) (localChallenges w)\<rparr>,
     initReply cr inp pk)"
  using assms mkey_truthy [OF assms(3)]
  by (simp add: handleRegisterInit_def initRequest_def initReply_def issuedChallenge_def Let_def)

lemma init_registry:
  assumes "REGISTRY env = Some kv" "initRequest req pk" "startsWith pk (js ''mkey:'')"
  shows "handleRegisterInit cr env inp req w =
    (case kvPut kv (kvState w) (now inp 1) (challengeKey (computeFingerprint cr pk))
       (initRecord cr inp pk) 300 of
       None \<Rightarrow> (w, invalidRequest)
     | Some s \<Rightarrow> (w\<lparr>kvState := s\<rparr>, initReply cr inp pk))"
  using assms mkey_truthy [OF assms(3)]
  by (simp add: handleRegisterInit_def initRequest_def initReply_def initRecord_def Let_def split: option.split)

lemma init_rejected:
  assumes "\<not> (\<exists>pk. initRequest req pk \<and> startsWith pk (js ''mkey:''))"
  shows "fst (handleRegisterInit cr env inp req w) = w \<and> resp_status (snd (handleRegisterInit cr env inp req w)) = 400"
  using assms
  by (auto simp: handleRegisterInit_def initRequest_def invalidRequest_def errorResponse_def jsonResponse_def
      split: option.splits json.splits)

text \<open>The handler is one of three: rejected, stored locally, stored in the KV namespace.\<close>

lemma init_cases:
  obtains (rejected) "fst (handleRegisterInit cr env inp req w) = w"
      "resp_status (snd (handleRegisterInit cr env inp req w)) = 400"
  | (local) pk where "REGISTRY env = None" "initRequest req pk" "startsWith pk (js ''mkey:'')"
      "fst (handleRegisterInit cr env inp req w) =
        w\<lparr>localChallenges := map_set (computeFingerprint cr pk) (issuedChallenge cr inp pk) (localChallenges w)\<rparr>"
  | (registry) kv pk s where "REGISTRY env = Some kv" "initRequest req pk" "startsWith pk (js ''mkey:'')"
      "kvPut kv (kvState w) (now inp 1) (challengeKey (computeFingerprint cr pk))
       (initRecord cr inp pk) 300 = Some s"
      "fst (handleRegisterInit cr env inp req w) = w\<lparr>kvState := s\<rparr>"
proof (cases "\<exists>pk. initRequest req pk \<and> startsWith pk (js ''mkey:'')")
  case False
  then show ?thesis using init_rejected rejected by blast
next
  case True
  then obtain pk where pk: "initRequest req pk" "startsWith pk (js ''mkey:'')" by blast
  show ?thesis
  proof (cases "REGISTRY env")
    case None
    then show ?thesis using local pk init_local [OF None pk] by simp
  next
    case (Some kv)
    show ?thesis
    proof (cases "kvPut kv (kvState w) (now inp 1) (challengeKey (computeFingerprint cr pk))
        (initRecord cr inp pk) 300")
      case None
      then show ?thesis
        using rejected init_registry [OF Some pk, of cr inp w]
        by (simp add: invalidRequest_def errorResponse_def jsonResponse_def)
    next
      case put: (Some s)
      then show ?thesis
        using registry [OF Some pk put] init_registry [OF Some pk, of cr inp w] by simp
    qed
  qed
qed

subsection \<open>Verification, step by step\<close>

lemma timingSafeEqualDyn_True:
  "timingSafeEqualDyn p e = Some True \<Longrightarrow> e \<noteq> [] \<Longrightarrow> p = JStr e"
  by (auto simp: timingSafeEqualDyn_def timingSafeEqual_iff split: json.splits if_splits)

lemma lookup_registry:
  assumes "REGISTRY env = Some kv" "verifyLookup env inp req w = (w1, Inr vc)"
  shows "w1 = w \<and> verifyRequest req (vc_fingerprint vc) (vc_proof vc) \<and>
    toStringJ (vc_fingerprint vc) = Some (vc_fingerprintText vc) \<and>
    (\<exists>d parsed. kvGet kv (kvState w) (now inp 0) (challengeKey (vc_fingerprintText vc)) = Some (Some d) \<and>
       JSON_parse d = Some parsed \<and> getProp (Some parsed) ''publicKey'' = Some (vc_publicKey vc) \<and>
       getProp (Some parsed) ''nonce'' = Some (vc_nonce vc) \<and>
       getProp (Some parsed) ''ephemeralPrivateKeyJwk'' = Some (vc_jwk vc))"
  using assms
  by (auto simp: verifyLookup_def readRegistry_def verifyRequest_def bind_eq_Some_conv
      split: option.splits if_splits)

lemma lookup_local:
  assumes "REGISTRY env = None" "verifyLookup env inp req w = (w1, Inr vc)"
  shows "w1 = cleanupExpiredChallenges (now inp 0) w \<and> verifyRequest req (vc_fingerprint vc) (vc_proof vc) \<and>
    vc_fingerprint vc = JStr (vc_fingerprintText vc) \<and>
    (\<exists>c. map_get (localChallenges w1) (vc_fingerprintText vc) = Some c \<and> now inp 1 \<le> ch_expiresAt c \<and>
       vc_publicKey vc = Some (JStr (ch_publicKey c)) \<and> vc_nonce vc = Some (JStr (ch_nonce c)) \<and>
       vc_jwk vc = Some (ch_ephemeralPrivateKeyJwk c))"
  using assms
  by (auto simp: verifyLookup_def readLocal_def verifyRequest_def bind_eq_Some_conv Let_def
      split: option.splits if_splits json.splits)

lemma lookup_state:
  "fst (verifyLookup env inp req w) \<in> {w, cleanupExpiredChallenges (now inp 0) w} \<or>
   (\<exists>f. fst (verifyLookup env inp req w) = (cleanupExpiredChallenges (now inp 0) w)
      \<lparr>localChallenges := map_delete f (localChallenges (cleanupExpiredChallenges (now inp 0) w))\<rparr>)"
  by (simp add: verifyLookup_def readLocal_def Let_def split: option.split json.split) blast

lemma lookup_frame:
  "kvState (fst (verifyLookup env inp req w)) = kvState w"
  "localRegistrations (fst (verifyLookup env inp req w)) = localRegistrations w"
  using lookup_state [of env inp req w] by auto

lemma lookup_challenges:
  assumes "map_ok (localChallenges w)"
  shows "map_ok (localChallenges (fst (verifyLookup env inp req w)))"
    and "map_get (localChallenges (fst (verifyLookup env inp req w))) k = Some c \<Longrightarrow>
      map_get (localChallenges w) k = Some c"
  using lookup_state [of env inp req w] map_ok_cleanup [OF assms, of "now inp 0"] assms
  by (auto simp: js_map.invar_del js_map.get_del get_cleanup [OF assms]
      split: option.splits if_splits)

lemma lookup_error_status:
  "verifyLookup env inp req w = (w1, Inl r) \<Longrightarrow> resp_status r = 400"
  by (auto simp: verifyLookup_def readLocal_def readRegistry_def Let_def errorResponse_def
      invalidRequest_def challengeMissing_def jsonResponse_def
      split: option.splits json.splits if_splits)

lemma resp_status_simps [simp]:
  "resp_status (jsonResponse st j) = st" "resp_status (textResponse st s) = st"
  "resp_status (errorResponse st s) = st" "resp_status invalidRequest = 400"
  "resp_status challengeMissing = 400" "resp_status (tunnelReply req fp f secret) = 200"
  by (simp_all add: jsonResponse_def textResponse_def errorResponse_def invalidRequest_def
      challengeMissing_def tunnelReply_def Let_def)

definition proofFor :: "webcrypto \<Rightarrow> jsstring \<Rightarrow> jsstring \<Rightarrow> json \<Rightarrow> jsstring option" where
  "proofFor cr pk nonce jwk =
     (case importPublicRaw cr (hexToBytes (drop 5 pk)) of None \<Rightarrow> None
      | Some sidecarPublicKey \<Rightarrow> (case importPrivateJwk cr (Some jwk) of None \<Rightarrow> None
      | Some proxyPrivateKey \<Rightarrow>
          map_option (\<lambda>sharedSecret. bufferToHex (hmacSha256 cr sharedSecret (utf8_encode nonce)))
            (deriveBits cr proxyPrivateKey sidecarPublicKey)))"

lemma expectedProof_eq:
  "vc_publicKey vc = Some (JStr pk) \<Longrightarrow> vc_nonce vc = Some (JStr nonce) \<Longrightarrow> vc_jwk vc = Some jwk \<Longrightarrow>
     expectedProof cr vc = proofFor cr pk nonce jwk"
  by (auto simp: expectedProof_def proofFor_def sidecarKeyBytes_def encodeNonce_def split: option.splits)

lemma expectedProof_length:
  "webcrypto_ok cr \<Longrightarrow> expectedProof cr vc = Some e \<Longrightarrow> length e = 64"
  by (auto simp: expectedProof_def webcrypto_okD split: option.splits)

lemma commit_cases:
  assumes "webcrypto_ok cr"
  obtains (refused) "fst (verifyCommit cr env inp req vc w) = w"
      "resp_status (snd (verifyCommit cr env inp req vc w)) \<in> {400, 403}"
  | (proved) e where "expectedProof cr vc = Some e" "vc_proof vc = JStr e"
      "fst (verifyCommit cr env inp req vc w) = fst (storeRegistration env inp vc (generateSecret (rnd inp)) w)"
proof (cases "Option.bind (expectedProof cr vc) (timingSafeEqualDyn (vc_proof vc))")
  case None
  then show ?thesis using refused by (simp add: verifyCommit_def)
next
  case (Some b)
  show ?thesis
  proof (cases b)
    case False
    then show ?thesis using refused Some by (simp add: verifyCommit_def)
  next
    case True
    with Some obtain e where e: "expectedProof cr vc = Some e" "timingSafeEqualDyn (vc_proof vc) e = Some True"
      by (auto simp: bind_eq_Some_conv)
    have "e \<noteq> []" using expectedProof_length [OF assms e(1)] by auto
    then have "vc_proof vc = JStr e" using e(2) timingSafeEqualDyn_True by blast
    then show ?thesis
      using proved [OF e(1)] e Some True by (simp add: verifyCommit_def case_prod_beta Let_def split: if_splits)
  qed
qed

end
