(* ===== verification/Protocol.thy ===== *)
theory Protocol
  imports Registration
begin

text \<open>
  The registration service under arbitrary interleavings. The events are whole invocations of
  \<open>handleRegister\<close> and \<open>handleRegisterInit\<close> and the two halves of \<open>handleRegisterVerify\<close>
  (headfwd-proxy/src/index.ts), so that any number of verifications may be between reading their
  challenge and storing their registration. The invariant \<open>regInv\<close> traces every stored challenge and
  registration back to the events that caused it; it holds in every run from an empty store
  (\<open>regInv_run\<close>), for a KV namespace that may lag behind its writes but never invents a value.
\<close>

subsection \<open>The registration service as a machine\<close>

datatype reg_event =
    RegLegacy inputs http_request
  | RegInit inputs http_request
  | RegVerifyBegin inputs http_request
  | RegVerifyFinish nat

record 's reg_system =
  rs_worker :: "'s worker"
  rs_inflight :: "(inputs \<times> http_request \<times> verify_context) list"

fun regStep :: "webcrypto \<Rightarrow> 's env \<Rightarrow> 's reg_system \<Rightarrow> reg_event \<Rightarrow> 's reg_system \<times> http_response list" where
  "regStep cr env s (RegLegacy inp req) =
     (let (w, r) = handleRegister cr env inp req (rs_worker s) in (s\<lparr>rs_worker := w\<rparr>, [r]))"
| "regStep cr env s (RegInit inp req) =
     (let (w, r) = handleRegisterInit cr env inp req (rs_worker s) in (s\<lparr>rs_worker := w\<rparr>, [r]))"
| "regStep cr env s (RegVerifyBegin inp req) =
     (case verifyLookup env inp req (rs_worker s) of
        (w, Inl r) \<Rightarrow> (s\<lparr>rs_worker := w\<rparr>, [r])
      | (w, Inr vc) \<Rightarrow> (s\<lparr>rs_worker := w, rs_inflight := rs_inflight s @ [(inp, req, vc)]\<rparr>, []))"
| "regStep cr env s (RegVerifyFinish i) =
     (if i < length (rs_inflight s)
      then (let (inp, req, vc) = rs_inflight s ! i;
                (w, r) = verifyCommit cr env inp req vc (rs_worker s)
            in (s\<lparr>rs_worker := w,
                  rs_inflight := take i (rs_inflight s) @ drop (Suc i) (rs_inflight s)\<rparr>, [r]))
      else (s, []))"

definition regStart :: "'s \<Rightarrow> 's reg_system" where
  "regStart kv0 = \<lparr>rs_worker = \<lparr>kvState = kv0, localChallenges = [], localRegistrations = []\<rparr>, rs_inflight = []\<rparr>"

subsection \<open>Where challenges and registrations come from\<close>

definition issued :: "webcrypto \<Rightarrow> reg_event list \<Rightarrow> jsstring \<Rightarrow> jsstring \<Rightarrow> jsstring \<Rightarrow> json \<Rightarrow> bool" where
  "issued cr es fp pk nonce jwk \<longleftrightarrow>
     (\<exists>inp req. RegInit inp req \<in> set es \<and> initRequest req pk \<and> startsWith pk (js ''mkey:'') \<and>
        fp = computeFingerprint cr pk \<and> nonce = generateNonce (rnd inp) \<and>
        jwk = exportPrivateJwk cr (ephemeral inp))"

definition proofSubmitted :: "webcrypto \<Rightarrow> reg_event list \<Rightarrow> jsstring \<Rightarrow> bool" where
  "proofSubmitted cr es fp \<longleftrightarrow>
     (\<exists>es1 es2 pk nonce jwk inp req f e.
        es = es1 @ RegVerifyBegin inp req # es2 \<and> issued cr es1 fp pk nonce jwk \<and>
        verifyRequest req f (JStr e) \<and> toStringJ f = Some fp \<and> proofFor cr pk nonce jwk = Some e)"

definition legacyRegistered :: "webcrypto \<Rightarrow> reg_event list \<Rightarrow> jsstring \<Rightarrow> bool" where
  "legacyRegistered cr es fp \<longleftrightarrow>
     (\<exists>inp req pk t. RegLegacy inp req \<in> set es \<and> legacyRequest req pk \<and> toStringJ pk = Some t \<and>
        fp = computeFingerprint cr t)"

lemma issued_mono: "issued cr es fp pk nonce jwk \<Longrightarrow> issued cr (es @ fs) fp pk nonce jwk"
  unfolding issued_def by auto

lemma proofSubmitted_mono: "proofSubmitted cr es fp \<Longrightarrow> proofSubmitted cr (es @ fs) fp"
  unfolding proofSubmitted_def by (metis append.assoc append_Cons)

lemma legacyRegistered_mono: "legacyRegistered cr es fp \<Longrightarrow> legacyRegistered cr (es @ fs) fp"
  unfolding legacyRegistered_def by auto

definition saneTimes :: "inputs \<Rightarrow> bool" where
  "saneTimes inp \<longleftrightarrow> (\<forall>i. safeInteger (now inp i))"

fun saneEvent :: "reg_event \<Rightarrow> bool" where
  "saneEvent (RegInit inp req) \<longleftrightarrow> saneTimes inp"
| "saneEvent _ \<longleftrightarrow> True"

definition challengesInv :: "webcrypto \<Rightarrow> 's env \<Rightarrow> reg_event list \<Rightarrow> 's worker \<Rightarrow> bool" where
  "challengesInv cr env es w \<longleftrightarrow>
     map_ok (localChallenges w) \<and>
     (\<forall>fp c. map_get (localChallenges w) fp = Some c \<longrightarrow>
        issued cr es fp (ch_publicKey c) (ch_nonce c) (ch_ephemeralPrivateKeyJwk c)) \<and>
     (\<forall>kv t fp d. REGISTRY env = Some kv \<longrightarrow> kvGet kv (kvState w) t (challengeKey fp) = Some (Some d) \<longrightarrow>
        (\<exists>pk nonce jwk c. issued cr es fp pk nonce jwk \<and> JSON_parse d = Some (challengeRecord pk nonce jwk c)))"

definition tunnelsInv :: "webcrypto \<Rightarrow> 's env \<Rightarrow> reg_event list \<Rightarrow> 's worker \<Rightarrow> bool" where
  "tunnelsInv cr env es w \<longleftrightarrow>
     (\<forall>fp r. map_get (localRegistrations w) fp = Some r \<longrightarrow> proofSubmitted cr es fp) \<and>
     (\<forall>kv t fp d. REGISTRY env = Some kv \<longrightarrow> kvGet kv (kvState w) t (tunnelKey fp) = Some (Some d) \<longrightarrow>
        proofSubmitted cr es fp \<or> legacyRegistered cr es fp)"

definition contextInv :: "webcrypto \<Rightarrow> reg_event list \<Rightarrow> inputs \<times> http_request \<times> verify_context \<Rightarrow> bool" where
  "contextInv cr es p \<longleftrightarrow>
     (case p of (inp, req, vc) \<Rightarrow>
        verifyRequest req (vc_fingerprint vc) (vc_proof vc) \<and>
        toStringJ (vc_fingerprint vc) = Some (vc_fingerprintText vc) \<and>
        (\<exists>es1 es2 pk nonce jwk.
           es = es1 @ RegVerifyBegin inp req # es2 \<and> issued cr es1 (vc_fingerprintText vc) pk nonce jwk \<and>
           vc_publicKey vc = Some (JStr pk) \<and> vc_nonce vc = Some (JStr nonce) \<and> vc_jwk vc = Some jwk))"

definition regInv :: "webcrypto \<Rightarrow> 's env \<Rightarrow> reg_event list \<Rightarrow> 's reg_system \<Rightarrow> bool" where
  "regInv cr env es s \<longleftrightarrow>
     challengesInv cr env es (rs_worker s) \<and> tunnelsInv cr env es (rs_worker s) \<and>
     (\<forall>p\<in>set (rs_inflight s). contextInv cr es p)"

lemma contextInv_mono: "contextInv cr es p \<Longrightarrow> contextInv cr (es @ fs) p"
  unfolding contextInv_def by (cases p) fastforce

lemma tunnelsInv_mono: "tunnelsInv cr env es w \<Longrightarrow> tunnelsInv cr env (es @ fs) w"
  unfolding tunnelsInv_def using proofSubmitted_mono legacyRegistered_mono by blast

lemma challengesInv_mono: "challengesInv cr env es w \<Longrightarrow> challengesInv cr env (es @ fs) w"
  unfolding challengesInv_def using issued_mono by blast

lemma challengesInv_cong:
  "challengesInv cr env es w \<Longrightarrow> kvState w' = kvState w \<Longrightarrow> localChallenges w' = localChallenges w \<Longrightarrow>
     challengesInv cr env es w'"
  and tunnelsInv_cong:
  "tunnelsInv cr env es w \<Longrightarrow> kvState w' = kvState w \<Longrightarrow> localRegistrations w' = localRegistrations w \<Longrightarrow>
     tunnelsInv cr env es w'"
  by (simp_all add: challengesInv_def tunnelsInv_def)

subsection \<open>Every handler keeps the invariant\<close>

text \<open>One write or delete in the KV namespace.\<close>

lemma challengesInv_put:
  assumes "challengesInv cr env es w" "REGISTRY env = Some kv" "kv_integrity kv"
    and "kvPut kv (kvState w) t k v ttl = Some s"
    and "\<And>fp. k = challengeKey fp \<Longrightarrow>
      \<exists>pk nonce jwk c. issued cr es fp pk nonce jwk \<and> JSON_parse v = Some (challengeRecord pk nonce jwk c)"
  shows "challengesInv cr env es (w\<lparr>kvState := s\<rparr>)"
  using assms(1,2,5) kv_integrity_put [OF assms(3,4)]
  unfolding challengesInv_def by simp metis

lemma tunnelsInv_put:
  assumes "tunnelsInv cr env es w" "REGISTRY env = Some kv" "kv_integrity kv"
    and "kvPut kv (kvState w) t k v ttl = Some s"
    and "\<And>fp. k = tunnelKey fp \<Longrightarrow> proofSubmitted cr es fp \<or> legacyRegistered cr es fp"
  shows "tunnelsInv cr env es (w\<lparr>kvState := s\<rparr>)"
  using assms(1,2,5) kv_integrity_put [OF assms(3,4)]
  unfolding tunnelsInv_def by simp metis

lemma regInv_delete:
  assumes "REGISTRY env = Some kv" "kv_integrity kv" "kvDelete kv (kvState w) t k = Some s"
  shows "challengesInv cr env es w \<Longrightarrow> challengesInv cr env es (w\<lparr>kvState := s\<rparr>)"
    and "tunnelsInv cr env es w \<Longrightarrow> tunnelsInv cr env es (w\<lparr>kvState := s\<rparr>)"
  subgoal using assms(1) kv_integrity_delete [OF assms(2,3)] unfolding challengesInv_def by simp metis
  subgoal using assms(1) kv_integrity_delete [OF assms(2,3)] unfolding tunnelsInv_def by simp metis
  done

definition registryOk :: "'s env \<Rightarrow> bool" where
  "registryOk env \<longleftrightarrow> (\<forall>kv. REGISTRY env = Some kv \<longrightarrow> kv_integrity kv)"

lemma issuedI:
  "initRequest req pk \<Longrightarrow> startsWith pk (js ''mkey:'') \<Longrightarrow>
     issued cr (es @ [RegInit inp req]) (computeFingerprint cr pk) pk (generateNonce (rnd inp))
       (exportPrivateJwk cr (ephemeral inp))"
  unfolding issued_def by auto

lemma init_challengesInv:
  assumes "webcrypto_ok cr" "registryOk env" "saneTimes inp" "challengesInv cr env es w"
  shows "challengesInv cr env (es @ [RegInit inp req]) (fst (handleRegisterInit cr env inp req w))"
proof (cases cr env inp req w rule: init_cases)
  case rejected
  then show ?thesis using challengesInv_mono [OF assms(4)] by simp
next
  case (local pk)
  then show ?thesis
    using challengesInv_mono [OF assms(4), of "[RegInit inp req]"] issuedI [OF local(2,3), of cr es inp]
    by (auto simp: challengesInv_def js_map.get_put js_map.invar_put issuedChallenge_def split: if_splits)
next
  case (registry kv pk s)
  have "JSON_parse (initRecord cr inp pk) =
      Some (challengeRecord pk (generateNonce (rnd inp)) (exportPrivateJwk cr (ephemeral inp)) (now inp 1))"
    unfolding initRecord_def
    using assms(1,3) by (intro JSON_parse_stringify challengeRecord_ok) (auto simp: webcrypto_okD saneTimes_def)
  then have "\<exists>pk' nonce jwk c. issued cr (es @ [RegInit inp req]) fp pk' nonce jwk \<and>
      JSON_parse (initRecord cr inp pk) = Some (challengeRecord pk' nonce jwk c)"
    if "challengeKey (computeFingerprint cr pk) = challengeKey fp" for fp
    using that issuedI [OF registry(2,3), of cr es inp] by auto
  moreover have "kv_integrity kv" using assms(2) registry(1) by (simp add: registryOk_def)
  ultimately show ?thesis
    unfolding registry(5)
    using challengesInv_put [OF challengesInv_mono [OF assms(4)] registry(1) _ registry(4)] by blast
qed

lemma init_tunnelsInv:
  assumes "registryOk env" "tunnelsInv cr env es w"
  shows "tunnelsInv cr env (es @ [RegInit inp req]) (fst (handleRegisterInit cr env inp req w))"
proof (cases cr env inp req w rule: init_cases)
  case rejected
  then show ?thesis using tunnelsInv_mono [OF assms(2)] by simp
next
  case (local pk)
  then show ?thesis using tunnelsInv_mono [OF assms(2)] by (simp add: tunnelsInv_def)
next
  case (registry kv pk s)
  then show ?thesis
    unfolding registry(5)
    using tunnelsInv_mono [OF assms(2)] assms(1)
    by (intro tunnelsInv_put [OF _ registry(1) _ registry(4)]) (auto simp: registryOk_def)
qed

lemma legacy_cases:
  obtains (unchanged) "fst (handleRegister cr env inp req w) = w"
  | (stored) kv pk t s v where "REGISTRY env = Some kv" "legacyRequest req pk" "toStringJ pk = Some t"
      "kvPut kv (kvState w) (now inp 0) (tunnelKey (computeFingerprint cr t)) v oneYear = Some s"
      "fst (handleRegister cr env inp req w) = w\<lparr>kvState := s\<rparr>"
proof -
  have "fst (handleRegister cr env inp req w) = w \<or>
    (\<exists>kv pk t s v. REGISTRY env = Some kv \<and> legacyRequest req pk \<and> toStringJ pk = Some t \<and>
      kvPut kv (kvState w) (now inp 0) (tunnelKey (computeFingerprint cr t)) v oneYear = Some s \<and>
      fst (handleRegister cr env inp req w) = w\<lparr>kvState := s\<rparr>)"
    by (auto simp: handleRegister_def legacyRequest_def Let_def bind_eq_Some_conv split: option.split)
  then show ?thesis using unchanged stored by blast
qed

lemma legacy_challengesInv:
  assumes "registryOk env" "challengesInv cr env es w"
  shows "challengesInv cr env (es @ [RegLegacy inp req]) (fst (handleRegister cr env inp req w))"
proof (cases cr env inp req w rule: legacy_cases)
  case unchanged
  then show ?thesis using challengesInv_mono [OF assms(2)] by simp
next
  case (stored kv pk t s v)
  then show ?thesis
    using challengesInv_mono [OF assms(2)] assms(1)
    by (auto simp: registryOk_def intro!: challengesInv_put [OF _ stored(1) _ stored(4)])
qed

lemma legacy_tunnelsInv:
  assumes "registryOk env" "tunnelsInv cr env es w"
  shows "tunnelsInv cr env (es @ [RegLegacy inp req]) (fst (handleRegister cr env inp req w))"
proof (cases cr env inp req w rule: legacy_cases)
  case unchanged
  then show ?thesis using tunnelsInv_mono [OF assms(2)] by simp
next
  case (stored kv pk t s v)
  have "legacyRegistered cr (es @ [RegLegacy inp req]) (computeFingerprint cr t)"
    unfolding legacyRegistered_def using stored(2,3) by auto
  then show ?thesis
    using tunnelsInv_mono [OF assms(2)] assms(1) stored
    by (auto simp: registryOk_def intro!: tunnelsInv_put [OF _ stored(1) _ stored(4)])
qed

lemma lookup_challengesInv:
  assumes "challengesInv cr env es w"
  shows "challengesInv cr env es (fst (verifyLookup env inp req w))"
  using assms lookup_frame(1) [of env inp req w] lookup_challenges [of w env inp req]
  unfolding challengesInv_def by auto

lemma lookup_tunnelsInv: "tunnelsInv cr env es w \<Longrightarrow> tunnelsInv cr env es (fst (verifyLookup env inp req w))"
  by (rule tunnelsInv_cong) (simp_all add: lookup_frame)

lemma lookup_contextInv:
  assumes "challengesInv cr env es w" "verifyLookup env inp req w = (w1, Inr vc)"
  shows "contextInv cr (es @ [RegVerifyBegin inp req]) (inp, req, vc)"
proof (cases "REGISTRY env")
  case None
  obtain c where c: "map_get (localChallenges w1) (vc_fingerprintText vc) = Some c"
      "vc_publicKey vc = Some (JStr (ch_publicKey c))" "vc_nonce vc = Some (JStr (ch_nonce c))"
      "vc_jwk vc = Some (ch_ephemeralPrivateKeyJwk c)"
    using lookup_local [OF None assms(2)] by blast
  have "map_get (localChallenges w) (vc_fingerprintText vc) = Some c"
    using lookup_challenges(2) [of w env inp req] c(1) assms by (auto simp: challengesInv_def)
  then have "issued cr es (vc_fingerprintText vc) (ch_publicKey c) (ch_nonce c) (ch_ephemeralPrivateKeyJwk c)"
    using assms(1) by (simp add: challengesInv_def)
  then show ?thesis
    using lookup_local [OF None assms(2)] c by (auto simp: contextInv_def)
next
  case (Some kv)
  obtain d parsed where d: "kvGet kv (kvState w) (now inp 0) (challengeKey (vc_fingerprintText vc)) = Some (Some d)"
      "JSON_parse d = Some parsed" "getProp (Some parsed) ''publicKey'' = Some (vc_publicKey vc)"
      "getProp (Some parsed) ''nonce'' = Some (vc_nonce vc)"
      "getProp (Some parsed) ''ephemeralPrivateKeyJwk'' = Some (vc_jwk vc)"
    using lookup_registry [OF Some assms(2)] by blast
  obtain pk nonce jwk t where i: "issued cr es (vc_fingerprintText vc) pk nonce jwk"
      "parsed = challengeRecord pk nonce jwk t"
    using assms(1) Some d(1,2) unfolding challengesInv_def by fastforce
  then have "vc_publicKey vc = Some (JStr pk)" "vc_nonce vc = Some (JStr nonce)" "vc_jwk vc = Some jwk"
    using d by (simp_all add: challengeRecord_props)
  then show ?thesis
    using lookup_registry [OF Some assms(2)] i(1)
    by (auto simp: contextInv_def)
qed

lemma contextInv_proved:
  assumes "contextInv cr es (inp, req, vc)" "expectedProof cr vc = Some e" "vc_proof vc = JStr e"
  shows "proofSubmitted cr es (vc_fingerprintText vc)"
proof -
  obtain es1 es2 pk nonce jwk where i: "es = es1 @ RegVerifyBegin inp req # es2"
      "issued cr es1 (vc_fingerprintText vc) pk nonce jwk" "vc_publicKey vc = Some (JStr pk)"
      "vc_nonce vc = Some (JStr nonce)" "vc_jwk vc = Some jwk"
    using assms(1) by (auto simp: contextInv_def)
  moreover have "proofFor cr pk nonce jwk = Some e" using i assms(2) expectedProof_eq by simp
  moreover have "verifyRequest req (vc_fingerprint vc) (JStr e)" "toStringJ (vc_fingerprint vc) = Some (vc_fingerprintText vc)"
    using assms(1,3) by (auto simp: contextInv_def)
  ultimately show ?thesis unfolding proofSubmitted_def by blast
qed

lemma store_inv:
  assumes "registryOk env" "proofSubmitted cr es (vc_fingerprintText vc)"
  shows "challengesInv cr env es w \<Longrightarrow> challengesInv cr env es (fst (storeRegistration env inp vc secret w))"
    and "tunnelsInv cr env es w \<Longrightarrow> tunnelsInv cr env es (fst (storeRegistration env inp vc secret w))"
proof -
  assume i: "challengesInv cr env es w"
  show "challengesInv cr env es (fst (storeRegistration env inp vc secret w))"
  proof (cases "REGISTRY env")
    case None
    then show ?thesis using i
      by (auto simp: storeRegistration_def challengesInv_def js_map.invar_del js_map.get_del)
  next
    case (Some kv)
    have k: "kv_integrity kv" using assms(1) Some by (simp add: registryOk_def)
    have p: "challengesInv cr env es (w\<lparr>kvState := s\<rparr>)"
      if "kvPut kv (kvState w) t (tunnelKey f) v ttl = Some s" for t f v ttl s
      using challengesInv_put [OF i Some k that] by simp
    show ?thesis
      using Some i p regInv_delete(1) [OF Some k, of "w\<lparr>kvState := _\<rparr>"]
      by (auto simp: storeRegistration_def split: option.split)
  qed
next
  assume i: "tunnelsInv cr env es w"
  show "tunnelsInv cr env es (fst (storeRegistration env inp vc secret w))"
  proof (cases "REGISTRY env")
    case None
    then show ?thesis using i assms(2)
      by (auto simp: storeRegistration_def tunnelsInv_def js_map.get_put split: if_splits)
  next
    case (Some kv)
    have k: "kv_integrity kv" using assms(1) Some by (simp add: registryOk_def)
    have p: "tunnelsInv cr env es (w\<lparr>kvState := s\<rparr>)"
      if "kvPut kv (kvState w) t (tunnelKey (vc_fingerprintText vc)) v ttl = Some s" for t v ttl s
      using tunnelsInv_put [OF i Some k that] assms(2) by simp
    show ?thesis
      using Some i p regInv_delete(2) [OF Some k, of "w\<lparr>kvState := _\<rparr>"]
      by (auto simp: storeRegistration_def split: option.split)
  qed
qed

lemma commit_inv:
  assumes "webcrypto_ok cr" "registryOk env" "contextInv cr es (inp, req, vc)"
  shows "challengesInv cr env es w \<Longrightarrow> challengesInv cr env es (fst (verifyCommit cr env inp req vc w))"
    and "tunnelsInv cr env es w \<Longrightarrow> tunnelsInv cr env es (fst (verifyCommit cr env inp req vc w))"
  using store_inv [OF assms(2) contextInv_proved [OF assms(3)], of _ w]
  by (cases rule: commit_cases [OF assms(1), of env inp req vc w]; simp)+

subsection \<open>The machine with its history\<close>

text \<open>The invariant speaks of past events, so the machine is run together with the list of them.\<close>

definition regStepH ::
  "webcrypto \<Rightarrow> 's env \<Rightarrow> reg_event list \<times> 's reg_system \<Rightarrow> reg_event
     \<Rightarrow> (reg_event list \<times> 's reg_system) \<times> http_response list" where
  "regStepH cr env h e = (case h of (es, s) \<Rightarrow>
     case regStep cr env s e of (s', rs) \<Rightarrow> ((es @ [e], s'), rs))"

definition servicesOk :: "webcrypto \<Rightarrow> 's env \<Rightarrow> bool" where
  "servicesOk cr env \<longleftrightarrow> webcrypto_ok cr \<and> registryOk env"

lemma regInv_step:
  assumes "servicesOk cr env" "saneEvent e" "regInv cr env es s"
  shows "regInv cr env (es @ [e]) (fst (regStep cr env s e))"
proof -
  note ok = assms(1) [unfolded servicesOk_def]
  note inv = assms(3) [unfolded regInv_def]
  have old: "contextInv cr (es @ [e]) p" if "p \<in> set (rs_inflight s)" for p
    using inv that contextInv_mono by blast
  show ?thesis
  proof (cases e)
    case (RegLegacy inp req)
    then show ?thesis
      using ok inv old legacy_challengesInv legacy_tunnelsInv by (auto simp: regInv_def case_prod_beta)
  next
    case (RegInit inp req)
    then show ?thesis
      using ok inv old assms(2) init_challengesInv init_tunnelsInv by (auto simp: regInv_def case_prod_beta)
  next
    case (RegVerifyBegin inp req)
    obtain w x where l: "verifyLookup env inp req (rs_worker s) = (w, x)" by force
    have "challengesInv cr env (es @ [e]) w" "tunnelsInv cr env (es @ [e]) w"
      using lookup_challengesInv [of cr env "es @ [e]" "rs_worker s" inp req]
        lookup_tunnelsInv [of cr env "es @ [e]" "rs_worker s" inp req] l inv
      by (auto intro: challengesInv_mono tunnelsInv_mono)
    then show ?thesis
      using RegVerifyBegin l old inv lookup_contextInv [of cr env es "rs_worker s" inp req]
      by (cases x) (auto simp: regInv_def)
  next
    case (RegVerifyFinish i)
    show ?thesis
    proof (cases "i < length (rs_inflight s)")
      case True
      obtain inp req vc where v: "rs_inflight s ! i = (inp, req, vc)" by (cases "rs_inflight s ! i")
      then have c: "contextInv cr (es @ [e]) (inp, req, vc)" using old True nth_mem by metis
      have "set (take i (rs_inflight s) @ drop (Suc i) (rs_inflight s)) \<subseteq> set (rs_inflight s)"
        using set_take_subset set_drop_subset by fastforce
      then show ?thesis
        using RegVerifyFinish True v old ok inv commit_inv [OF _ _ c, of env "rs_worker s"]
        by (auto simp: regInv_def case_prod_beta challengesInv_mono tunnelsInv_mono dest: in_set_takeD in_set_dropD)
    next
      case False
      then show ?thesis
        using RegVerifyFinish inv old by (auto simp: regInv_def challengesInv_mono tunnelsInv_mono)
    qed
  qed
qed

interpretation registration: guarded_machine
  "regStepH cr env" "\<lambda>_ e. servicesOk cr env \<and> saneEvent e" "\<lambda>(es, s). regInv cr env es s"
  for cr :: webcrypto and env :: "'s env"
  by unfold_locales (auto simp: regStepH_def case_prod_beta intro: regInv_step)

lemma run_regStepH:
  "fst (run (regStepH cr env) (es, s) fs) = (es @ fs, fst (run (regStep cr env) s fs))"
  by (induction fs arbitrary: es s)
    (simp_all del: run.simps(2) add: fst_run_Cons regStepH_def case_prod_beta)

lemma allowed_regStepH:
  "servicesOk cr env \<Longrightarrow> list_all saneEvent fs \<Longrightarrow>
     allowed (\<lambda>_ e. servicesOk cr env \<and> saneEvent e) (regStepH cr env) h fs"
  by (induction fs arbitrary: h) auto

lemma regInv_start: "(\<And>kv t k. REGISTRY env = Some kv \<Longrightarrow> kvGet kv kv0 t k = Some None) \<Longrightarrow>
    regInv cr env [] (regStart kv0)"
  by (auto simp: regInv_def regStart_def challengesInv_def tunnelsInv_def)

lemma regInv_run:
  assumes "servicesOk cr env" "list_all saneEvent es"
    and "\<And>kv t k. REGISTRY env = Some kv \<Longrightarrow> kvGet kv kv0 t k = Some None"
  shows "regInv cr env es (fst (run (regStep cr env) (regStart kv0) es))"
  using registration.inv_run [where s = "([], regStart kv0)" and es = es and cr = cr and env = env]
    regInv_start [of env kv0 cr] assms allowed_regStepH [OF assms(1,2)]
  by (simp add: run_regStepH)

end
