(* ===== verification/Samples.thy ===== *)
theory Samples
  imports Registration
begin

text \<open>
  Concrete services at which the hypotheses of the properties hold: a key agreement that is
  symmetric but not secret, a digest and an authentication code that pad or cut their input, and a
  KV namespace that is an association list with expiration times. They show that \<open>webcrypto_ok\<close>,
  \<open>kv_consistent\<close> and \<open>kv_available\<close> can be met; nothing else depends on them. The requests are
  those of a sidecar whose private key is 32 zero bytes.
\<close>

definition pad32 :: "bytes \<Rightarrow> bytes" where
  "pad32 b = take 32 (b @ replicate 32 0)"

definition sampleCrypto :: webcrypto where
  "sampleCrypto =
     \<lparr>sha256 = pad32, x25519Public = pad32, exportPrivateJwk = (\<lambda>k. JStr (map ucast k)),
      importPrivateJwk = (\<lambda>j. case j of Some (JStr s) \<Rightarrow> Some (map ucast s) | _ \<Rightarrow> None),
      importPublicRaw = (\<lambda>b. if length b = 32 then Some b else None),
      deriveBits = (\<lambda>k p. Some (map (\<lambda>(x, y). x XOR y) (zip (pad32 k) (pad32 p)))),
      hmacSha256 = (\<lambda>k m. pad32 (map (\<lambda>(x, y). x XOR y) (zip (pad32 k) (pad32 m))))\<rparr>"

lemma length_pad32 [simp]: "length (pad32 b) = 32"
  by (simp add: pad32_def)

lemma pad32_id [simp]: "length b = 32 \<Longrightarrow> pad32 b = b"
  by (simp add: pad32_def)

lemma sampleCrypto_ok: "webcrypto_ok sampleCrypto"
proof -
  have "ucast (ucast (x :: byte) :: jschar) = x" for x
    by (rule bit_word_eqI) (auto simp: bit_simps)
  then have "map ucast (map ucast k :: jsstring) = k" for k :: bytes by (simp add: o_def)
  moreover have "map (\<lambda>(x, y). x XOR y) (zip (a :: bytes) b) = map (\<lambda>(x, y). x XOR y) (zip b a)" for a b
    by (induction a b rule: list_induct2') (auto simp: xor.commute)
  ultimately show ?thesis by (simp add: webcrypto_ok_def sampleCrypto_def)
qed

type_synonym sample_store = "(jsstring, jsstring \<times> int) jsmap"

definition sampleKv :: "sample_store kv_namespace" where
  "sampleKv =
     \<lparr>kvGet = (\<lambda>s t k. Some (case map_get s k of None \<Rightarrow> None
                              | Some (v, e) \<Rightarrow> if t < e then Some v else None)),
      kvPut = (\<lambda>s t k v ttl. Some (map_set k (v, t + 1000 * ttl) s)),
      kvDelete = (\<lambda>s t k. Some (map_delete k s))\<rparr>"

lemma sampleKv_ok: "kv_consistent sampleKv" "kv_available sampleKv"
  by (auto simp: kv_consistent_def kv_available_def sampleKv_def js_map.get_put js_map.get_del)

definition sampleEnv :: "sample_store env" where
  "sampleEnv = \<lparr>REGISTRY = Some sampleKv, TUNNEL_SECRET = js ''shared''\<rparr>"

definition localEnv :: "sample_store env" where
  "localEnv = \<lparr>REGISTRY = None, TUNNEL_SECRET = js ''shared''\<rparr>"

definition sampleUrl :: "string \<Rightarrow> url" where
  "sampleUrl path =
     \<lparr>href = js ''https://headfwd.net'' @ js path, hostname = js ''headfwd.net'', pathname = js path,
      searchParams = []\<rparr>"

definition sampleRequest :: "string \<Rightarrow> json \<Rightarrow> http_request" where
  "sampleRequest path j =
     \<lparr>req_method = js ''POST'', req_url = sampleUrl path, req_headers = [],
      req_body = Some (utf8_encode (JSON_stringify j))\<rparr>"

definition sampleInputs :: "int \<Rightarrow> byte \<Rightarrow> inputs" where
  "sampleInputs t r = \<lparr>now = (\<lambda>_. t), rnd = (\<lambda>_. r), ephemeral = replicate 32 7\<rparr>"

definition sampleKey :: jsstring where
  "sampleKey = js ''mkey:'' @ bufferToHex (replicate 32 0)"

lemma sampleKey_eq: "sampleKey = js ''mkey:'' @ bufferToHex (x25519Public sampleCrypto (replicate 32 0))"
  by (simp add: sampleKey_def sampleCrypto_def)

lemma requestJson_sample: "json_ok j \<Longrightarrow> requestJson (sampleRequest path j) = Some j"
  by (simp add: requestJson_def requestBytes_def sampleRequest_def JSON_parse_utf8)

definition sampleInit :: http_request where
  "sampleInit = sampleRequest ''/api/register/init'' (objLit [(''publicKey'', Some (JStr sampleKey))])"

definition sampleVerify :: "jsstring \<Rightarrow> jsstring \<Rightarrow> http_request" where
  "sampleVerify fp p = sampleRequest ''/api/register/verify''
     (objLit [(''fingerprint'', Some (JStr fp)), (''proof'', Some (JStr p))])"

definition sampleLegacy :: http_request where
  "sampleLegacy = sampleRequest ''/api/register'' (objLit [(''pubkey'', Some (JStr sampleKey))])"

lemma sampleInit_ok: "initRequest sampleInit sampleKey"
  by (simp add: initRequest_def sampleInit_def requestJson_sample map_ok_def)

lemma sampleVerify_ok: "verifyRequest (sampleVerify fp p) (JStr fp) (JStr p)"
  by (simp add: verifyRequest_def sampleVerify_def requestJson_sample map_ok_def)

lemma sampleLegacy_ok: "legacyRequest sampleLegacy (JStr sampleKey)"
  by (simp add: legacyRequest_def sampleLegacy_def requestJson_sample map_ok_def)

end
