(* ===== verification/Enrolment.thy ===== *)
theory Enrolment
  imports Protocol Samples
begin

text \<open>
  What registration guarantees, end to end: a registration needs a valid proof, an honest sidecar
  always gets one, a challenge can be used once and for five minutes, a refused proof changes
  nothing. The last section records where the worker departs from docs/REGISTRATION.md.
\<close>

subsection \<open>The sidecar's side\<close>

text \<open>
  The computation the comment above \<open>handleRegisterVerify\<close> expects of the sidecar:
  HMAC-SHA256(ECDH(sidecarPrivate, proxyEphemeralPublic), nonce), in hex.
\<close>

definition sidecarProof :: "webcrypto \<Rightarrow> bytes \<Rightarrow> jsstring \<Rightarrow> jsstring \<Rightarrow> jsstring option" where
  "sidecarProof cr sidecarPrivate nonce proxyPublicKey =
     map_option (\<lambda>sharedSecret. bufferToHex (hmacSha256 cr sharedSecret (utf8_encode nonce)))
       (deriveBits cr sidecarPrivate (hexToBytes proxyPublicKey))"

definition sidecarKey :: "webcrypto \<Rightarrow> bytes \<Rightarrow> jsstring" where
  "sidecarKey cr sidecarPrivate = js ''mkey:'' @ bufferToHex (x25519Public cr sidecarPrivate)"

definition replyField :: "http_response \<Rightarrow> string \<Rightarrow> json option" where
  "replyField r k =
     (case resp_body r of
        TextBody t \<Rightarrow> Option.bind (JSON_parse t) (\<lambda>j. Option.bind (getProp (Some j) k) id)
      | _ \<Rightarrow> None)"

lemma replyField_json: "json_ok (JObj kvs) \<Longrightarrow> replyField (jsonResponse st (JObj kvs)) k = map_get kvs (js k)"
  by (simp add: replyField_def jsonResponse_def JSON_parse_stringify del: json_ok.simps JSON_stringify.simps)

lemma initReply_fields:
  assumes "safeInteger (now inp 0 + 300000)"
  shows "replyField (initReply cr inp pk) ''fingerprint'' = Some (JStr (computeFingerprint cr pk))"
    "replyField (initReply cr inp pk) ''nonce'' = Some (JStr (generateNonce (rnd inp)))"
    "replyField (initReply cr inp pk) ''proxyPublicKey'' =
       Some (JStr (bufferToHex (x25519Public cr (ephemeral inp))))"
    "replyField (initReply cr inp pk) ''expiresAt'' = Some (JInt (now inp 0 + 300000))"
    "replyField (initReply cr inp pk) ''protocolVersion'' = None"
  using assms by (simp_all add: initReply_def replyField_json map_ok_def)

lemma sidecarKey_mkey: "startsWith (sidecarKey cr sk) (js ''mkey:'')"
  by (simp add: sidecarKey_def)

text \<open>The worker expects exactly the proof the sidecar computes.\<close>

lemma proofFor_sidecar:
  assumes "webcrypto_ok cr"
  shows "proofFor cr (sidecarKey cr sk) nonce (exportPrivateJwk cr e) =
    sidecarProof cr sk nonce (bufferToHex (x25519Public cr e))"
proof -
  have "drop 5 (sidecarKey cr sk) = bufferToHex (x25519Public cr sk)" by (simp add: sidecarKey_def)
  then show ?thesis
    using webcrypto_okD(7) [OF assms, of e sk]
    by (simp add: proofFor_def sidecarProof_def hexToBytes_bufferToHex webcrypto_okD [OF assms])
qed

subsection \<open>Verification with the right proof\<close>

lemma commit_ok:
  assumes "expectedProof cr vc = Some p" "vc_proof vc = JStr p"
    and "storeRegistration env inp vc (generateSecret (rnd inp)) w = (w', True)"
  shows "verifyCommit cr env inp req vc w =
    (w', tunnelReply req (vc_fingerprint vc) (vc_fingerprintText vc) (generateSecret (rnd inp)))"
  using assms by (simp add: verifyCommit_def timingSafeEqualDyn_def timingSafeEqual_iff)

lemma store_available:
  assumes "\<forall>kv. REGISTRY env = Some kv \<longrightarrow> kv_available kv"
  obtains w' where "storeRegistration env inp vc secret w = (w', True)"
proof -
  have "snd (storeRegistration env inp vc secret w)"
    using assms by (auto simp: storeRegistration_def kv_availableD split: option.split)
  then show ?thesis using that by (metis prod.collapse)
qed

lemma commit_refused:
  assumes "\<forall>kv. REGISTRY env = Some kv \<longrightarrow> kv_available kv"
    and "verifyCommit cr env inp req vc w = (w', r)" "resp_status r \<noteq> 200"
  shows "w' = w \<and> resp_status r \<in> {400, 403}"
proof -
  obtain w1 where "storeRegistration env inp vc (generateSecret (rnd inp)) w = (w1, True)"
    using store_available [OF assms(1)] .
  then show ?thesis
    using assms(2,3) by (auto simp: verifyCommit_def Let_def split: option.splits bool.splits)
qed

lemma lookup_registry_ok:
  assumes "REGISTRY env = Some kv" "verifyRequest req (JStr fp) (JStr p)" "fp \<noteq> []" "p \<noteq> []"
    and "kvGet kv (kvState w) (now inp 0) (challengeKey fp) = Some (Some (JSON_stringify (challengeRecord pk nonce jwk c)))"
    and "json_ok (challengeRecord pk nonce jwk c)"
  shows "verifyLookup env inp req w =
    (w, Inr \<lparr>vc_fingerprint = JStr fp, vc_fingerprintText = fp, vc_proof = JStr p,
             vc_publicKey = Some (JStr pk), vc_nonce = Some (JStr nonce), vc_jwk = Some jwk\<rparr>)"
  using assms
  by (auto simp: verifyRequest_def verifyLookup_def readRegistry_def JSON_parse_stringify
      stringify_not_Nil challengeRecord_props)

lemma lookup_local_ok:
  assumes "REGISTRY env = None" "verifyRequest req (JStr fp) (JStr p)" "fp \<noteq> []" "p \<noteq> []"
    and "map_ok (localChallenges w)" "map_get (localChallenges w) fp = Some c"
    and "now inp 0 \<le> ch_expiresAt c" "now inp 1 \<le> ch_expiresAt c"
  shows "verifyLookup env inp req w =
    (cleanupExpiredChallenges (now inp 0) w,
     Inr \<lparr>vc_fingerprint = JStr fp, vc_fingerprintText = fp, vc_proof = JStr p,
          vc_publicKey = Some (JStr (ch_publicKey c)), vc_nonce = Some (JStr (ch_nonce c)),
          vc_jwk = Some (ch_ephemeralPrivateKeyJwk c)\<rparr>)"
  using assms
  by (auto simp: verifyRequest_def verifyLookup_def readLocal_def Let_def get_cleanup)

lemma proofFor_length: "webcrypto_ok cr \<Longrightarrow> proofFor cr pk nonce jwk = Some p \<Longrightarrow> length p = 64"
  by (auto simp: proofFor_def webcrypto_okD split: option.splits)

lemma proof_nonempty: "webcrypto_ok cr \<Longrightarrow> proofFor cr pk nonce jwk = Some p \<Longrightarrow> p \<noteq> []"
  using proofFor_length by fastforce

lemma fingerprint_nonempty: "webcrypto_ok cr \<Longrightarrow> computeFingerprint cr pk \<noteq> []"
  using computeFingerprint_form [of cr pk] by (auto simp: fingerprintForm_def)


lemma verify_registry_ok:
  assumes "webcrypto_ok cr" "REGISTRY env = Some kv" "kv_consistent kv" "kv_available kv"
    and "verifyRequest req (JStr fp) (JStr p)" "fp \<noteq> []" "proofFor cr pk nonce jwk = Some p"
    and "kvGet kv (kvState w) (now inp 0) (challengeKey fp) = Some (Some (JSON_stringify (challengeRecord pk nonce jwk c)))"
    and "json_ok (challengeRecord pk nonce jwk c)"
  obtains w' where "handleRegisterVerify cr env inp req w =
      (w', tunnelReply req (JStr fp) fp (generateSecret (rnd inp)))"
    and "\<And>t. t < now inp 2 + 1000 * oneYear \<Longrightarrow> kvGet kv (kvState w') t (tunnelKey fp) =
      Some (Some (JSON_stringify (registrationRecord (Some (JStr pk)) (generateSecret (rnd inp)) (now inp 2))))"
    and "\<And>t. kvGet kv (kvState w') t (challengeKey fp) = Some None"
proof -
  let ?vc = "\<lparr>vc_fingerprint = JStr fp, vc_fingerprintText = fp, vc_proof = JStr p,
             vc_publicKey = Some (JStr pk), vc_nonce = Some (JStr nonce), vc_jwk = Some jwk\<rparr>"
  let ?secret = "generateSecret (rnd inp)"
  obtain s1 where s1: "kvPut kv (kvState w) (now inp 2) (tunnelKey fp)
      (JSON_stringify (registrationRecord (Some (JStr pk)) ?secret (now inp 2))) oneYear = Some s1"
    using assms(4) by (force simp: kv_available_def)
  obtain s2 where s2: "kvDelete kv s1 (now inp 3) (challengeKey fp) = Some s2"
    using assms(4) by (force simp: kv_available_def)
  have look: "verifyLookup env inp req w = (w, Inr ?vc)"
    using lookup_registry_ok [OF assms(2,5,6) proof_nonempty [OF assms(1,7)] assms(8,9)] .
  have "storeRegistration env inp ?vc ?secret w = (w\<lparr>kvState := s2\<rparr>, True)"
    using assms(2) s1 s2 by (simp add: storeRegistration_def)
  then have "handleRegisterVerify cr env inp req w = (w\<lparr>kvState := s2\<rparr>, tunnelReply req (JStr fp) fp ?secret)"
    using look commit_ok [of cr ?vc p env inp w _ req] assms(7) expectedProof_eq [of ?vc pk nonce jwk cr]
    by (simp add: handleRegisterVerify_def)
  then show ?thesis
    using that [of "w\<lparr>kvState := s2\<rparr>"] kv_put_get [OF assms(3) s1] kv_delete_get [OF assms(3) s2] by simp
qed

lemma verify_local_ok:
  assumes "webcrypto_ok cr" "REGISTRY env = None"
    and "verifyRequest req (JStr fp) (JStr p)" "fp \<noteq> []"
    and "map_ok (localChallenges w)" "map_get (localChallenges w) fp = Some c"
    and "proofFor cr (ch_publicKey c) (ch_nonce c) (ch_ephemeralPrivateKeyJwk c) = Some p"
    and "now inp 0 \<le> ch_expiresAt c" "now inp 1 \<le> ch_expiresAt c"
  obtains w' where "handleRegisterVerify cr env inp req w =
      (w', tunnelReply req (JStr fp) fp (generateSecret (rnd inp)))"
    and "map_get (localRegistrations w') fp =
      Some \<lparr>reg_publicKey = ch_publicKey c, reg_secret = generateSecret (rnd inp)\<rparr>"
    and "map_get (localChallenges w') fp = None"
  using that assms lookup_local_ok [OF assms(2-4) proof_nonempty [OF assms(1,7)] assms(5,6,8,9)]
  by (simp add: handleRegisterVerify_def commit_ok expectedProof_eq storeRegistration_def js_map.get_put js_map.get_del)

subsection \<open>Verification without a challenge\<close>

definition challengeAbsent :: "'s env \<Rightarrow> inputs \<Rightarrow> jsstring \<Rightarrow> 's worker \<Rightarrow> bool" where
  "challengeAbsent env inp fp w \<longleftrightarrow>
     (case REGISTRY env of
        Some kv \<Rightarrow> kvGet kv (kvState w) (now inp 0) (challengeKey fp) = Some None
      | None \<Rightarrow> map_ok (localChallenges w) \<and>
          (case map_get (localChallenges w) fp of None \<Rightarrow> True
           | Some c \<Rightarrow> ch_expiresAt c < now inp 0 \<or> ch_expiresAt c < now inp 1))"

lemma verify_absent:
  assumes "challengeAbsent env inp fp w" "verifyRequest req f p" "truthy (Some f)" "truthy (Some p)"
    and "toStringJ f = Some fp" "handleRegisterVerify cr env inp req w = (w', r)"
  shows "r = challengeMissing \<and> kvState w' = kvState w \<and> localRegistrations w' = localRegistrations w"
proof (cases "REGISTRY env")
  case None
  then show ?thesis
    using assms
    by (cases f) (auto simp: challengeAbsent_def verifyRequest_def handleRegisterVerify_def verifyLookup_def
        readLocal_def Let_def get_cleanup split: option.splits if_splits)
next
  case (Some kv)
  then show ?thesis
    using assms
    by (auto simp: challengeAbsent_def verifyRequest_def handleRegisterVerify_def verifyLookup_def readRegistry_def)
qed

lemma verify_success:
  assumes "handleRegisterVerify cr env inp req w = (w', r)" "resp_status r = 200"
  obtains w0 vc where "verifyLookup env inp req w = (w0, Inr vc)"
    "storeRegistration env inp vc (generateSecret (rnd inp)) w0 = (w', True)"
    "r = tunnelReply req (vc_fingerprint vc) (vc_fingerprintText vc) (generateSecret (rnd inp))"
proof (cases "verifyLookup env inp req w")
  case (Pair w0 x)
  show ?thesis
  proof (cases x)
    case (Inl e)
    then show ?thesis
      using assms Pair lookup_error_status [of env inp req w w0 e] by (simp add: handleRegisterVerify_def)
  next
    case (Inr vc)
    then show ?thesis
      using assms Pair that [of w0 vc]
      by (auto simp: handleRegisterVerify_def verifyCommit_def Let_def split: option.splits bool.splits prod.splits if_splits)
  qed
qed

lemma lookup_request:
  assumes "verifyLookup env inp req w = (w0, Inr vc)"
  shows "verifyRequest req (vc_fingerprint vc) (vc_proof vc)"
    and "toStringJ (vc_fingerprint vc) = Some (vc_fingerprintText vc)"
  using assms lookup_local [of env inp req w w0 vc] lookup_registry [of env _ inp req w w0 vc]
  by (cases "REGISTRY env"; auto)+

lemma verifyRequest_unique:
  "verifyRequest req f p \<Longrightarrow> verifyRequest req f' p' \<Longrightarrow> f' = f \<and> p' = p"
  by (auto simp: verifyRequest_def)

text \<open>Looking a challenge up twice gives the same result.\<close>

lemma cleanup_idem:
  assumes "map_ok (localChallenges w)"
  shows "cleanupExpiredChallenges t (cleanupExpiredChallenges t w) = cleanupExpiredChallenges t w"
proof -
  let ?m = "localChallenges (cleanupExpiredChallenges t w)"
  have "\<not> ch_expiresAt d < t" if "(k, d) \<in> set ?m" for k d
    using that get_cleanup [OF assms, of t k] map_get_eq_Some_iff [OF map_ok_cleanup [OF assms, of t], of k d]
    by (auto split: option.splits if_splits)
  then have "filter (\<lambda>(k, d). ch_expiresAt d < t) ?m = []" by (auto simp: filter_empty_conv)
  then show ?thesis by (subst cleanup_eq) simp
qed

lemma lookup_again:
  assumes "map_ok (localChallenges w)" "verifyLookup env inp req w = (w0, Inr vc)"
  shows "verifyLookup env inp req w0 = (w0, Inr vc)"
proof (cases "REGISTRY env")
  case None
  have "w0 = cleanupExpiredChallenges (now inp 0) w" using lookup_local [OF None assms(2)] by simp
  then show ?thesis
    using assms None cleanup_idem [OF assms(1), of "now inp 0"]
    by (auto simp: verifyLookup_def readLocal_def Let_def split: option.splits if_splits json.splits)
next
  case (Some kv)
  then show ?thesis using lookup_registry [OF Some assms(2)] assms(2) by simp
qed

subsection \<open>A sample enrolment\<close>

definition sampleFp :: jsstring where
  "sampleFp = computeFingerprint sampleCrypto sampleKey"

definition sampleNonce :: jsstring where
  "sampleNonce = generateNonce (rnd (sampleInputs 0 1))"

definition samplePpk :: jsstring where
  "samplePpk = bufferToHex (x25519Public sampleCrypto (replicate 32 7))"

definition sampleProof :: jsstring where
  "sampleProof = the (sidecarProof sampleCrypto (replicate 32 0) sampleNonce samplePpk)"

lemma sampleKey_sidecarKey: "sidecarKey sampleCrypto (replicate 32 0) = sampleKey"
  by (simp add: sidecarKey_def sampleKey_eq)

lemma sampleProof_eq: "sidecarProof sampleCrypto (replicate 32 0) sampleNonce samplePpk = Some sampleProof"
  by (simp add: sampleProof_def sidecarProof_def sampleCrypto_def)

lemma sample_proofFor:
  "proofFor sampleCrypto sampleKey sampleNonce (exportPrivateJwk sampleCrypto (replicate 32 7)) = Some sampleProof"
  using proofFor_sidecar [OF sampleCrypto_ok, of "replicate 32 0" sampleNonce "replicate 32 7"] sampleProof_eq
  by (simp add: samplePpk_def sampleKey_sidecarKey)

lemma sampleFp_nonempty: "sampleFp \<noteq> []"
  using fingerprint_nonempty [OF sampleCrypto_ok] by (simp add: sampleFp_def)

lemma sampleKey_mkey: "startsWith sampleKey (js ''mkey:'')"
  by (simp add: sampleKey_def)

lemma sampleInputs_simps [simp]:
  "now (sampleInputs t r) i = t" "rnd (sampleInputs t r) i = r" "ephemeral (sampleInputs t r) = replicate 32 7"
  by (simp_all add: sampleInputs_def)

lemma sampleTimes: "\<bar>t\<bar> < 2 ^ 53 \<Longrightarrow> saneTimes (sampleInputs t r)"
  by (simp add: saneTimes_def safeInteger_def)

lemma REGISTRY_sample: "REGISTRY sampleEnv = Some sampleKv" "REGISTRY localEnv = None"
  by (simp_all add: sampleEnv_def localEnv_def)

lemma sampleServices: "servicesOk sampleCrypto sampleEnv" "servicesOk sampleCrypto localEnv"
  by (simp_all add: servicesOk_def sampleCrypto_ok registryOk_def sampleEnv_def localEnv_def
      kv_consistent_integrity sampleKv_ok)

definition sampleChallenge :: challenge where
  "sampleChallenge = issuedChallenge sampleCrypto (sampleInputs 0 1) sampleKey"

lemma sampleChallenge_simps:
  "ch_publicKey sampleChallenge = sampleKey" "ch_nonce sampleChallenge = sampleNonce"
  "ch_ephemeralPrivateKeyJwk sampleChallenge = exportPrivateJwk sampleCrypto (replicate 32 7)"
  "ch_expiresAt sampleChallenge = 300000"
  by (simp_all add: sampleChallenge_def issuedChallenge_def sampleNonce_def)

definition sampleRun :: "reg_event list" where
  "sampleRun =
     [RegInit (sampleInputs 0 1) sampleInit,
      RegVerifyBegin (sampleInputs 1000 2) (sampleVerify sampleFp sampleProof), RegVerifyFinish 0]"

lemma sampleRun_registers:
  "map_get (localRegistrations (rs_worker (fst (run (regStep sampleCrypto localEnv) (regStart []) sampleRun)))) sampleFp
     \<noteq> None"
proof -
  let ?w = "\<lparr>kvState = [], localChallenges = [(sampleFp, sampleChallenge)], localRegistrations = []\<rparr> :: sample_store worker"
  have init: "handleRegisterInit sampleCrypto localEnv (sampleInputs 0 1) sampleInit
        \<lparr>kvState = [], localChallenges = [], localRegistrations = []\<rparr> =
      (?w, initReply sampleCrypto (sampleInputs 0 1) sampleKey)"
    using init_local [of localEnv sampleInit sampleKey sampleCrypto "sampleInputs 0 1"
        "\<lparr>kvState = [], localChallenges = [], localRegistrations = []\<rparr>"]
    by (simp add: REGISTRY_sample sampleInit_ok sampleKey_mkey sampleFp_def sampleChallenge_def map_set_def)
  have look: "verifyLookup localEnv (sampleInputs 1000 2) (sampleVerify sampleFp sampleProof) ?w =
      (cleanupExpiredChallenges 1000 ?w,
       Inr \<lparr>vc_fingerprint = JStr sampleFp, vc_fingerprintText = sampleFp, vc_proof = JStr sampleProof,
            vc_publicKey = Some (JStr sampleKey), vc_nonce = Some (JStr sampleNonce),
            vc_jwk = Some (exportPrivateJwk sampleCrypto (replicate 32 7))\<rparr>)"
    using lookup_local_ok [of localEnv "sampleVerify sampleFp sampleProof" sampleFp sampleProof ?w sampleChallenge
        "sampleInputs 1000 2"] proof_nonempty [OF sampleCrypto_ok sample_proofFor]
    by (simp add: REGISTRY_sample sampleVerify_ok sampleFp_nonempty sampleChallenge_simps map_ok_def)
  show ?thesis
    using sample_proofFor
    by (simp add: sampleRun_def init look regStart_def commit_ok expectedProof_eq storeRegistration_def
        REGISTRY_sample js_map.get_put)
qed

text \<open>The same enrolment against the KV namespace.\<close>

definition emptyWorker :: "sample_store worker" where
  "emptyWorker = \<lparr>kvState = [], localChallenges = [], localRegistrations = []\<rparr>"

definition sampleWorker :: "sample_store worker" where
  "sampleWorker = fst (handleRegisterInit sampleCrypto sampleEnv (sampleInputs 0 1) sampleInit emptyWorker)"

abbreviation sampleJwk :: json where
  "sampleJwk \<equiv> exportPrivateJwk sampleCrypto (replicate 32 7)"

lemma sample_init: "handleRegisterInit sampleCrypto sampleEnv (sampleInputs 0 1) sampleInit w =
    (w\<lparr>kvState := map_set (challengeKey sampleFp)
        (initRecord sampleCrypto (sampleInputs 0 1) sampleKey, 300000) (kvState w)\<rparr>,
     initReply sampleCrypto (sampleInputs 0 1) sampleKey)"
  using init_registry [OF REGISTRY_sample(1) sampleInit_ok sampleKey_mkey]
  by (simp add: sampleKv_def sampleFp_def)

lemma sample_challenge:
  "t < 300000 \<Longrightarrow> kvGet sampleKv (kvState sampleWorker) t (challengeKey sampleFp) =
     Some (Some (JSON_stringify (challengeRecord sampleKey sampleNonce sampleJwk 0)))"
  by (simp add: sampleWorker_def sample_init sampleKv_def js_map.get_put initRecord_def sampleNonce_def)

lemma sample_challenge_ok: "json_ok (challengeRecord sampleKey sampleNonce sampleJwk 0)"
  by (intro challengeRecord_ok) (auto simp: webcrypto_okD [OF sampleCrypto_ok] safeInteger_def)

lemma sample_fields:
  "replyField (initReply sampleCrypto (sampleInputs 0 1) sampleKey) ''fingerprint'' = Some (JStr sampleFp)"
  "replyField (initReply sampleCrypto (sampleInputs 0 1) sampleKey) ''nonce'' = Some (JStr sampleNonce)"
  "replyField (initReply sampleCrypto (sampleInputs 0 1) sampleKey) ''proxyPublicKey'' = Some (JStr samplePpk)"
  using initReply_fields [of "sampleInputs 0 1" sampleCrypto sampleKey]
  by (simp_all add: safeInteger_def sampleFp_def sampleNonce_def samplePpk_def)

lemma sample_verified:
  "resp_status (snd (handleRegisterVerify sampleCrypto sampleEnv (sampleInputs 1000 2)
     (sampleVerify sampleFp sampleProof) sampleWorker)) = 200"
  by (rule verify_registry_ok [OF sampleCrypto_ok REGISTRY_sample(1) sampleKv_ok sampleVerify_ok
        sampleFp_nonempty sample_proofFor, of sampleWorker "sampleInputs 1000 2" 0])
    (simp_all add: sample_challenge sample_challenge_ok)

lemma sample_kv:
  "\<forall>kv. REGISTRY sampleEnv = Some kv \<longrightarrow> kv_consistent kv" "\<forall>kv. REGISTRY sampleEnv = Some kv \<longrightarrow> kv_available kv"
  by (simp_all add: REGISTRY_sample sampleKv_ok)

lemma sampleWorker_ok: "map_ok (localChallenges sampleWorker)" "map_ok (localChallenges emptyWorker)"
  by (simp_all add: sampleWorker_def sample_init emptyWorker_def)

lemma sampleProof_nonempty: "sampleProof \<noteq> []"
  by (rule proof_nonempty [OF sampleCrypto_ok sample_proofFor])

subsection \<open>Properties\<close>

text \<open>
  C1. Registration is authentic under every interleaving: in any run of the three endpoints from
  an empty store, with verifications overlapping freely, a registration of a fingerprint exists
  only if the exact HMAC proof for a challenge issued earlier to a key with that fingerprint was
  submitted, or the legacy endpoint was called with such a key.
\<close>

theorem registration_authentic:
  assumes "servicesOk cr env" "list_all saneEvent es"
    and "\<forall>kv t k. REGISTRY env = Some kv \<longrightarrow> kvGet kv kv0 t k = Some None"
    and "w = rs_worker (fst (run (regStep cr env) (regStart kv0) es))"
    and "map_get (localRegistrations w) fp \<noteq> None \<or>
      (\<exists>kv t d. REGISTRY env = Some kv \<and> kvGet kv (kvState w) t (tunnelKey fp) = Some (Some d))"
  shows "proofSubmitted cr es fp \<or> legacyRegistered cr es fp"
proof -
  have "tunnelsInv cr env es w"
    using regInv_run [OF assms(1,2)] assms(3,4) by (simp add: regInv_def)
  then show ?thesis using assms(5) unfolding tunnelsInv_def by blast
qed

theorem registration_authentic_witness:
  "proofSubmitted sampleCrypto sampleRun sampleFp \<or> legacyRegistered sampleCrypto sampleRun sampleFp"
  by (rule registration_authentic [OF sampleServices(2) _ _ refl, where ?kv0.0 = "[]"])
    (simp_all add: sampleRun_registers, simp_all add: sampleRun_def sampleTimes localEnv_def)





text \<open>
  C28. A challenge lives five minutes: a verification that starts more than 300000 ms after the
  init call stored the challenge is refused as expired, whatever its proof, and changes no
  registration.
\<close>

theorem challenge_expires:
  assumes "\<forall>kv. REGISTRY env = Some kv \<longrightarrow> kv_consistent kv" "map_ok (localChallenges w)"
    and "initRequest req pk" "handleRegisterInit cr env inp req w = (w1, r1)" "resp_status r1 = 200"
    and "verifyRequest req' f p" "truthy (Some f)" "truthy (Some p)" "toStringJ f = Some (computeFingerprint cr pk)"
    and "now inp 0 + 300000 < now inp' 0" "now inp 1 + 300000 \<le> now inp' 0"
    and "handleRegisterVerify cr env inp' req' w1 = (w2, r2)"
  shows "r2 = challengeMissing \<and> kvState w2 = kvState w1 \<and> localRegistrations w2 = localRegistrations w1"
proof -
  have "challengeAbsent env inp' (computeFingerprint cr pk) w1"
  proof (cases cr env inp req w rule: init_cases)
    case rejected
    then show ?thesis using assms(4,5) by simp
  next
    case (local pk')
    then have "pk' = pk" using assms(3) by (simp add: initRequest_def)
    then show ?thesis
      using local assms(2,4,10)
      by (simp add: challengeAbsent_def js_map.get_put js_map.invar_put issuedChallenge_def)
  next
    case (registry kv pk' s)
    then have "pk' = pk" using assms(3) by (simp add: initRequest_def)
    then show ?thesis
      using registry assms(1,4,11) kv_put_get(2) [OF _ registry(4)] by (simp add: challengeAbsent_def)
  qed
  from verify_absent [OF this assms(6-9,12)] show ?thesis .
qed

theorem challenge_expires_witness:
  "snd (handleRegisterVerify sampleCrypto sampleEnv (sampleInputs 300001 2) (sampleVerify sampleFp sampleProof)
     sampleWorker) = challengeMissing"
  using challenge_expires [OF sample_kv(1) sampleWorker_ok(2) sampleInit_ok surjective_pairing _
      sampleVerify_ok _ _ _ _ _ surjective_pairing,
      of sampleCrypto "sampleInputs 0 1" sampleFp sampleProof "sampleInputs 300001 2"]
  by (simp add: sampleFp_nonempty sampleProof_nonempty sample_init sampleWorker_def initReply_def
      flip: sampleFp_def)



text \<open>
  Without a KV namespace the same exchange registers the sidecar in the worker's memory, as
  long as the verification starts within five minutes of the init call.
\<close>

theorem registration_complete_local:
  assumes "webcrypto_ok cr" "REGISTRY env = None" "map_ok (localChallenges w)"
    and "initRequest req1 (sidecarKey cr sk)" "handleRegisterInit cr env inp1 req1 w = (w1, r1)"
    and "safeInteger (now inp1 0 + 300000)"
    and "replyField r1 ''fingerprint'' = Some (JStr fp)" "replyField r1 ''nonce'' = Some (JStr nonce)"
    and "replyField r1 ''proxyPublicKey'' = Some (JStr ppk)" "sidecarProof cr sk nonce ppk = Some p"
    and "verifyRequest req2 (JStr fp) (JStr p)"
    and "now inp2 0 \<le> now inp1 0 + 300000" "now inp2 1 \<le> now inp1 0 + 300000"
    and "handleRegisterVerify cr env inp2 req2 w1 = (w2, r2)"
  shows "r2 = tunnelReply req2 (JStr fp) fp (generateSecret (rnd inp2)) \<and> resp_status r2 = 200 \<and>
    map_get (localRegistrations w2) fp =
      Some \<lparr>reg_publicKey = sidecarKey cr sk, reg_secret = generateSecret (rnd inp2)\<rparr> \<and>
    map_get (localChallenges w2) fp = None"
proof -
  let ?c = "issuedChallenge cr inp1 (sidecarKey cr sk)"
  have r1: "w1 = w\<lparr>localChallenges := map_set (computeFingerprint cr (sidecarKey cr sk)) ?c (localChallenges w)\<rparr>"
      "r1 = initReply cr inp1 (sidecarKey cr sk)"
    using init_local [OF assms(2,4) sidecarKey_mkey, of cr inp1 w] assms(5) by auto
  have f: "fp = computeFingerprint cr (sidecarKey cr sk)" "nonce = generateNonce (rnd inp1)"
      "ppk = bufferToHex (x25519Public cr (ephemeral inp1))"
    using initReply_fields [OF assms(6), of cr "sidecarKey cr sk"] assms(7-9) r1 by auto
  have p: "proofFor cr (ch_publicKey ?c) (ch_nonce ?c) (ch_ephemeralPrivateKeyJwk ?c) = Some p"
    using proofFor_sidecar [OF assms(1)] assms(10) f by (simp add: issuedChallenge_def)
  have ok: "map_ok (localChallenges w1)" and g: "map_get (localChallenges w1) fp = Some ?c"
    using r1 f assms(3) by (simp_all add: js_map.get_put js_map.invar_put)
  have ne: "fp \<noteq> []" using f fingerprint_nonempty [OF assms(1)] by simp
  have "now inp2 0 \<le> ch_expiresAt ?c" "now inp2 1 \<le> ch_expiresAt ?c"
    using assms(12,13) by (simp_all add: issuedChallenge_def)
  from verify_local_ok [OF assms(1,2,11) ne ok g p this] assms(14) show ?thesis
    by (metis issuedChallenge_def challenge.select_convs(1) prod.inject resp_status_simps(6))
qed

theorem registration_complete_local_witness:
  "resp_status (snd (handleRegisterVerify sampleCrypto localEnv (sampleInputs 1000 2)
     (sampleVerify sampleFp sampleProof)
     (fst (handleRegisterInit sampleCrypto localEnv (sampleInputs 0 1) sampleInit emptyWorker)))) = 200"
  using registration_complete_local [OF sampleCrypto_ok REGISTRY_sample(2) sampleWorker_ok(2),
      of sampleInit "replicate 32 0" "sampleInputs 0 1" _ _ sampleFp sampleNonce samplePpk sampleProof,
      OF _ surjective_pairing _ _ _ _ _ _ _ _ surjective_pairing,
      of "sampleVerify sampleFp sampleProof" "sampleInputs 1000 2"]
    init_local [OF REGISTRY_sample(2) sampleInit_ok sampleKey_mkey, of sampleCrypto "sampleInputs 0 1" emptyWorker]
  by (simp add: sampleKey_sidecarKey sampleInit_ok sample_fields sampleProof_eq sampleVerify_ok safeInteger_def)

text \<open>
  A second init for the same machine key takes effect at once: after every init call that
  returns 200 the stored challenge is the one of that call, so a challenge still in flight is
  replaced (docs/REGISTRATION.md has a concurrent init answered with 409).
\<close>

theorem init_replaces_challenge:
  assumes "initRequest req pk" "startsWith pk (js ''mkey:'')" "resp_status (snd (handleRegisterInit cr env inp req w)) = 200"
    and "\<forall>kv. REGISTRY env = Some kv \<longrightarrow> kv_consistent kv"
  shows "case REGISTRY env of
      None \<Rightarrow> map_get (localChallenges (fst (handleRegisterInit cr env inp req w))) (computeFingerprint cr pk) =
        Some (issuedChallenge cr inp pk)
    | Some kv \<Rightarrow> \<forall>t. t < now inp 1 + 300000 \<longrightarrow>
        kvGet kv (kvState (fst (handleRegisterInit cr env inp req w))) t (challengeKey (computeFingerprint cr pk)) =
        Some (Some (initRecord cr inp pk))"
proof (cases "REGISTRY env")
  case None
  then show ?thesis using init_local [OF None assms(1,2), of cr inp w] by (simp add: js_map.get_put)
next
  case (Some kv)
  show ?thesis
  proof (cases "kvPut kv (kvState w) (now inp 1) (challengeKey (computeFingerprint cr pk)) (initRecord cr inp pk) 300")
    case None
    then show ?thesis using init_registry [OF Some assms(1,2), of cr inp w] assms(3) by simp
  next
    case put: (Some s)
    then show ?thesis
      using init_registry [OF Some assms(1,2), of cr inp w] kv_put_get(1) [OF _ put] Some assms(4) by simp
  qed
qed

theorem init_replaces_challenge_witness:
  "kvGet sampleKv (kvState (fst (handleRegisterInit sampleCrypto sampleEnv (sampleInputs 0 1) sampleInit sampleWorker)))
     7 (challengeKey (computeFingerprint sampleCrypto sampleKey)) =
   Some (Some (initRecord sampleCrypto (sampleInputs 0 1) sampleKey))"
  using init_replaces_challenge [OF sampleInit_ok sampleKey_mkey _ sample_kv(1), of sampleCrypto "sampleInputs 0 1" sampleWorker]
  by (simp add: sample_init REGISTRY_sample initReply_def)



text \<open>
  The legacy endpoint asks for no proof: whoever posts a public key gets the shared
  \<open>TUNNEL_SECRET\<close> for its fingerprint and replaces the registration that was stored, also one made
  by a verified sidecar.
\<close>

theorem legacy_unauthenticated:
  assumes "REGISTRY env = Some kv" "kv_consistent kv" "kv_available kv"
    and "legacyRequest req (JStr pk)" "pk \<noteq> []"
    and "handleRegister cr env inp req w = (w', r)"
  shows "r = tunnelReply req (JStr (computeFingerprint cr pk)) (computeFingerprint cr pk) (TUNNEL_SECRET env) \<and>
    (\<forall>t. t < now inp 0 + 1000 * oneYear \<longrightarrow>
       kvGet kv (kvState w') t (tunnelKey (computeFingerprint cr pk)) =
       Some (Some (JSON_stringify (registrationRecord (Some (JStr pk)) (TUNNEL_SECRET env) (now inp 0)))))"
proof -
  obtain s where s: "kvPut kv (kvState w) (now inp 0) (tunnelKey (computeFingerprint cr pk))
      (JSON_stringify (registrationRecord (Some (JStr pk)) (TUNNEL_SECRET env) (now inp 0))) oneYear = Some s"
    using kv_availableD(1) [OF assms(3)] by blast
  then have "handleRegister cr env inp req w = (w\<lparr>kvState := s\<rparr>,
      tunnelReply req (JStr (computeFingerprint cr pk)) (computeFingerprint cr pk) (TUNNEL_SECRET env))"
    using assms(1,4,5) by (simp add: handleRegister_def legacyRequest_def Let_def)
  then show ?thesis using assms(6) kv_put_get(1) [OF assms(2) s] by simp
qed

theorem legacy_unauthenticated_witness:
  "kvGet sampleKv (kvState (fst (handleRegister sampleCrypto sampleEnv (sampleInputs 5 1) sampleLegacy sampleWorker)))
     9 (tunnelKey (computeFingerprint sampleCrypto sampleKey)) =
   Some (Some (JSON_stringify (registrationRecord (Some (JStr sampleKey)) (js ''shared'') 5)))"
  using legacy_unauthenticated [OF REGISTRY_sample(1) sampleKv_ok sampleLegacy_ok _ surjective_pairing,
      of sampleCrypto "sampleInputs 5 1" sampleWorker]
  by (simp add: sampleKey_def oneYear_def sampleEnv_def)



end
