(* ===== verification/Router.thy ===== *)
theory Router
  imports Samples
begin

text \<open>
  The entry point of the worker (headfwd-proxy/src/index.ts, \<open>fetch\<close>) and the landing page. A
  request is answered by the worker itself or handed to the Durable Object of a name
  (\<open>env.TUNNELS.get(env.TUNNELS.idFromName(name)).fetch(request)\<close>).
\<close>

definition getLandingPage :: jsstring where
  "getLandingPage = trim (intercalate [0xA]
      [[],
       js ''<!DOCTYPE html>'',
       js ''<html>'',
       js ''<head>'',
       js ''  <meta charset='' @ [0x22] @ js ''UTF-8'' @ [0x22] @ js ''>'',
       js ''  <title>HeadFwd - Decentralized Remote Access</title>'',
       js ''  <style>'',
       js ''    body {'',
       js ''      font-family: -apple-system, sans-serif;'',
       js ''      background: linear-gradient(135deg, #667eea 0%, #764ba2 100%);'',
       js ''      color: white;'',
       js ''      height: 100vh;'',
       js ''      display: flex;'',
       js ''      align-items: center;'',
       js ''      justify-content: center;'',
       js ''      margin: 0;'',
       js ''      padding: 20px;'',
       js ''    }'',
       js ''    .container { max-width: 600px; text-align: center; }'',
       js ''    h1 { font-size: 3rem; margin-bottom: 1rem; }'',
       js ''    p { font-size: 1.2rem; line-height: 1.6; opacity: 0.9; }'',
       js ''  </style>'',
       js ''</head>'',
       js ''<body>'',
       js ''  <div class='' @ [0x22] @ js ''container'' @ [0x22] @ js ''>'',
       js ''    <h1>'' @ [0xD83D, 0xDD10] @ js '' HeadFwd</h1>'',
       js ''    <p>Reverse tunnel proxy for self-hosted Headscale instances</p>'',
       js ''    <p>Access your mesh network from anywhere, even behind NAT</p>'',
       js ''  </div>'',
       js ''</body>'',
       js ''</html>'',
       js ''  ''])"

datatype route = Reply http_response | ToTunnel jsstring

definition landingResponse :: http_response where
  "landingResponse =
     \<lparr>resp_status = 200, resp_headers = [(js ''Content-Type'', js ''text/html'')],
      resp_body = TextBody getLandingPage, resp_webSocket = None\<rparr>"

definition workerFetch ::
  "webcrypto \<Rightarrow> 's env \<Rightarrow> inputs \<Rightarrow> http_request \<Rightarrow> 's worker \<Rightarrow> 's worker \<times> route" where
  "workerFetch cr env inp req w =
     (let path = pathname (req_url req); host = hostname (req_url req);
          post = (req_method req = js ''POST'')
      in if path = js ''/health'' then (w, Reply (textResponse 200 ''OK''))
         else if path = js ''/api/register/init'' \<and> post
         then map_prod id Reply (handleRegisterInit cr env inp req w)
         else if path = js ''/api/register/verify'' \<and> post
         then map_prod id Reply (handleRegisterVerify cr env inp req w)
         else if path = js ''/api/register'' \<and> post
         then map_prod id Reply (handleRegister cr env inp req w)
         else if host = js ''localhost'' \<or> host = js ''127.0.0.1''
         then (w, ToTunnel (js ''local-dev''))
         else case extractFingerprint host of
           None \<Rightarrow>
             (w, Reply (if host = js ''headfwd.net'' then landingResponse
                        else textResponse 400 ''Invalid subdomain. Expected: <fingerprint>.headfwd.net''))
         | Some fingerprint \<Rightarrow> (w, ToTunnel fingerprint))"

subsection \<open>Which requests reach a tunnel\<close>

definition localHost :: "jsstring \<Rightarrow> bool" where
  "localHost host \<longleftrightarrow> host = js ''localhost'' \<or> host = js ''127.0.0.1''"

definition reserved :: "http_request \<Rightarrow> bool" where
  "reserved req \<longleftrightarrow>
     pathname (req_url req) = js ''/health'' \<or>
     req_method req = js ''POST'' \<and>
       pathname (req_url req) \<in> {js ''/api/register/init'', js ''/api/register/verify'', js ''/api/register''}"

lemma extractFingerprint_length: "extractFingerprint h = Some f \<Longrightarrow> length h = 44"
  by (auto simp: extractFingerprint_def split: if_splits)

lemma extractFingerprint_not_local: "extractFingerprint h = Some f \<Longrightarrow> \<not> localHost h"
  by (auto simp: localHost_def dest: extractFingerprint_length)

lemma fetch_reserved: "reserved req \<Longrightarrow> \<exists>r. snd (workerFetch cr env inp req w) = Reply r"
  by (auto simp: workerFetch_def reserved_def Let_def)

lemma fetch_not_reserved:
  "\<not> reserved req \<Longrightarrow> workerFetch cr env inp req w =
     (w, if localHost (hostname (req_url req)) then ToTunnel (js ''local-dev'')
         else case extractFingerprint (hostname (req_url req)) of
           Some fp \<Rightarrow> ToTunnel fp
         | None \<Rightarrow> Reply (if hostname (req_url req) = js ''headfwd.net'' then landingResponse
             else textResponse 400 ''Invalid subdomain. Expected: <fingerprint>.headfwd.net''))"
proof -
  assume "\<not> reserved req"
  then have n: "pathname (req_url req) \<noteq> js ''/health''"
      "\<not> (pathname (req_url req) = js ''/api/register/init'' \<and> req_method req = js ''POST'')"
      "\<not> (pathname (req_url req) = js ''/api/register/verify'' \<and> req_method req = js ''POST'')"
      "\<not> (pathname (req_url req) = js ''/api/register'' \<and> req_method req = js ''POST'')"
    unfolding reserved_def by blast+
  show ?thesis
    unfolding workerFetch_def Let_def if_not_P [OF n(1)] if_not_P [OF n(2)] if_not_P [OF n(3)] if_not_P [OF n(4)] localHost_def
    by (simp split: option.split)
qed

text \<open>
  C30. The router hands a request to the Durable Object of a name exactly when the path is not one
  of the worker's own endpoints and the name is the lower-case fingerprint of the host name (or
  \<open>local-dev\<close> on the loopback hosts); handing a request on changes no state of the worker.
\<close>

theorem router_spec:
  "workerFetch cr env inp req w = (w', ToTunnel name) \<longleftrightarrow>
     w' = w \<and> \<not> reserved req \<and>
     (localHost (hostname (req_url req)) \<and> name = js ''local-dev'' \<or>
      extractFingerprint (hostname (req_url req)) = Some name)"
proof (cases "reserved req")
  case True
  then show ?thesis using fetch_reserved [OF True, of cr env inp w] by auto
next
  case False
  then show ?thesis
    by (auto simp: fetch_not_reserved dest: extractFingerprint_not_local split: option.split)
qed


definition sampleClient :: http_request where
  "sampleClient =
     \<lparr>req_method = js ''GET'',
      req_url = \<lparr>href = [], hostname = computeFingerprint sampleCrypto sampleKey @ js ''.headfwd.net'',
                 pathname = js ''/key'', searchParams = []\<rparr>,
      req_headers = [], req_body = None\<rparr>"


end
