(* ===== verification/Base64.thy ===== *)
theory Base64
  imports Prelude
begin

text \<open>
  Binary payloads of the tunnel: \<open>toBase64\<close> and \<open>fromBase64\<close> of headfwd-proxy/src/tunnel-do.ts,
  over \<open>btoa\<close> and \<open>atob\<close> of the platform (the forgiving-base64 algorithms of the WHATWG Infra
  standard, which both calls are specified by). Lemmas: the chunked loop of \<open>toBase64\<close> copies the
  whole array whatever its length, \<open>btoa\<close> never fails on its result, and \<open>fromBase64\<close> undoes it.
\<close>

definition b64char :: "nat \<Rightarrow> jschar" where
  "b64char n =
     (if n < 26 then of_nat (65 + n) else if n < 52 then of_nat (71 + n)
      else if n < 62 then of_nat (n - 4) else if n = 62 then 43 else 47)"

definition b64val :: "jschar \<Rightarrow> nat option" where
  "b64val c =
     (let n = unat c in
      if 65 \<le> n \<and> n \<le> 90 then Some (n - 65)
      else if 97 \<le> n \<and> n \<le> 122 then Some (n - 71)
      else if 48 \<le> n \<and> n \<le> 57 then Some (n + 4)
      else if n = 43 then Some 62 else if n = 47 then Some 63 else None)"

definition padChar :: jschar where
  "padChar = 0x3D"

fun b64groups :: "nat list \<Rightarrow> jsstring" where
  "b64groups [] = []"
| "b64groups [a] = [b64char (a div 4), b64char (a mod 4 * 16), padChar, padChar]"
| "b64groups [a, b] =
     [b64char (a div 4), b64char (a mod 4 * 16 + b div 16), b64char (b mod 16 * 4), padChar]"
| "b64groups (a # b # c # r) =
     [b64char (a div 4), b64char (a mod 4 * 16 + b div 16), b64char (b mod 16 * 4 + c div 64),
      b64char (c mod 64)] @ b64groups r"

text \<open>\<open>btoa\<close> throws on a code unit above 255.\<close>

definition btoa :: "jsstring \<Rightarrow> jsstring option" where
  "btoa s = (if list_all (\<lambda>c. unat c < 256) s then Some (b64groups (map unat s)) else None)"

fun b64bytes :: "nat list \<Rightarrow> nat list" where
  "b64bytes (w # x # y # z # r) =
     (w * 4 + x div 16) # (x mod 16 * 16 + y div 4) # (y mod 4 * 64 + z) # b64bytes r"
| "b64bytes [w, x, y] = [w * 4 + x div 16, x mod 16 * 16 + y div 4]"
| "b64bytes [w, x] = [w * 4 + x div 16]"
| "b64bytes _ = []"

definition asciiSpace :: "jschar \<Rightarrow> bool" where
  "asciiSpace c \<longleftrightarrow> unat c \<in> {0x9, 0xA, 0xC, 0xD, 0x20}"

definition stripPad :: "jsstring \<Rightarrow> jsstring" where
  "stripPad s =
     (if length s mod 4 = 0 \<and> s \<noteq> [] \<and> last s = padChar
      then (let t = butlast s in if t \<noteq> [] \<and> last t = padChar then butlast t else t)
      else s)"

text \<open>\<open>atob\<close>; \<open>None\<close> is the exception.\<close>

definition atob :: "jsstring \<Rightarrow> jsstring option" where
  "atob s =
     (let t = stripPad (filter (\<lambda>c. \<not> asciiSpace c) s) in
      if length t mod 4 = 1 \<or> list_ex (\<lambda>c. b64val c = None) t then None
      else Some (map of_nat (b64bytes (map (\<lambda>c. the (b64val c)) t))))"

subsection \<open>The functions of the source\<close>

definition chunkSize :: nat where
  "chunkSize = 0x8000"

text \<open>The loop of \<open>toBase64\<close>: chunks are copied with \<open>String.fromCharCode(...chunk)\<close>.\<close>

function toBinary :: "bytes \<Rightarrow> nat \<Rightarrow> jsstring \<Rightarrow> jsstring" where
  "toBinary bytes i binary =
     (if i < length bytes
      then toBinary bytes (i + chunkSize) (binary @ map ucast (take chunkSize (drop i bytes)))
      else binary)"
  by pat_completeness auto
termination
  by (relation "measure (\<lambda>(bytes, i, binary). length bytes - i)") (auto simp: chunkSize_def)

declare toBinary.simps [simp del]

definition toBase64 :: "bytes \<Rightarrow> jsstring option" where
  "toBase64 bytes = btoa (toBinary bytes 0 [])"

definition fromBase64 :: "jsstring \<Rightarrow> bytes option" where
  "fromBase64 b64 =
     (case atob b64 of None \<Rightarrow> None
      | Some binary \<Rightarrow> Some (map (\<lambda>i. ucast (binary ! i)) [0..<length binary]))"

subsection \<open>The loop\<close>

lemma toBinary_eq: "toBinary bytes i binary = binary @ map ucast (drop i bytes)"
proof (induction bytes i binary rule: toBinary.induct)
  case (1 bytes i binary)
  show ?case
  proof (cases "i < length bytes")
    case True
    have "take chunkSize (drop i bytes) @ drop (i + chunkSize) bytes = drop i bytes"
      by (metis add.commute append_take_drop_id drop_drop)
    with True 1 show ?thesis
      by (simp add: toBinary.simps [of bytes i] flip: map_append)
  next
    case False
    then show ?thesis by (simp add: toBinary.simps [of bytes i])
  qed
qed

lemma unat_byte_ucast: "unat (ucast (b :: byte) :: jschar) = unat b"
  using unsigned_less [of b, where ?'a = nat]
  by (simp add: unsigned_ucast_eq take_bit_nat_eq_self)

definition base64 :: "bytes \<Rightarrow> jsstring" where
  "base64 bs = b64groups (map unat bs)"

lemma toBase64_eq [simp]: "toBase64 bs = Some (base64 bs)"
  by (auto simp: toBase64_def btoa_def toBinary_eq base64_def unat_byte_ucast comp_def list_all_iff
      intro: unsigned_less [THEN less_le_trans])

subsection \<open>Round trip\<close>

fun sextets :: "nat list \<Rightarrow> nat list" where
  "sextets [] = []"
| "sextets [a] = [a div 4, a mod 4 * 16]"
| "sextets [a, b] = [a div 4, a mod 4 * 16 + b div 16, b mod 16 * 4]"
| "sextets (a # b # c # r) =
     [a div 4, a mod 4 * 16 + b div 16, b mod 16 * 4 + c div 64, c mod 64] @ sextets r"

fun padding :: "nat list \<Rightarrow> nat" where
  "padding [] = 0"
| "padding [a] = 2"
| "padding [a, b] = 1"
| "padding (a # b # c # r) = padding r"

lemma b64groups_sextets: "b64groups ns = map b64char (sextets ns) @ replicate (padding ns) padChar"
  by (induction ns rule: b64groups.induct) (simp_all add: numeral_2_eq_2)

lemma sextet_bounds:
  fixes a b c :: nat
  shows "a < 256 \<Longrightarrow> a div 4 < 64" and "a mod 4 * 16 < 64"
    and "b < 256 \<Longrightarrow> a mod 4 * 16 + b div 16 < 64" and "b mod 16 * 4 < 64"
    and "c < 256 \<Longrightarrow> b mod 16 * 4 + c div 64 < 64"
proof -
  have m: "a mod 4 < 4" "b mod 16 < 16" by simp_all
  then show "a mod 4 * 16 < 64" "b mod 16 * 4 < 64" by linarith+
  show "a < 256 \<Longrightarrow> a div 4 < 64" by (simp add: less_mult_imp_div_less)
  have "b div 16 < 16" if "b < 256" using that by (simp add: less_mult_imp_div_less)
  with m show "b < 256 \<Longrightarrow> a mod 4 * 16 + b div 16 < 64" by linarith
  have "c div 64 < 4" if "c < 256" using that by (simp add: less_mult_imp_div_less)
  with m show "c < 256 \<Longrightarrow> b mod 16 * 4 + c div 64 < 64" by linarith
qed

lemma sextets_less: "\<forall>n\<in>set ns. n < 256 \<Longrightarrow> \<forall>n\<in>set (sextets ns). n < 64"
  by (induction ns rule: sextets.induct) (simp_all add: sextet_bounds)

lemma b64bytes_sextets: "\<forall>n\<in>set ns. n < 256 \<Longrightarrow> b64bytes (sextets ns) = ns"
  by (induction ns rule: sextets.induct) auto

lemma length_sextets: "(length (sextets ns) + padding ns) mod 4 = 0" "length (sextets ns) mod 4 \<noteq> 1"
  by (induction ns rule: sextets.induct) (simp_all add: mod_Suc)

lemma unat_b64char:
  assumes "n < 64"
  shows "unat (b64char n) =
    (if n < 26 then 65 + n else if n < 52 then 71 + n else if n < 62 then n - 4
     else if n = 62 then 43 else 47)"
  using assms by (simp add: b64char_def unat_of_nat del: of_nat_add of_nat_diff)

lemma b64val_b64char: "n < 64 \<Longrightarrow> b64val (b64char n) = Some n"
  by (auto simp: b64val_def unat_b64char Let_def)

lemma b64char_plain: "n < 64 \<Longrightarrow> \<not> asciiSpace (b64char n)" "n < 64 \<Longrightarrow> b64char n \<noteq> padChar"
  using unat_b64char [of n] by (auto simp: asciiSpace_def padChar_def word_unat_eq_iff split: if_splits)

lemma stripPad_padded:
  assumes "padChar \<notin> set s" "(length s + p) mod 4 = 0" "p < 3"
  shows "stripPad (s @ replicate p padChar) = s"
proof -
  consider "p = 0" | "p = 1" | "p = 2" using assms(3) by linarith
  then show ?thesis
  proof cases
    case 1
    with assms show ?thesis by (auto simp: stripPad_def dest: last_in_set)
  next
    case 2
    with assms show ?thesis by (auto simp: stripPad_def butlast_append dest: last_in_set)
  next
    case 3
    with assms show ?thesis
      by (simp add: stripPad_def butlast_append numeral_2_eq_2)
  qed
qed

lemma padding_less: "padding ns < 3"
  by (induction ns rule: padding.induct) simp_all

lemma atob_b64groups:
  assumes "\<forall>n\<in>set ns. n < 256"
  shows "atob (b64groups ns) = Some (map of_nat ns)"
proof -
  let ?s = "map b64char (sextets ns)"
  have sx: "n < 64" if "n \<in> set (sextets ns)" for n
    using sextets_less [OF assms] that by blast
  have "filter (\<lambda>c. \<not> asciiSpace c) (b64groups ns) = ?s @ replicate (padding ns) padChar"
    using sx b64char_plain(1)
    by (auto simp: b64groups_sextets filter_id_conv asciiSpace_def padChar_def)
  moreover have "stripPad (?s @ replicate (padding ns) padChar) = ?s"
    using sx b64char_plain(2) length_sextets(1) [of ns] padding_less
    by (intro stripPad_padded) (auto, metis)
  moreover have "list_all (\<lambda>c. b64val c \<noteq> None) ?s"
    using sx by (auto simp: list_all_iff b64val_b64char)
  moreover have "map (\<lambda>c. the (b64val c)) ?s = sextets ns"
    using sx by (auto simp: b64val_b64char intro: map_idI)
  ultimately show ?thesis
    using length_sextets(2) [of ns] b64bytes_sextets [OF assms]
    by (auto simp: atob_def Let_def list_ex_iff list_all_iff)
qed

lemma ucast_byte: "ucast (ucast (b :: byte) :: jschar) = b"
  using unsigned_less [of b, where ?'a = nat]
  by (simp add: word_unat_eq_iff unsigned_ucast_eq take_bit_word_eq_self)

lemma fromBase64_base64: "fromBase64 (base64 bs) = Some bs"
proof -
  have "atob (base64 bs) = Some (map of_nat (map unat bs))"
    unfolding base64_def
    by (rule atob_b64groups) (auto intro: unsigned_less [THEN less_le_trans])
  then show ?thesis
    by (auto simp: fromBase64_def ucast_byte intro!: nth_equalityI)
qed

interpretation base64: codec base64 fromBase64 "\<lambda>_. True"
  by unfold_locales (simp add: fromBase64_base64)

text \<open>
  C33. A binary payload survives the tunnel's text encoding: \<open>toBase64\<close> never throws, whatever the
  length of the array (the loop copies it in chunks of 0x8000), and \<open>fromBase64\<close> gives it back.
\<close>

theorem base64_roundtrip:
  "\<exists>s. toBase64 bytes = Some s \<and> fromBase64 s = Some bytes"
  by (simp add: fromBase64_base64)

end
