(* ===== verification/Tunnel.thy ===== *)
theory Tunnel
  imports Identity Base64 Registration
begin

text \<open>
  The Durable Object \<open>HeadscaleTunnel\<close> (headfwd-proxy/src/tunnel-do.ts) and the messages it
  exchanges with the sidecar (headfwd-proxy/src/types.ts).

  The object's three fields are \<open>tunnel\<close>, \<open>pendingRequests\<close> and \<open>wsConnections\<close>; the other
  fields of \<open>do_state\<close> are what the runtime keeps for it: armed timers, registered event listeners,
  and handlers that are suspended at an \<open>await\<close> of a body. Every call of \<open>fetch\<close> gets a number,
  which names its promise and the timer or the server end of the socket pair it creates. A handler
  gives the new state and the effects in order: frames sent, sockets closed, promises settled.

  Parameters that are not code of the repository: the \<open>Response\<close> constructor and the argument check
  of \<open>WebSocket.close\<close> (\<open>fetch_api\<close>), and per event the clock, the UUID drawn, the KV namespace as
  read at that time and which sockets accept a frame (\<open>do_inputs\<close>).
\<close>

subsection \<open>Messages\<close>

record tunnel_request =
  tq_id :: jsstring
  tq_method :: jsstring
  tq_url :: jsstring
  tq_headers :: "(jsstring \<times> jsstring) list"
  tq_body :: "jsstring option"
  tq_isBinary :: "bool option"

record tunnel_response =
  tr_id :: jsstring
  tr_status :: int
  tr_headers :: "(jsstring \<times> jsstring) list"
  tr_body :: "jsstring option"
  tr_isBinary :: "bool option"

record ws_open =
  wo_id :: jsstring
  wo_method :: jsstring
  wo_url :: jsstring
  wo_headers :: "(jsstring \<times> jsstring) list"

record ws_data =
  wd_id :: jsstring
  wd_data :: jsstring
  wd_isBinary :: bool

record ws_close =
  wc_id :: jsstring
  wc_code :: "int option"
  wc_reason :: "jsstring option"

datatype tunnel_message =
    Request tunnel_request
  | Response tunnel_response
  | Ping
  | Pong
  | WsOpen ws_open
  | WsData ws_data
  | WsClose ws_close

text \<open>\<open>Object.fromEntries(headers)\<close>, and a \<open>Record<string, string>\<close> as JSON.\<close>

definition headersObject :: "(jsstring \<times> jsstring) list \<Rightarrow> json" where
  "headersObject hs = mkObj (map (\<lambda>(k, v). (k, JStr v)) hs)"

fun messageData :: "tunnel_message \<Rightarrow> json option" where
  "messageData (Request q) = Some (objLit
     [(''id'', Some (JStr (tq_id q))), (''method'', Some (JStr (tq_method q))),
      (''url'', Some (JStr (tq_url q))), (''headers'', Some (headersObject (tq_headers q))),
      (''body'', map_option JStr (tq_body q)), (''isBinary'', map_option JBool (tq_isBinary q))])"
| "messageData (Response r) = Some (objLit
     [(''id'', Some (JStr (tr_id r))), (''status'', Some (JInt (tr_status r))),
      (''headers'', Some (headersObject (tr_headers r))),
      (''body'', map_option JStr (tr_body r)), (''isBinary'', map_option JBool (tr_isBinary r))])"
| "messageData (WsOpen w) = Some (objLit
     [(''id'', Some (JStr (wo_id w))), (''method'', Some (JStr (wo_method w))),
      (''url'', Some (JStr (wo_url w))), (''headers'', Some (headersObject (wo_headers w)))])"
| "messageData (WsData w) = Some (objLit
     [(''id'', Some (JStr (wd_id w))), (''data'', Some (JStr (wd_data w))),
      (''isBinary'', Some (JBool (wd_isBinary w)))])"
| "messageData (WsClose w) = Some (objLit
     [(''id'', Some (JStr (wc_id w))), (''code'', map_option JInt (wc_code w)),
      (''reason'', map_option JStr (wc_reason w))])"
| "messageData Ping = None"
| "messageData Pong = None"

fun messageType :: "tunnel_message \<Rightarrow> string" where
  "messageType (Request _) = ''request''"
| "messageType (Response _) = ''response''"
| "messageType Ping = ''ping''"
| "messageType Pong = ''pong''"
| "messageType (WsOpen _) = ''ws_open''"
| "messageType (WsData _) = ''ws_data''"
| "messageType (WsClose _) = ''ws_close''"

definition messageJson :: "tunnel_message \<Rightarrow> json" where
  "messageJson m = objLit [(''type'', Some (JStr (js (messageType m)))), (''data'', messageData m)]"

definition messageText :: "tunnel_message \<Rightarrow> jsstring" where
  "messageText m = JSON_stringify (messageJson m)"

subsection \<open>State, inputs and effects\<close>

record pending =
  pd_promise :: nat
  pd_timeout :: nat

record timer =
  tm_deadline :: int
  tm_requestId :: jsstring
  tm_promise :: nat

datatype listener = TunnelListener | ClientListener jsstring

record forward_context =
  fc_promise :: nat
  fc_requestId :: jsstring
  fc_request :: http_request

record do_state =
  tunnel :: "nat option"
  pendingRequests :: "(jsstring, pending) jsmap"
  wsConnections :: "(jsstring, nat) jsmap"
  do_timers :: "(nat, timer) jsmap"
  do_listeners :: "(nat, listener) jsmap"
  do_bodies :: "forward_context list"
  do_blobs :: "(jsstring \<times> bytes) list"
  do_next :: nat

definition newTunnel :: do_state where
  "newTunnel =
     \<lparr>tunnel = None, pendingRequests = [], wsConnections = [], do_timers = [], do_listeners = [],
      do_bodies = [], do_blobs = [], do_next = 0\<rparr>"

record do_inputs =
  di_now :: int
  di_uuid :: jsstring
  di_registry :: "(jsstring \<Rightarrow> jsstring option option) option"
  di_open :: "nat \<Rightarrow> bool"

datatype init_body = InitNull | InitValue json | InitBytes bytes

record fetch_api =
  newResponse :: "init_body \<Rightarrow> json option \<Rightarrow> json option \<Rightarrow> http_response option"
  closeArgsOk :: "json option \<Rightarrow> json option \<Rightarrow> bool"

datatype frame = TextFrame jsstring | BufferFrame bytes | BlobFrame bytes

datatype failure = RequestTimeout | TunnelClosed | SendFailed | HandlerThrew

datatype outcome = Resolved http_response | Rejected failure

datatype effect =
    Send nat frame
  | CloseSocket nat "json option" "json option"
  | Settle nat outcome

subsection \<open>Runtime calls\<close>

definition setTimeout :: "nat \<Rightarrow> timer \<Rightarrow> do_state \<Rightarrow> do_state" where
  "setTimeout h t s = s\<lparr>do_timers := map_set h t (do_timers s)\<rparr>"

definition clearTimeout :: "nat \<Rightarrow> do_state \<Rightarrow> do_state" where
  "clearTimeout h s = s\<lparr>do_timers := map_delete h (do_timers s)\<rparr>"

definition addListener :: "nat \<Rightarrow> listener \<Rightarrow> do_state \<Rightarrow> do_state" where
  "addListener sock l s = s\<lparr>do_listeners := map_set sock l (do_listeners s)\<rparr>"

text \<open>\<open>ws.send(frame)\<close> throws on a socket that does not accept frames, and on \<open>null\<close>.\<close>

definition wsSend :: "do_inputs \<Rightarrow> nat option \<Rightarrow> frame \<Rightarrow> effect list option" where
  "wsSend inp ws f =
     (case ws of Some sock \<Rightarrow> if di_open inp sock then Some [Send sock f] else None | None \<Rightarrow> None)"

subsection \<open>acceptTunnel\<close>

text \<open>The checks before the upgrade; \<open>None\<close> is an exception (KV rejection, bad JSON).\<close>

definition checkAuth :: "jsstring \<Rightarrow> do_inputs \<Rightarrow> http_request \<Rightarrow> bool option" where
  "checkAuth tunnelSecret inp req =
     (let fingerprint = extractFingerprint (hostname (req_url req)) in
      case map_get (searchParams (req_url req)) (js ''auth'') of
        None \<Rightarrow> Some False
      | Some auth \<Rightarrow>
          if auth = [] then Some False
          else (case (fingerprint, di_registry inp) of
                  (Some fp, Some get) \<Rightarrow>
                    (case get (tunnelKey fp) of
                       None \<Rightarrow> None
                     | Some None \<Rightarrow> Some False
                     | Some (Some registration) \<Rightarrow>
                         if registration = [] then Some False
                         else Option.bind (JSON_parse registration) (\<lambda>parsed.
                           map_option (\<lambda>secret. truthy secret \<and> secret = Some (JStr auth))
                             (getProp (Some parsed) ''secret'')))
                | _ \<Rightarrow> Some (auth = tunnelSecret)))"

definition notWebSocket :: "http_request \<Rightarrow> bool" where
  "notWebSocket req \<longleftrightarrow>
     headersGet (req_headers req) ''Upgrade'' \<noteq> Some (js ''websocket'') \<and>
     headersGet (req_headers req) ''Sec-WebSocket-Key'' \<in> {None, Some []}"

definition upgraded :: "nat \<Rightarrow> http_response" where
  "upgraded sock = \<lparr>resp_status = 101, resp_headers = [], resp_body = NullBody, resp_webSocket = Some sock\<rparr>"

definition acceptTunnel ::
  "jsstring \<Rightarrow> do_inputs \<Rightarrow> nat \<Rightarrow> http_request \<Rightarrow> do_state \<Rightarrow> do_state \<times> effect list" where
  "acceptTunnel tunnelSecret inp n req s =
     (case checkAuth tunnelSecret inp req of
        None \<Rightarrow> (s, [Settle n (Rejected HandlerThrew)])
      | Some False \<Rightarrow> (s, [Settle n (Resolved (textResponse 401 ''Unauthorized''))])
      | Some True \<Rightarrow>
          if notWebSocket req then (s, [Settle n (Resolved (textResponse 426 ''Expected WebSocket''))])
          else (addListener n TunnelListener (s\<lparr>tunnel := Some n\<rparr>), [Settle n (Resolved (upgraded n))]))"

text \<open>The tunnel's close listener.\<close>

definition tunnelClosed :: "do_state \<Rightarrow> do_state \<times> effect list" where
  "tunnelClosed s =
     (let s1 = s\<lparr>tunnel := None\<rparr>;
          (s2, os) = fold (\<lambda>(key, p) (s', os).
             (clearTimeout (pd_timeout p) s', os @ [Settle (pd_promise p) (Rejected TunnelClosed)]))
             (pendingRequests s1) (s1, [])
      in (s2\<lparr>pendingRequests := []\<rparr>, os))"

subsection \<open>forwardToHeadscale\<close>

definition notConnected :: http_response where
  "notConnected =
     \<lparr>resp_status = 503, resp_headers = [(js ''Retry-After'', js ''30'')],
      resp_body = TextBody (js ''Headscale not connected''), resp_webSocket = None\<rparr>"

definition isTextType :: "jsstring \<Rightarrow> bool" where
  "isTextType contentType \<longleftrightarrow>
     startsWith contentType (js ''text/'') \<or> includesStr contentType (js ''json'') \<or>
     includesStr contentType (js ''xml'') \<or> includesStr contentType (js ''x-www-form-urlencoded'')"

definition contentTypeOf :: "http_request \<Rightarrow> jsstring" where
  "contentTypeOf req = (case headersGet (req_headers req) ''Content-Type'' of None \<Rightarrow> [] | Some t \<Rightarrow> t)"

definition encodeBody :: "http_request \<Rightarrow> (jsstring option \<times> bool) option" where
  "encodeBody req =
     (case req_body req of
        None \<Rightarrow> Some (None, False)
      | Some buf \<Rightarrow>
          if isTextType (contentTypeOf req) then Some (Some (utf8_decode buf), False)
          else map_option (\<lambda>b. (Some b, True)) (toBase64 buf))"

text \<open>The part after the body was read, with the promise's executor.\<close>

definition sendRequest :: "do_inputs \<Rightarrow> forward_context \<Rightarrow> do_state \<Rightarrow> do_state \<times> effect list" where
  "sendRequest inp fc s =
     (let n = fc_promise fc; requestId = fc_requestId fc; req = fc_request fc in
      case encodeBody req of
        None \<Rightarrow> (s, [Settle n (Rejected HandlerThrew)])
      | Some (body, isBinary) \<Rightarrow>
          (let tunnelRequest =
                 \<lparr>tq_id = requestId, tq_method = req_method req, tq_url = href (req_url req),
                  tq_headers = req_headers req, tq_body = body, tq_isBinary = Some isBinary\<rparr>;
               s1 = setTimeout n \<lparr>tm_deadline = di_now inp + 30000, tm_requestId = requestId, tm_promise = n\<rparr> s;
               s2 = s1\<lparr>pendingRequests := map_set requestId \<lparr>pd_promise = n, pd_timeout = n\<rparr> (pendingRequests s1)\<rparr>
           in case wsSend inp (tunnel s2) (TextFrame (messageText (Request tunnelRequest))) of
                Some os \<Rightarrow> (s2, os)
              | None \<Rightarrow>
                  (let s3 = clearTimeout n s2
                   in (s3\<lparr>pendingRequests := map_delete requestId (pendingRequests s3)\<rparr>,
                       [Settle n (Rejected SendFailed)]))))"

text \<open>The timeout callback of a request.\<close>

definition timerFired :: "nat \<Rightarrow> do_state \<Rightarrow> do_state \<times> effect list" where
  "timerFired h s =
     (case map_get (do_timers s) h of
        None \<Rightarrow> (s, [])
      | Some t \<Rightarrow>
          (let s1 = clearTimeout h s
           in (s1\<lparr>pendingRequests := map_delete (tm_requestId t) (pendingRequests s1)\<rparr>,
               [Settle (tm_promise t) (Rejected RequestTimeout)])))"

subsection \<open>forwardWebSocket\<close>

definition forwardWebSocket ::
  "do_inputs \<Rightarrow> nat \<Rightarrow> http_request \<Rightarrow> do_state \<Rightarrow> do_state \<times> effect list" where
  "forwardWebSocket inp n req s =
     (case tunnel s of
        None \<Rightarrow> (s, [Settle n (Resolved notConnected)])
      | Some t \<Rightarrow>
          if headersGet (req_headers req) ''Upgrade'' \<noteq> Some (js ''websocket'')
          then (s, [Settle n (Resolved (textResponse 426 ''Expected WebSocket''))])
          else
            (let wsId = di_uuid inp;
                 s1 = s\<lparr>wsConnections := map_set wsId n (wsConnections s)\<rparr>;
                 openMsg = WsOpen \<lparr>wo_id = wsId, wo_method = req_method req, wo_url = href (req_url req),
                                   wo_headers = req_headers req\<rparr>
             in case wsSend inp (Some t) (TextFrame (messageText openMsg)) of
                  None \<Rightarrow> (s1, [Settle n (Rejected HandlerThrew)])
                | Some os \<Rightarrow>
                    (addListener n (ClientListener wsId) s1, os @ [Settle n (Resolved (upgraded n))])))"

text \<open>The client socket's message listener; a \<open>Blob\<close> suspends it until its bytes are read.\<close>

definition relayClientData :: "do_inputs \<Rightarrow> ws_data \<Rightarrow> do_state \<Rightarrow> effect list" where
  "relayClientData inp msg s =
     (case wsSend inp (tunnel s) (TextFrame (messageText (WsData msg))) of None \<Rightarrow> [] | Some os \<Rightarrow> os)"

definition relayClientBytes :: "do_inputs \<Rightarrow> jsstring \<Rightarrow> bytes \<Rightarrow> do_state \<Rightarrow> effect list" where
  "relayClientBytes inp wsId buf s =
     (case toBase64 buf of None \<Rightarrow> []
      | Some b64 \<Rightarrow> relayClientData inp \<lparr>wd_id = wsId, wd_data = b64, wd_isBinary = True\<rparr> s)"

definition clientMessage ::
  "do_inputs \<Rightarrow> jsstring \<Rightarrow> frame \<Rightarrow> do_state \<Rightarrow> do_state \<times> effect list" where
  "clientMessage inp wsId f s =
     (if tunnel s = None then (s, [])
      else case f of
        TextFrame data \<Rightarrow> (s, relayClientData inp \<lparr>wd_id = wsId, wd_data = data, wd_isBinary = False\<rparr> s)
      | BufferFrame buf \<Rightarrow> (s, relayClientBytes inp wsId buf s)
      | BlobFrame buf \<Rightarrow> (s\<lparr>do_blobs := do_blobs s @ [(wsId, buf)]\<rparr>, []))"

text \<open>The client socket's close listener; a frame the tunnel refuses is an uncaught exception.\<close>

definition clientClosed ::
  "do_inputs \<Rightarrow> jsstring \<Rightarrow> int \<Rightarrow> jsstring \<Rightarrow> do_state \<Rightarrow> do_state \<times> effect list" where
  "clientClosed inp wsId code reason s =
     (let s1 = s\<lparr>wsConnections := map_delete wsId (wsConnections s)\<rparr> in
      if tunnel s1 = None then (s1, [])
      else (s1, case wsSend inp (tunnel s1) (TextFrame (messageText
                       (WsClose \<lparr>wc_id = wsId, wc_code = Some code, wc_reason = Some reason\<rparr>))) of
                  None \<Rightarrow> [] | Some os \<Rightarrow> os))"

subsection \<open>fetch\<close>

definition wantsWebSocket :: "http_request \<Rightarrow> bool" where
  "wantsWebSocket req \<longleftrightarrow>
     (case headersGet (req_headers req) ''Upgrade'' of
        None \<Rightarrow> False | Some upgradeHeader \<Rightarrow> toLowerCase upgradeHeader = js ''websocket'') \<or>
     headersGet (req_headers req) ''Sec-WebSocket-Key'' \<notin> {None, Some []}"

definition forwardToHeadscale ::
  "do_inputs \<Rightarrow> nat \<Rightarrow> http_request \<Rightarrow> do_state \<Rightarrow> do_state \<times> effect list" where
  "forwardToHeadscale inp n req s =
     (if wantsWebSocket req then forwardWebSocket inp n req s
      else if tunnel s = None then (s, [Settle n (Resolved notConnected)])
      else
        (let fc = \<lparr>fc_promise = n, fc_requestId = di_uuid inp, fc_request = req\<rparr>
         in if req_body req = None then sendRequest inp fc s
            else (s\<lparr>do_bodies := do_bodies s @ [fc]\<rparr>, [])))"

definition tunnelFetch ::
  "jsstring \<Rightarrow> do_inputs \<Rightarrow> http_request \<Rightarrow> do_state \<Rightarrow> do_state \<times> effect list" where
  "tunnelFetch tunnelSecret inp req s =
     (let n = do_next s; s0 = s\<lparr>do_next := Suc n\<rparr>
      in if pathname (req_url req) = js ''/tunnel'' then acceptTunnel tunnelSecret inp n req s0
         else forwardToHeadscale inp n req s0)"

subsection \<open>handleTunnelMessage\<close>

text \<open>A \<open>Map\<close> with string keys has an entry only for a string.\<close>

definition stringKey :: "json option \<Rightarrow> jsstring option" where
  "stringKey j = (case j of Some (JStr s) \<Rightarrow> Some s | _ \<Rightarrow> None)"

definition getByKey :: "(jsstring, 'v) jsmap \<Rightarrow> json option \<Rightarrow> (jsstring \<times> 'v) option" where
  "getByKey m j = Option.bind (stringKey j) (\<lambda>k. map_option (\<lambda>v. (k, v)) (map_get m k))"

definition stringOf :: "json option \<Rightarrow> jsstring option" where
  "stringOf j = (case j of None \<Rightarrow> Some (js ''undefined'') | Some x \<Rightarrow> toStringJ x)"

definition reconstruct :: "fetch_api \<Rightarrow> json \<Rightarrow> http_response option" where
  "reconstruct api response =
     (case (getProp (Some response) ''body'', getProp (Some response) ''isBinary'',
            getProp (Some response) ''status'', getProp (Some response) ''headers'') of
        (Some body, Some isBinary, Some status, Some headers) \<Rightarrow>
          Option.bind
            (if truthy isBinary \<and> truthy body
             then map_option InitBytes (Option.bind (stringOf body) fromBase64)
             else Some (case body of None \<Rightarrow> InitNull | Some JNull \<Rightarrow> InitNull | Some b \<Rightarrow> InitValue b))
            (\<lambda>b. newResponse api b status headers)
      | _ \<Rightarrow> None)"

definition onResponse :: "fetch_api \<Rightarrow> json option \<Rightarrow> do_state \<Rightarrow> do_state \<times> effect list" where
  "onResponse api response s =
     (case Option.bind (getProp response ''id'') (getByKey (pendingRequests s)) of
        None \<Rightarrow> (s, [])
      | Some (key, p) \<Rightarrow>
          (let s1 = clearTimeout (pd_timeout p) s;
               s2 = s1\<lparr>pendingRequests := map_delete key (pendingRequests s1)\<rparr>
           in case Option.bind response (reconstruct api) of
                None \<Rightarrow> (s2, [])
              | Some httpResponse \<Rightarrow> (s2, [Settle (pd_promise p) (Resolved httpResponse)])))"

definition onWsData :: "do_inputs \<Rightarrow> json option \<Rightarrow> do_state \<Rightarrow> effect list" where
  "onWsData inp wsData s =
     (case Option.bind (getProp wsData ''id'') (getByKey (wsConnections s)) of
        None \<Rightarrow> []
      | Some (_, ws) \<Rightarrow>
          (case (getProp wsData ''isBinary'', getProp wsData ''data'') of
             (Some isBinary, Some d) \<Rightarrow>
               (case (if truthy isBinary then map_option BufferFrame (Option.bind (stringOf d) fromBase64)
                      else map_option TextFrame (stringOf d)) of
                  None \<Rightarrow> []
                | Some f \<Rightarrow> (case wsSend inp (Some ws) f of None \<Rightarrow> [] | Some os \<Rightarrow> os))
           | _ \<Rightarrow> []))"

definition onWsClose :: "fetch_api \<Rightarrow> json option \<Rightarrow> do_state \<Rightarrow> do_state \<times> effect list" where
  "onWsClose api wsClose s =
     (case Option.bind (getProp wsClose ''id'') (getByKey (wsConnections s)) of
        None \<Rightarrow> (s, [])
      | Some (key, ws) \<Rightarrow>
          (case (getProp wsClose ''code'', getProp wsClose ''reason'') of
             (Some code, Some reason) \<Rightarrow>
               if closeArgsOk api code reason
               then (s\<lparr>wsConnections := map_delete key (wsConnections s)\<rparr>, [CloseSocket ws code reason])
               else (s, [])
           | _ \<Rightarrow> (s, [])))"

definition handleTunnelMessage ::
  "fetch_api \<Rightarrow> do_inputs \<Rightarrow> jsstring \<Rightarrow> do_state \<Rightarrow> do_state \<times> effect list" where
  "handleTunnelMessage api inp data s =
     (case JSON_parse data of
        None \<Rightarrow> (s, [])
      | Some message \<Rightarrow>
          (case (getProp (Some message) ''type'', getProp (Some message) ''data'') of
             (Some ty, Some payload) \<Rightarrow>
               if ty = Some (JStr (js ''response'')) then onResponse api payload s
               else if ty = Some (JStr (js ''ws_data'')) then (s, onWsData inp payload s)
               else if ty = Some (JStr (js ''ws_close'')) then onWsClose api payload s
               else if ty = Some (JStr (js ''ping''))
               then (s, case wsSend inp (tunnel s) (TextFrame (messageText Pong)) of None \<Rightarrow> [] | Some os \<Rightarrow> os)
               else (s, [])
           | _ \<Rightarrow> (s, [])))"

text \<open>\<open>data.toString()\<close> of what the socket delivers.\<close>

fun frameText :: "frame \<Rightarrow> jsstring" where
  "frameText (TextFrame t) = t"
| "frameText (BufferFrame _) = js ''[object ArrayBuffer]''"
| "frameText (BlobFrame _) = js ''[object Blob]''"

subsection \<open>Events\<close>

datatype do_event =
    Fetch do_inputs http_request
  | BodyRead do_inputs nat
  | TimerFired do_inputs nat
  | Message do_inputs nat frame
  | BlobRead do_inputs nat
  | Closed do_inputs nat int jsstring

definition remove_nth :: "nat \<Rightarrow> 'a list \<Rightarrow> 'a list" where
  "remove_nth i xs = take i xs @ drop (Suc i) xs"

text \<open>
  One turn of the event loop. The close and message events go to the listener of their socket; the
  error listener only logs.
\<close>

fun doStep :: "fetch_api \<Rightarrow> jsstring \<Rightarrow> do_state \<Rightarrow> do_event \<Rightarrow> do_state \<times> effect list" where
  "doStep api tunnelSecret s (Fetch inp req) = tunnelFetch tunnelSecret inp req s"
| "doStep api tunnelSecret s (BodyRead inp i) =
     (if i < length (do_bodies s)
      then sendRequest inp (do_bodies s ! i) (s\<lparr>do_bodies := remove_nth i (do_bodies s)\<rparr>)
      else (s, []))"
| "doStep api tunnelSecret s (TimerFired inp h) = timerFired h s"
| "doStep api tunnelSecret s (Message inp sock f) =
     (case map_get (do_listeners s) sock of
        Some TunnelListener \<Rightarrow> handleTunnelMessage api inp (frameText f) s
      | Some (ClientListener wsId) \<Rightarrow> clientMessage inp wsId f s
      | None \<Rightarrow> (s, []))"
| "doStep api tunnelSecret s (BlobRead inp i) =
     (if i < length (do_blobs s)
      then (s\<lparr>do_blobs := remove_nth i (do_blobs s)\<rparr>,
            case do_blobs s ! i of (wsId, buf) \<Rightarrow> relayClientBytes inp wsId buf s)
      else (s, []))"
| "doStep api tunnelSecret s (Closed inp sock code reason) =
     (case map_get (do_listeners s) sock of
        Some TunnelListener \<Rightarrow> tunnelClosed s
      | Some (ClientListener wsId) \<Rightarrow> clientClosed inp wsId code reason s
      | None \<Rightarrow> (s, []))"

end
