(* ===== verification/TunnelSafety.thy ===== *)
theory TunnelSafety
  imports Tunnel "HOL-Library.Multiset"
begin

text \<open>
  The request table of the Durable Object. The invariant \<open>doInv\<close> ties every pending request to an
  armed timer and back; \<open>balance\<close> counts promises: the settled ones and the open ones together are
  exactly the calls of \<open>fetch\<close> so far. Both hold in every run of the event loop in which fresh
  UUIDs are drawn, the second as an equality as long as the sidecar's responses can be rebuilt.
\<close>

subsection \<open>Promises\<close>

fun settles :: "effect \<Rightarrow> nat list" where
  "settles (Settle n _) = [n]"
| "settles _ = []"

definition settled :: "effect list \<Rightarrow> nat list" where
  "settled os = concat (map settles os)"

definition pendingPromises :: "do_state \<Rightarrow> nat multiset" where
  "pendingPromises s = mset (map (pd_promise \<circ> snd) (pendingRequests s))"

definition openPromises :: "do_state \<Rightarrow> nat multiset" where
  "openPromises s = pendingPromises s + mset (map fc_promise (do_bodies s))"

lemma settled_simps [simp]:
  "settled [] = []" "settled (Settle n r # os) = n # settled os"
  "settled (Send w f # os) = settled os" "settled (CloseSocket w c d # os) = settled os"
  "settled (os @ os') = settled os @ settled os'"
  by (simp_all add: settled_def)

subsection \<open>The invariant\<close>

definition doInv :: "do_state \<Rightarrow> bool" where
  "doInv s \<longleftrightarrow>
     map_ok (pendingRequests s) \<and> map_ok (do_timers s) \<and>
     (\<forall>k p. map_get (pendingRequests s) k = Some p \<longrightarrow>
        pd_promise p < do_next s \<and>
        (\<exists>t. map_get (do_timers s) (pd_timeout p) = Some t \<and> tm_requestId t = k \<and> tm_promise t = pd_promise p)) \<and>
     (\<forall>h t. map_get (do_timers s) h = Some t \<longrightarrow>
        h < do_next s \<and> map_get (pendingRequests s) (tm_requestId t) = Some \<lparr>pd_promise = tm_promise t, pd_timeout = h\<rparr>) \<and>
     (\<forall>fc\<in>set (do_bodies s). fc_promise fc < do_next s \<and> map_get (do_timers s) (fc_promise fc) = None \<and>
        map_get (pendingRequests s) (fc_requestId fc) = None) \<and>
     distinct (map fc_promise (do_bodies s)) \<and> distinct (map fc_requestId (do_bodies s))"

lemma doInv_new: "doInv newTunnel"
  by (simp add: doInv_def newTunnel_def)

lemma doInv_cong:
  "doInv s \<Longrightarrow> pendingRequests s' = pendingRequests s \<Longrightarrow> do_timers s' = do_timers s \<Longrightarrow>
     do_bodies s' = do_bodies s \<Longrightarrow> do_next s \<le> do_next s' \<Longrightarrow> doInv s'"
  by (fastforce simp: doInv_def)

lemma openPromises_cong:
  "pendingRequests s' = pendingRequests s \<Longrightarrow> do_bodies s' = do_bodies s \<Longrightarrow> openPromises s' = openPromises s"
  by (simp add: openPromises_def pendingPromises_def)

text \<open>One pending request less, with its timer.\<close>

lemma mset_map_delete:
  "map_ok m \<Longrightarrow> map_get m k = Some v \<Longrightarrow> mset (map f m) = add_mset (f (k, v)) (mset (map f (map_delete k m)))"
proof (induction m)
  case (Cons a m)
  show ?case
  proof (cases "fst a = k")
    case True
    then have "map_delete k m = m"
      using Cons.prems(1) by (auto simp: map_delete_def map_ok_def intro: delete_id)
    then show ?thesis using True Cons.prems(2) by (cases a) (simp add: map_delete_def map_get_def)
  next
    case False
    then show ?thesis
      using Cons by (cases a) (simp add: map_delete_def map_get_def map_ok_def)
  qed
qed simp

definition dropPending :: "jsstring \<Rightarrow> nat \<Rightarrow> do_state \<Rightarrow> do_state" where
  "dropPending k h s =
     s\<lparr>do_timers := map_delete h (do_timers s), pendingRequests := map_delete k (pendingRequests s)\<rparr>"

lemma doInv_drop:
  assumes "doInv s" "map_get (pendingRequests s) k = Some p"
  shows "doInv (dropPending k (pd_timeout p) s)"
proof -
  have other: "h \<noteq> pd_timeout p \<longleftrightarrow> tm_requestId t \<noteq> k" if "map_get (do_timers s) h = Some t" for h t
    using assms that unfolding doInv_def by (metis option.inject pending.select_convs(2))
  have timer: "\<exists>t. map_get (do_timers s) (pd_timeout p') = Some t \<and> tm_requestId t = k'"
    if "map_get (pendingRequests s) k' = Some p'" for k' p'
    using assms(1) that unfolding doInv_def by blast
  have ne: "pd_timeout p' \<noteq> pd_timeout p" if "map_get (pendingRequests s) k' = Some p'" "k' \<noteq> k" for k' p'
    using timer [OF that(1)] other that(2) by auto
  show ?thesis
    using assms(1) other
    unfolding doInv_def dropPending_def by (auto simp: js_map.get_del js_map.invar_del) (metis ne)
qed

lemma open_drop:
  assumes "doInv s" "map_get (pendingRequests s) k = Some p"
  shows "openPromises s = add_mset (pd_promise p) (openPromises (dropPending k h s))"
  using assms mset_map_delete [of "pendingRequests s" k p "pd_promise \<circ> snd"]
  by (simp add: openPromises_def pendingPromises_def dropPending_def doInv_def)

text \<open>One pending request more.\<close>

lemma map_set_absent: "map_get m k = None \<Longrightarrow> map_set k v m = m @ [(k, v)]"
  by (simp add: map_set_def map_get_eq_None_iff update_absent)

lemma map_delete_absent: "map_get m k = None \<Longrightarrow> map_delete k m = m"
  by (simp add: map_delete_def map_get_eq_None_iff delete_id)

lemma map_delete_set_absent: "map_get m k = None \<Longrightarrow> map_delete k (map_set k v m) = m"
  using map_delete_absent [of m k] by (simp add: map_set_absent map_delete_def AList.delete_eq)

definition addPending :: "int \<Rightarrow> forward_context \<Rightarrow> do_state \<Rightarrow> do_state" where
  "addPending t fc s =
     s\<lparr>do_timers := map_set (fc_promise fc)
          \<lparr>tm_deadline = t + 30000, tm_requestId = fc_requestId fc, tm_promise = fc_promise fc\<rparr> (do_timers s),
        pendingRequests := map_set (fc_requestId fc)
          \<lparr>pd_promise = fc_promise fc, pd_timeout = fc_promise fc\<rparr> (pendingRequests s)\<rparr>"

definition fresh :: "forward_context \<Rightarrow> do_state \<Rightarrow> bool" where
  "fresh fc s \<longleftrightarrow>
     fc_promise fc < do_next s \<and> map_get (do_timers s) (fc_promise fc) = None \<and>
     map_get (pendingRequests s) (fc_requestId fc) = None \<and>
     fc_promise fc \<notin> fc_promise ` set (do_bodies s) \<and> fc_requestId fc \<notin> fc_requestId ` set (do_bodies s)"

lemma doInv_add:
  assumes "doInv s" "fresh fc s"
  shows "doInv (addPending t fc s)"
proof -
  have n1: "tm_requestId t' \<noteq> fc_requestId fc" if "map_get (do_timers s) h = Some t'" for h t'
    using assms that unfolding doInv_def fresh_def by (metis option.distinct(1))
  have n2: "pd_timeout p \<noteq> fc_promise fc" if "map_get (pendingRequests s) k = Some p" for k p
    using assms that unfolding doInv_def fresh_def by (metis option.distinct(1))
  show ?thesis
    using assms
    unfolding doInv_def addPending_def fresh_def
    by (auto simp: js_map.get_put js_map.invar_put dest: n1 n2)
qed

lemma open_add:
  "fresh fc s \<Longrightarrow> openPromises (addPending t fc s) = add_mset (fc_promise fc) (openPromises s)"
  by (simp add: openPromises_def pendingPromises_def addPending_def map_set_absent fresh_def)

lemma sendRequest_cases:
  assumes "fresh fc s"
  obtains (sent) t m where "tunnel s = Some t"
      "sendRequest inp fc s = (addPending (di_now inp) fc s, [Send t (TextFrame (messageText (Request m)))])"
  | (failed) "sendRequest inp fc s = (s, [Settle (fc_promise fc) (Rejected SendFailed)])"
proof -
  obtain body isBinary where e: "encodeBody (fc_request fc) = Some (body, isBinary)"
    by (cases "encodeBody (fc_request fc)") (auto simp: encodeBody_def split: option.splits if_splits)
  let ?m = "\<lparr>tq_id = fc_requestId fc, tq_method = req_method (fc_request fc), tq_url = href (req_url (fc_request fc)),
      tq_headers = req_headers (fc_request fc), tq_body = body, tq_isBinary = Some isBinary\<rparr>"
  show ?thesis
  proof (cases "wsSend inp (tunnel s) (TextFrame (messageText (Request ?m)))")
    case None
    then show ?thesis
      using e assms failed
      by (simp add: sendRequest_def setTimeout_def clearTimeout_def Let_def fresh_def map_delete_set_absent)
  next
    case (Some os)
    then obtain t where "tunnel s = Some t" "os = [Send t (TextFrame (messageText (Request ?m)))]"
      by (auto simp: wsSend_def split: option.splits if_splits)
    then show ?thesis
      using e Some sent [of t ?m] by (simp add: sendRequest_def setTimeout_def addPending_def Let_def)
  qed
qed

subsection \<open>Every event keeps the balance\<close>

text \<open>Handlers that touch neither the request table nor the timers.\<close>

definition sameTable :: "do_state \<Rightarrow> do_state \<Rightarrow> bool" where
  "sameTable s s' \<longleftrightarrow>
     pendingRequests s' = pendingRequests s \<and> do_timers s' = do_timers s \<and> do_bodies s' = do_bodies s \<and>
     do_next s' = do_next s"

lemma sameTable_inv: "sameTable s s' \<Longrightarrow> doInv s \<Longrightarrow> doInv s'"
  and sameTable_open: "sameTable s s' \<Longrightarrow> openPromises s' = openPromises s"
  unfolding sameTable_def by (auto intro: doInv_cong openPromises_cong)

lemma settled_wsSend: "wsSend inp ws f = Some os \<Longrightarrow> settled os = []"
  by (auto simp: wsSend_def split: option.splits if_splits)

lemma accept_table:
  "acceptTunnel secret inp n req s = (s', os) \<Longrightarrow> sameTable s s' \<and> settled os = [n]"
  by (auto simp: acceptTunnel_def addListener_def sameTable_def split: option.splits bool.splits if_splits)

lemma forwardWebSocket_table:
  "forwardWebSocket inp n req s = (s', os) \<Longrightarrow> sameTable s s' \<and> settled os = [n]"
  by (auto simp: forwardWebSocket_def addListener_def sameTable_def Let_def settled_wsSend
      split: option.splits if_splits)

lemma clientMessage_table: "clientMessage inp wsId f s = (s', os) \<Longrightarrow> sameTable s s' \<and> settled os = []"
  by (auto simp: clientMessage_def relayClientData_def relayClientBytes_def sameTable_def
      settled_wsSend split: frame.splits option.splits if_splits)

lemma clientClosed_table: "clientClosed inp wsId c r s = (s', os) \<Longrightarrow> sameTable s s' \<and> settled os = []"
  by (auto simp: clientClosed_def sameTable_def Let_def settled_wsSend split: option.splits if_splits)

lemma onWsData_settled: "settled (onWsData inp d s) = []"
  by (simp add: onWsData_def settled_wsSend split: option.split prod.split)

lemma onWsClose_table: "onWsClose api d s = (s', os) \<Longrightarrow> sameTable s s' \<and> settled os = []"
  by (auto simp: onWsClose_def sameTable_def split: option.splits prod.splits if_splits)

text \<open>The outcome of one event, as a change of the table.\<close>

definition balanced :: "do_state \<Rightarrow> do_state \<Rightarrow> effect list \<Rightarrow> bool" where
  "balanced s s' os \<longleftrightarrow>
     mset (settled os) + openPromises s' = openPromises s + mset [do_next s..<do_next s'] \<and> do_next s \<le> do_next s'"

lemma sameTable_balanced: "sameTable s s' \<Longrightarrow> settled os = [] \<Longrightarrow> balanced s s' os"
  by (simp add: balanced_def sameTable_open) (simp add: sameTable_def)

lemma onResponse_step:
  assumes "doInv s" "onResponse api d s = (s', os)"
  shows "doInv s' \<and> (balanced s s' os \<or>
    os = [] \<and> do_next s' = do_next s \<and> openPromises s' \<subseteq># openPromises s \<and> Option.bind d (reconstruct api) = None)"
proof (cases "Option.bind (getProp d ''id'') (getByKey (pendingRequests s))")
  case None
  then show ?thesis
    using assms by (auto simp: onResponse_def balanced_def)
next
  case (Some kp)
  then obtain k p where kp: "kp = (k, p)" "map_get (pendingRequests s) k = Some p"
    by (auto simp: getByKey_def bind_eq_Some_conv)
  then have s': "s' = dropPending k (pd_timeout p) s"
      "os = (case Option.bind d (reconstruct api) of None \<Rightarrow> [] | Some r \<Rightarrow> [Settle (pd_promise p) (Resolved r)])"
    using assms(2) Some
    by (auto simp: onResponse_def dropPending_def clearTimeout_def Let_def split: option.splits)
  have "do_next s' = do_next s" by (simp add: s' dropPending_def)
  then show ?thesis
    using doInv_drop [OF assms(1) kp(2)] open_drop [OF assms(1) kp(2), of "pd_timeout p"] s'
    by (auto simp: balanced_def split: option.splits)
qed

lemma timerFired_step:
  assumes "doInv s" "timerFired h s = (s', os)"
  shows "doInv s' \<and> balanced s s' os"
proof (cases "map_get (do_timers s) h")
  case None
  then show ?thesis using assms by (auto simp: timerFired_def balanced_def)
next
  case (Some t)
  have p: "map_get (pendingRequests s) (tm_requestId t) = Some \<lparr>pd_promise = tm_promise t, pd_timeout = h\<rparr>"
    using assms(1) Some by (auto simp: doInv_def)
  have "s' = dropPending (tm_requestId t) h s" "os = [Settle (tm_promise t) (Rejected RequestTimeout)]"
    using assms(2) Some by (auto simp: timerFired_def dropPending_def clearTimeout_def Let_def)
  then show ?thesis
    using doInv_drop [OF assms(1) p] open_drop [OF assms(1) p, of h] by (simp add: balanced_def dropPending_def)
qed

lemma tunnelClosed_eq:
  "tunnelClosed s =
     (s\<lparr>tunnel := None, pendingRequests := [],
        do_timers := fold map_delete (map (pd_timeout \<circ> snd) (pendingRequests s)) (do_timers s)\<rparr>,
      map (\<lambda>(k, p). Settle (pd_promise p) (Rejected TunnelClosed)) (pendingRequests s))"
proof -
  have "fold (\<lambda>(key, p) (s', os). (clearTimeout (pd_timeout p) s', os @ [Settle (pd_promise p) (Rejected TunnelClosed)]))
      ps (v, os) = (v\<lparr>do_timers := fold map_delete (map (pd_timeout \<circ> snd) ps) (do_timers v)\<rparr>,
        os @ map (\<lambda>(k, p). Settle (pd_promise p) (Rejected TunnelClosed)) ps)"
    for ps :: "(jsstring \<times> pending) list" and v :: do_state and os
    by (induction ps arbitrary: v os) (auto simp: clearTimeout_def)
  then show ?thesis by (simp add: tunnelClosed_def Let_def)
qed

lemma tunnelClosed_timers:
  assumes "doInv s"
  shows "map_get (do_timers (fst (tunnelClosed s))) h = None"
proof (cases "map_get (do_timers s) h")
  case None
  then show ?thesis by (simp add: tunnelClosed_eq js_map.get_fold_del)
next
  case (Some t)
  then have "(tm_requestId t, \<lparr>pd_promise = tm_promise t, pd_timeout = h\<rparr>) \<in> set (pendingRequests s)"
    using assms by (auto simp: doInv_def intro: map_get_SomeD)
  then have "h \<in> set (map (pd_timeout \<circ> snd) (pendingRequests s))" by force
  then show ?thesis by (simp add: tunnelClosed_eq js_map.get_fold_del)
qed

lemma tunnelClosed_step:
  assumes "doInv s" "tunnelClosed s = (s', os)"
  shows "doInv s' \<and> balanced s s' os"
proof -
  have "settled (map (\<lambda>(k, p). Settle (pd_promise p) (Rejected TunnelClosed)) ps) = map (pd_promise \<circ> snd) ps"
    for ps :: "(jsstring \<times> pending) list"
    by (induction ps) auto
  then have "balanced s s' os"
    using assms(2) by (auto simp: tunnelClosed_eq balanced_def openPromises_def pendingPromises_def)
  moreover have "doInv s'"
    using assms(1,2) tunnelClosed_timers [OF assms(1)]
    by (auto simp: doInv_def tunnelClosed_eq js_map.invar_fold_del)
  ultimately show ?thesis by simp
qed

definition rebuildable :: "fetch_api \<Rightarrow> jsstring \<Rightarrow> bool" where
  "rebuildable api data \<longleftrightarrow>
     (\<forall>m d. JSON_parse data = Some m \<longrightarrow> getProp (Some m) ''type'' = Some (Some (JStr (js ''response''))) \<longrightarrow>
        getProp (Some m) ''data'' = Some (Some d) \<longrightarrow> reconstruct api d \<noteq> None)"

definition lossy :: "do_state \<Rightarrow> do_state \<Rightarrow> effect list \<Rightarrow> bool" where
  "lossy s s' os \<longleftrightarrow> os = [] \<and> do_next s' = do_next s \<and> openPromises s' \<subseteq># openPromises s"

lemma response_message_step:
  assumes "doInv s" "JSON_parse data = Some m" "getProp (Some m) ''type'' = Some (Some (JStr (js ''response'')))"
    and "getProp (Some m) ''data'' = Some d" "onResponse api d s = (s', os)"
  shows "doInv s' \<and> (balanced s s' os \<or> lossy s s' os \<and> \<not> rebuildable api data)"
proof (cases d)
  case None
  then have "s' = s" "os = []" using assms(5) by (auto simp: onResponse_def)
  then show ?thesis using assms(1) by (simp add: balanced_def)
next
  case (Some d')
  then show ?thesis
    using onResponse_step [OF assms(1,5)] assms(2-4) by (auto simp: rebuildable_def lossy_def)
qed

lemma handleTunnelMessage_step:
  assumes "doInv s" "handleTunnelMessage api inp data s = (s', os)"
  shows "doInv s' \<and> (balanced s s' os \<or> lossy s s' os \<and> \<not> rebuildable api data)"
proof -
  have same: "doInv s' \<and> balanced s s' os" if "sameTable s s' \<and> settled os = []"
    using that assms(1) sameTable_inv sameTable_balanced by blast
  have self: "sameTable s s" by (simp add: sameTable_def)
  show ?thesis
    using assms response_message_step [of s data _ _ api s' os] onWsClose_table [of api _ s s' os] same self
      onWsData_settled [of inp _ s]
    by (auto simp: handleTunnelMessage_def settled_wsSend split: option.splits if_splits)
qed

lemma forward_cases:
  assumes "forwardToHeadscale inp n req s = (s', os)"
  obtains (websocket) "forwardWebSocket inp n req s = (s', os)"
  | (down) "tunnel s = None" "s' = s" "os = [Settle n (Resolved notConnected)]"
  | (send) "tunnel s \<noteq> None"
      "sendRequest inp \<lparr>fc_promise = n, fc_requestId = di_uuid inp, fc_request = req\<rparr> s = (s', os)"
  | (body) "tunnel s \<noteq> None"
      "s' = s\<lparr>do_bodies := do_bodies s @ [\<lparr>fc_promise = n, fc_requestId = di_uuid inp, fc_request = req\<rparr>]\<rparr>" "os = []"
proof -
  consider "wantsWebSocket req" | "\<not> wantsWebSocket req" "tunnel s = None"
    | "\<not> wantsWebSocket req" "tunnel s \<noteq> None" "req_body req = None"
    | "\<not> wantsWebSocket req" "tunnel s \<noteq> None" "req_body req \<noteq> None" by blast
  then show ?thesis
  proof cases
    case 1
    show ?thesis by (rule websocket) (use 1 assms in \<open>simp add: forwardToHeadscale_def\<close>)
  next
    case 2
    show ?thesis by (rule down) (use 2 assms in \<open>simp_all add: forwardToHeadscale_def\<close>)
  next
    case 3
    show ?thesis by (rule send) (use 3 assms in \<open>auto simp: forwardToHeadscale_def\<close>)
  next
    case 4
    show ?thesis by (rule body) (use 4 assms in \<open>auto simp: forwardToHeadscale_def\<close>)
  qed
qed

lemma fetch_step:
  assumes "doInv s" "map_get (pendingRequests s) (di_uuid inp) = None" "di_uuid inp \<notin> fc_requestId ` set (do_bodies s)"
    and "tunnelFetch secret inp req s = (s', os)"
  shows "doInv s' \<and> balanced s s' os"
proof -
  define s0 where "s0 = s\<lparr>do_next := Suc (do_next s)\<rparr>"
  define fc where "fc = \<lparr>fc_promise = do_next s, fc_requestId = di_uuid inp, fc_request = req\<rparr>"
  have s0: "doInv s0" "openPromises s0 = openPromises s" "do_next s0 = Suc (do_next s)"
    using assms(1) by (auto simp: s0_def intro: doInv_cong openPromises_cong)
  have f: "fresh fc s0"
    using assms(1-3) by (fastforce simp: fresh_def fc_def s0_def doInv_def not_None_eq [symmetric] simp del: not_None_eq)
  have bal: "doInv s' \<and> balanced s s' os" if "sameTable s0 s'" "settled os = [do_next s]"
    using that s0 sameTable_inv [OF that(1)] sameTable_open [OF that(1)] by (simp add: balanced_def sameTable_def)
  have fetch: "tunnelFetch secret inp req s =
      (if pathname (req_url req) = js ''/tunnel'' then acceptTunnel secret inp (do_next s) req s0
       else forwardToHeadscale inp (do_next s) req s0)"
    by (simp add: tunnelFetch_def s0_def Let_def)
  consider (direct) "sameTable s0 s'" "settled os = [do_next s]"
    | (send) "sendRequest inp fc s0 = (s', os)"
    | (body) "s' = s0\<lparr>do_bodies := do_bodies s0 @ [fc]\<rparr>" "os = []"
  proof (cases "pathname (req_url req) = js ''/tunnel''")
    case True
    then show ?thesis using direct accept_table [of secret inp "do_next s" req s0 s' os] assms(4) fetch by simp
  next
    case False
    then have "forwardToHeadscale inp (do_next s) req s0 = (s', os)" using assms(4) fetch by simp
    then show ?thesis
      by (cases rule: forward_cases)
        (use direct send body forwardWebSocket_table in \<open>auto simp: fc_def sameTable_def\<close>)
  qed
  then show ?thesis
  proof cases
    case direct
    then show ?thesis by (rule bal)
  next
    case send
    then show ?thesis
    proof (cases rule: sendRequest_cases [OF f, of inp])
      case (1 t m)
      then show ?thesis
        using send s0 doInv_add [OF s0(1) f] open_add [OF f, of "di_now inp"]
        by (auto simp: balanced_def fc_def addPending_def)
    next
      case 2
      then show ?thesis using send bal [of] by (auto simp: sameTable_def fc_def)
    qed
  next
    case body
    then have "doInv s'" using s0(1) f by (auto simp: doInv_def fresh_def)
    then show ?thesis using body s0 by (simp add: balanced_def openPromises_def pendingPromises_def fc_def)
  qed
qed

lemma remove_nth_props:
  assumes "i < length xs"
  shows "mset xs = add_mset (xs ! i) (mset (remove_nth i xs))" "set (remove_nth i xs) \<subseteq> set xs"
    "distinct (map f xs) \<Longrightarrow> distinct (map f (remove_nth i xs)) \<and> f (xs ! i) \<notin> f ` set (remove_nth i xs)"
proof -
  have xs: "xs = take i xs @ xs ! i # drop (Suc i) xs" using assms by (simp add: id_take_nth_drop)
  show "mset xs = add_mset (xs ! i) (mset (remove_nth i xs))"
    by (subst xs) (simp add: remove_nth_def)
  show "set (remove_nth i xs) \<subseteq> set xs" by (auto simp: remove_nth_def dest: in_set_takeD in_set_dropD)
  assume "distinct (map f xs)"
  then have "distinct (map f (take i xs @ xs ! i # drop (Suc i) xs))" using xs by simp
  then show "distinct (map f (remove_nth i xs)) \<and> f (xs ! i) \<notin> f ` set (remove_nth i xs)"
    by (auto simp: remove_nth_def)
qed

lemma bodyRead_step:
  assumes "doInv s" "i < length (do_bodies s)"
    and "sendRequest inp (do_bodies s ! i) (s\<lparr>do_bodies := remove_nth i (do_bodies s)\<rparr>) = (s', os)"
  shows "doInv s' \<and> balanced s s' os"
proof -
  define s1 where "s1 = s\<lparr>do_bodies := remove_nth i (do_bodies s)\<rparr>"
  define fc where "fc = do_bodies s ! i"
  note rem = remove_nth_props [OF assms(2)]
  have fc: "fc \<in> set (do_bodies s)" using assms(2) by (simp add: fc_def)
  have s1: "doInv s1"
    using assms(1) rem(2) rem(3) [of fc_promise] rem(3) [of fc_requestId] unfolding doInv_def s1_def by auto
  have f: "fresh fc s1"
    using assms(1) rem(3) [of fc_promise] rem(3) [of fc_requestId] fc
    unfolding doInv_def fresh_def s1_def fc_def by auto
  have open_s: "openPromises s = add_mset (fc_promise fc) (openPromises s1)" "do_next s1 = do_next s"
    using rem(1) by (simp_all add: openPromises_def pendingPromises_def s1_def fc_def)
  show ?thesis
  proof (cases rule: sendRequest_cases [OF f, of inp])
    case (1 t m)
    then show ?thesis
      using assms(3) open_s doInv_add [OF s1 f] open_add [OF f, of "di_now inp"]
      by (auto simp: balanced_def addPending_def simp flip: s1_def fc_def)
  next
    case 2
    then show ?thesis using assms(3) s1 open_s by (auto simp: balanced_def simp flip: s1_def fc_def)
  qed
qed

subsection \<open>The event loop\<close>

fun doGuard :: "do_state \<Rightarrow> do_event \<Rightarrow> bool" where
  "doGuard s (Fetch inp req) \<longleftrightarrow>
     map_get (pendingRequests s) (di_uuid inp) = None \<and> di_uuid inp \<notin> fc_requestId ` set (do_bodies s)"
| "doGuard s _ \<longleftrightarrow> True"

fun wellFormed :: "fetch_api \<Rightarrow> do_state \<Rightarrow> do_event \<Rightarrow> bool" where
  "wellFormed api s (Message inp sock f) \<longleftrightarrow>
     (map_get (do_listeners s) sock = Some TunnelListener \<longrightarrow> rebuildable api (frameText f))"
| "wellFormed api s _ \<longleftrightarrow> True"

lemma doStep_inv:
  assumes "doInv s" "doGuard s e" "doStep api secret s e = (s', os)"
  shows "doInv s' \<and> (balanced s s' os \<or> lossy s s' os \<and> \<not> wellFormed api s e)"
proof -
  have same: "doInv s' \<and> balanced s s' os" if "sameTable s s' \<and> settled os = []"
    using that assms(1) sameTable_inv sameTable_balanced by blast
  have self: "sameTable s s" by (simp add: sameTable_def)
  show ?thesis
  proof (cases e)
    case (Fetch inp req)
    then show ?thesis using assms fetch_step [of s inp secret req s' os] by simp
  next
    case (BodyRead inp i)
    then show ?thesis using assms bodyRead_step [of s i inp s' os] same self by (auto split: if_splits)
  next
    case (TimerFired inp h)
    then show ?thesis using assms timerFired_step [of s h s' os] by simp
  next
    case (Message inp sock f)
    then show ?thesis
      using assms handleTunnelMessage_step [of s api inp "frameText f" s' os] clientMessage_table [of inp _ f s s' os] same self
      by (auto split: option.splits listener.splits)
  next
    case (BlobRead inp i)
    then show ?thesis
      using assms same self
      by (auto simp: sameTable_def relayClientBytes_def relayClientData_def settled_wsSend
          split: if_splits prod.splits option.splits)
  next
    case (Closed inp sock c r)
    then show ?thesis
      using assms tunnelClosed_step [of s s' os] clientClosed_table [of inp _ c r s s' os] same self
      by (auto split: option.splits listener.splits)
  qed
qed

text \<open>The event loop together with all effects so far.\<close>

definition doStepH :: "fetch_api \<Rightarrow> jsstring \<Rightarrow> effect list \<times> do_state \<Rightarrow> do_event
    \<Rightarrow> (effect list \<times> do_state) \<times> effect list" where
  "doStepH api secret h e = (case h of (hist, s) \<Rightarrow> case doStep api secret s e of (s', os) \<Rightarrow> ((hist @ os, s'), os))"

definition atMostOnce :: "effect list \<times> do_state \<Rightarrow> bool" where
  "atMostOnce h \<longleftrightarrow> (case h of (hist, s) \<Rightarrow>
     doInv s \<and> mset (settled hist) + openPromises s \<subseteq># mset [0..<do_next s])"

definition exactlyOnce :: "effect list \<times> do_state \<Rightarrow> bool" where
  "exactlyOnce h \<longleftrightarrow> (case h of (hist, s) \<Rightarrow>
     doInv s \<and> mset (settled hist) + openPromises s = mset [0..<do_next s])"

lemma upt_mset_split: "m \<le> n \<Longrightarrow> mset [0..<n] = mset [0..<m] + mset [m..<n]"
  using upt_add_eq_append [of 0 m "n - m"] by (simp del: mset_upt)

lemma balanced_total:
  assumes "balanced s s' os"
  shows "mset (settled (hist @ os)) + openPromises s' =
    mset (settled hist) + openPromises s + mset [do_next s..<do_next s']"
  using assms by (simp add: balanced_def ac_simps del: mset_upt)

interpretation once: guarded_machine "doStepH api secret" "\<lambda>h e. doGuard (snd h) e" atMostOnce
  for api secret
proof unfold_locales
  fix h :: "effect list \<times> do_state" and e
  assume a: "atMostOnce h" "doGuard (snd h) e"
  obtain hist s where h: "h = (hist, s)" by force
  obtain s' os where st: "doStep api secret s e = (s', os)" by force
  have i: "doInv s'" "balanced s s' os \<or> lossy s s' os"
    using doStep_inv [of s e api secret s' os] a h st by (auto simp: atMostOnce_def)
  have "mset (settled (hist @ os)) + openPromises s' \<subseteq># mset [0..<do_next s']"
    using i(2)
  proof
    assume b: "balanced s s' os"
    show ?thesis
      unfolding balanced_total [OF b]
      using upt_mset_split [of "do_next s" "do_next s'"] a b h
      by (auto simp: atMostOnce_def balanced_def intro: mset_subset_eq_mono_add simp del: mset_upt)
  next
    assume "lossy s s' os"
    then show ?thesis
      using a h by (auto simp: atMostOnce_def lossy_def simp del: mset_upt
          intro: subset_mset.order_trans subset_mset.add_left_mono)
  qed
  then show "atMostOnce (fst (doStepH api secret h e))"
    using i(1) h st by (simp add: atMostOnce_def doStepH_def)
qed

interpretation conserve: guarded_machine "doStepH api secret" "\<lambda>h e. doGuard (snd h) e \<and> wellFormed api (snd h) e" exactlyOnce
  for api secret
proof unfold_locales
  fix h :: "effect list \<times> do_state" and e
  assume a: "exactlyOnce h" "doGuard (snd h) e \<and> wellFormed api (snd h) e"
  obtain hist s where h: "h = (hist, s)" by force
  obtain s' os where st: "doStep api secret s e = (s', os)" by force
  have i: "doInv s'" "balanced s s' os"
    using doStep_inv [of s e api secret s' os] a h st by (auto simp: exactlyOnce_def)
  then have "mset (settled (hist @ os)) + openPromises s' = mset [0..<do_next s']"
    unfolding balanced_total [OF i(2)]
    using upt_mset_split [of "do_next s" "do_next s'"] a h
    by (simp add: exactlyOnce_def balanced_def del: mset_upt)
  then show "exactlyOnce (fst (doStepH api secret h e))"
    using i(1) h st by (simp add: exactlyOnce_def doStepH_def)
qed

lemma run_doStepH:
  "fst (run (doStepH api secret) (hist, s) es) =
     (hist @ snd (run (doStep api secret) s es), fst (run (doStep api secret) s es))"
  by (induction es arbitrary: hist s)
    (simp_all del: run.simps(2) add: fst_run_Cons snd_run_Cons doStepH_def case_prod_beta)

lemma allowed_doStepH:
  "allowed g (doStep api secret) s es \<Longrightarrow> allowed (\<lambda>h e. g (snd h) e) (doStepH api secret) (hist, s) es"
  by (induction es arbitrary: hist s) (simp_all add: doStepH_def case_prod_beta)

lemma atMostOnce_run:
  assumes "allowed doGuard (doStep api secret) newTunnel es"
  shows "atMostOnce (snd (run (doStep api secret) newTunnel es), fst (run (doStep api secret) newTunnel es))"
  using once.inv_run [of "([], newTunnel)" api secret es] allowed_doStepH [OF assms, of "[]"] doInv_new
  by (simp add: run_doStepH atMostOnce_def openPromises_def pendingPromises_def newTunnel_def)

lemma exactlyOnce_run:
  assumes "allowed (\<lambda>s e. doGuard s e \<and> wellFormed api s e) (doStep api secret) newTunnel es"
  shows "exactlyOnce (snd (run (doStep api secret) newTunnel es), fst (run (doStep api secret) newTunnel es))"
  using conserve.inv_run [of "([], newTunnel)" api secret es] allowed_doStepH [OF assms, of "[]"] doInv_new
  by (simp add: run_doStepH exactlyOnce_def openPromises_def pendingPromises_def newTunnel_def)

subsection \<open>A lost promise stays lost\<close>

definition gone :: "nat \<Rightarrow> effect list \<times> do_state \<Rightarrow> bool" where
  "gone n h \<longleftrightarrow> (case h of (hist, s) \<Rightarrow>
     doInv s \<and> n < do_next s \<and> n \<notin> set (settled hist) \<and> n \<notin># openPromises s)"

interpretation lost: guarded_machine "doStepH api secret" "\<lambda>h e. doGuard (snd h) e" "gone n"
  for api secret n
proof unfold_locales
  fix h :: "effect list \<times> do_state" and e
  assume a: "gone n h" "doGuard (snd h) e"
  obtain hist s where h: "h = (hist, s)" by force
  obtain s' os where st: "doStep api secret s e = (s', os)" by force
  have i: "doInv s'" "balanced s s' os \<or> lossy s s' os"
    using doStep_inv [of s e api secret s' os] a h st by (auto simp: gone_def)
  have "n \<notin># mset (settled os) + openPromises s' \<and> do_next s \<le> do_next s'"
    using i(2)
  proof
    assume b: "balanced s s' os"
    then have "mset (settled os) + openPromises s' = openPromises s + mset [do_next s..<do_next s']"
      by (simp add: balanced_def)
    then show ?thesis using a h b by (auto simp: gone_def balanced_def simp del: union_iff mset_upt)
  next
    assume "lossy s s' os"
    then show ?thesis using a h by (auto simp: gone_def lossy_def dest: mset_subset_eqD)
  qed
  then show "gone n (fst (doStepH api secret h e))"
    using i(1) a h st by (auto simp: gone_def doStepH_def)
qed

lemma gone_run:
  assumes "gone n ([], s)" "allowed doGuard (doStep api secret) s es"
  shows "n \<notin> set (settled (snd (run (doStep api secret) s es)))"
  using lost.inv_run [of n "([], s)" api secret es] assms allowed_doStepH [OF assms(2), of "[]"]
  by (simp add: run_doStepH gone_def)

subsection \<open>Firing every timer empties the table\<close>

lemma timerFired_timers:
  "do_timers (fst (timerFired h s)) = map_delete h (do_timers s)"
  by (auto simp: timerFired_def clearTimeout_def Let_def map_delete_absent split: option.split)

lemma run_timers:
  assumes "doInv s"
  shows "doInv (fst (run (doStep api secret) s (map (TimerFired inp) hs)))"
    "do_timers (fst (run (doStep api secret) s (map (TimerFired inp) hs))) = fold map_delete hs (do_timers s)"
  using assms
  by (induction hs arbitrary: s)
    (simp_all del: run.simps(2) add: fst_run_Cons timerFired_timers timerFired_step [OF _ surjective_pairing])

lemma no_timers_no_pending:
  assumes "doInv s" "\<And>h. map_get (do_timers s) h = None"
  shows "pendingRequests s = []"
proof (cases "pendingRequests s")
  case (Cons kp rest)
  then have "map_get (pendingRequests s) (fst kp) = Some (snd kp)" by (cases kp) simp
  then show ?thesis using assms unfolding doInv_def by fastforce
qed simp

lemma pending_entry:
  assumes "doInv s" "(k, p) \<in> set (pendingRequests s)"
  shows "\<exists>h t. map_get (pendingRequests s) k = Some \<lparr>pd_promise = pd_promise p, pd_timeout = h\<rparr> \<and>
    map_get (do_timers s) h = Some t \<and> tm_requestId t = k \<and> tm_promise t = pd_promise p"
proof -
  have g: "map_get (pendingRequests s) k = Some p"
    using assms map_get_eq_Some_iff [of "pendingRequests s" k p] by (simp add: doInv_def)
  then obtain t where "map_get (do_timers s) (pd_timeout p) = Some t" "tm_requestId t = k" "tm_promise t = pd_promise p"
    using assms(1) unfolding doInv_def by blast
  then show ?thesis using g by (intro exI [of _ "pd_timeout p"] exI [of _ t]) simp
qed

lemma run_timers_bodies: "do_bodies (fst (run (doStep api secret) s (map (TimerFired inp) hs))) = do_bodies s"
  by (induction hs arbitrary: s)
    (simp_all del: run.simps(2) add: fst_run_Cons timerFired_def clearTimeout_def Let_def split: option.split)

lemma allowed_timers:
  "allowed (\<lambda>s e. doGuard s e \<and> wellFormed api s e) (doStep api secret) s (map (TimerFired inp) hs)"
  by (induction hs arbitrary: s) auto

subsection \<open>A sample run\<close>

definition sampleTunnelReq :: http_request where
  "sampleTunnelReq =
     \<lparr>req_method = js ''GET'',
      req_url = \<lparr>href = [], hostname = js ''localhost'', pathname = js ''/tunnel'',
                 searchParams = [(js ''auth'', js ''shared'')]\<rparr>,
      req_headers = [(js ''upgrade'', js ''websocket'')], req_body = None\<rparr>"

definition sampleGet :: http_request where
  "sampleGet =
     \<lparr>req_method = js ''GET'',
      req_url = \<lparr>href = [], hostname = js ''localhost'', pathname = js ''/key'', searchParams = []\<rparr>,
      req_headers = [], req_body = None\<rparr>"

definition sampleDoInputs :: "string \<Rightarrow> do_inputs" where
  "sampleDoInputs uuid = \<lparr>di_now = 0, di_uuid = js uuid, di_registry = None, di_open = (\<lambda>_. True)\<rparr>"

lemma upgrade_header: "toLowerCase (js ''Upgrade'') = js ''upgrade''"
  "toLowerCase (js ''Sec-WebSocket-Key'') = js ''sec-websocket-key''"
  by (simp_all add: toLowerCase_def js_literal lowerUnit_def)

lemma accept_sample: "acceptTunnel (js ''shared'') (sampleDoInputs u) n sampleTunnelReq s =
    (addListener n TunnelListener (s\<lparr>tunnel := Some n\<rparr>), [Settle n (Resolved (upgraded n))])"
  by (simp add: acceptTunnel_def checkAuth_def notWebSocket_def sampleTunnelReq_def sampleDoInputs_def
      extractFingerprint_def headersGet_def upgrade_header)

lemma fetch_sampleTunnel: "tunnelFetch (js ''shared'') (sampleDoInputs u) sampleTunnelReq s =
    (s\<lparr>do_next := Suc (do_next s), tunnel := Some (do_next s),
       do_listeners := map_set (do_next s) TunnelListener (do_listeners s)\<rparr>,
     [Settle (do_next s) (Resolved (upgraded (do_next s)))])"
  using accept_sample [of u "do_next s" "s\<lparr>do_next := Suc (do_next s)\<rparr>"]
  by (simp add: tunnelFetch_def addListener_def Let_def sampleTunnelReq_def)

lemma sampleGet_plain: "\<not> wantsWebSocket sampleGet" "pathname (req_url sampleGet) \<noteq> js ''/tunnel''" "req_body sampleGet = None"
  by (simp_all add: sampleGet_def wantsWebSocket_def headersGet_def)

lemma fetch_sampleGet: "tunnel s = Some t \<Longrightarrow> \<exists>m. tunnelFetch secret (sampleDoInputs u) sampleGet s =
    (addPending 0 \<lparr>fc_promise = do_next s, fc_requestId = js u, fc_request = sampleGet\<rparr>
       (s\<lparr>do_next := Suc (do_next s)\<rparr>), [Send t (TextFrame m)])"
  by (auto simp: tunnelFetch_def forwardToHeadscale_def sampleGet_plain sendRequest_def encodeBody_def Let_def
      wsSend_def setTimeout_def sampleDoInputs_def addPending_def)

definition strictApi :: fetch_api where
  "strictApi =
     \<lparr>newResponse = (\<lambda>b st hs. case (b, st) of
        (InitNull, Some (JNum n 0)) \<Rightarrow>
          if 200 \<le> n \<and> n \<le> 599
          then Some \<lparr>resp_status = n, resp_headers = [], resp_body = NullBody, resp_webSocket = None\<rparr> else None
      | _ \<Rightarrow> None),
      closeArgsOk = (\<lambda>_ _. True)\<rparr>"

definition sampleTrace :: "do_event list" where
  "sampleTrace = [Fetch (sampleDoInputs ''t'') sampleTunnelReq, Fetch (sampleDoInputs ''a'') sampleGet]"

definition sampleState :: do_state where
  "sampleState =
     \<lparr>tunnel = Some 0,
      pendingRequests = [(js ''a'', \<lparr>pd_promise = 1, pd_timeout = 1\<rparr>)],
      wsConnections = [],
      do_timers = [(1, \<lparr>tm_deadline = 30000, tm_requestId = js ''a'', tm_promise = 1\<rparr>)],
      do_listeners = [(0, TunnelListener)], do_bodies = [], do_blobs = [], do_next = 2\<rparr>"

lemma sample_trace:
  "fst (run (doStep api (js ''shared'')) newTunnel sampleTrace) = sampleState"
  "settled (snd (run (doStep api (js ''shared'')) newTunnel sampleTrace)) = [0]"
  "allowed doGuard (doStep api (js ''shared'')) newTunnel sampleTrace"
  "allowed (\<lambda>s e. doGuard s e \<and> wellFormed api s e) (doStep api (js ''shared'')) newTunnel sampleTrace"
proof -
  let ?s = "\<lparr>tunnel = Some 0, pendingRequests = [], wsConnections = [], do_timers = [],
      do_listeners = [(0, TunnelListener)], do_bodies = [], do_blobs = [], do_next = Suc 0\<rparr>"
  have 1: "tunnelFetch (js ''shared'') (sampleDoInputs ''t'') sampleTunnelReq newTunnel = (?s, [Settle 0 (Resolved (upgraded 0))])"
    using fetch_sampleTunnel [of "''t''" newTunnel] by (simp add: newTunnel_def map_set_def)
  obtain m where 2: "tunnelFetch (js ''shared'') (sampleDoInputs ''a'') sampleGet ?s = (sampleState, [Send 0 (TextFrame m)])"
    using fetch_sampleGet [of ?s 0 "js ''shared''" "''a''"]
    by (auto simp: addPending_def newTunnel_def map_set_def sampleState_def)
  show "fst (run (doStep api (js ''shared'')) newTunnel sampleTrace) = sampleState"
    "settled (snd (run (doStep api (js ''shared'')) newTunnel sampleTrace)) = [0]"
    "allowed doGuard (doStep api (js ''shared'')) newTunnel sampleTrace"
    "allowed (\<lambda>s e. doGuard s e \<and> wellFormed api s e) (doStep api (js ''shared'')) newTunnel sampleTrace"
    by (simp_all add: sampleTrace_def 1 2) (simp_all add: newTunnel_def)
qed

lemma sampleState_inv: "doInv sampleState"
  using atMostOnce_run [OF sample_trace(3) [of strictApi]] by (simp add: atMostOnce_def sample_trace)

subsection \<open>Properties\<close>

text \<open>
  C2. Every call of \<open>fetch\<close> is answered at most once: in any run of the event loop, whatever the
  sidecar sends and however often tunnels open and close, no promise is settled twice, and a settled
  promise is no longer in the request table.
\<close>

theorem settled_at_most_once:
  assumes "allowed doGuard (doStep api secret) newTunnel es"
    and "run (doStep api secret) newTunnel es = (s, os)"
  shows "distinct (settled os) \<and> (\<forall>n\<in>set (settled os). n < do_next s \<and> n \<notin># openPromises s)"
proof -
  have m: "mset (settled os) + openPromises s \<subseteq># mset [0..<do_next s]"
    using atMostOnce_run [OF assms(1)] assms(2) by (simp add: atMostOnce_def)
  have c: "count (mset (settled os)) n + count (openPromises s) n \<le> count (mset [0..<do_next s]) n" for n
    using mset_subset_eq_count [OF m, of n] by (simp del: mset_upt)
  have one: "count (mset [0..<do_next s]) n \<le> 1" for n
    using distinct_count_atmost_1 [of "[0..<do_next s]"] by (auto simp del: mset_upt)
  have "count (mset (settled os)) n \<le> 1" for n using c [of n] one [of n] by linarith
  then have "distinct (settled os)" by (auto simp: distinct_count_atmost_1 count_eq_zero_iff le_Suc_eq)
  moreover have "n < do_next s \<and> n \<notin># openPromises s" if "n \<in> set (settled os)" for n
  proof -
    have "0 < count (mset (settled os)) n" using that by (simp add: count_greater_zero_iff)
    then have "0 < count (mset [0..<do_next s]) n" "count (openPromises s) n = 0"
      using c [of n] one [of n] by linarith+
    then show ?thesis by (simp add: count_greater_zero_iff count_eq_zero_iff)
  qed
  ultimately show ?thesis by blast
qed

theorem settled_at_most_once_witness:
  "distinct (settled (snd (run (doStep strictApi (js ''shared'')) newTunnel sampleTrace)))"
  using settled_at_most_once [OF sample_trace(3) surjective_pairing, of strictApi] by blast

text \<open>
  C6. No request is lost: as long as every response the sidecar sends for a pending request can
  be turned into an HTTP response, each call of \<open>fetch\<close> so far has been settled, or waits for
  its body, or is in the request table with its timer armed.
\<close>

theorem no_request_lost:
  assumes "allowed (\<lambda>s e. doGuard s e \<and> wellFormed api s e) (doStep api secret) newTunnel es"
    and "run (doStep api secret) newTunnel es = (s, os)" "n < do_next s"
  shows "n \<in> set (settled os) \<or> n \<in> fc_promise ` set (do_bodies s) \<or>
    (\<exists>k h t. map_get (pendingRequests s) k = Some \<lparr>pd_promise = n, pd_timeout = h\<rparr> \<and>
       map_get (do_timers s) h = Some t \<and> tm_requestId t = k \<and> tm_promise t = n)"
proof -
  have i: "doInv s" "mset (settled os) + openPromises s = mset [0..<do_next s]"
    using exactlyOnce_run [OF assms(1)] assms(2) by (simp_all add: exactlyOnce_def)
  have "n \<in># mset [0..<do_next s]" using assms(3) by simp
  then have "n \<in># mset (settled os) + openPromises s" unfolding i(2) .
  then consider "n \<in> set (settled os)" | "n \<in> fc_promise ` set (do_bodies s)"
    | kp where "kp \<in> set (pendingRequests s)" "n = pd_promise (snd kp)"
    by (auto simp: openPromises_def pendingPromises_def)
  then show ?thesis
  proof cases
    case (3 kp)
    then show ?thesis using pending_entry [OF i(1), of "fst kp" "snd kp"] by auto
  qed simp_all
qed

theorem no_request_lost_witness:
  "\<exists>k h t. map_get (pendingRequests sampleState) k = Some \<lparr>pd_promise = 1, pd_timeout = h\<rparr> \<and>
     map_get (do_timers sampleState) h = Some t \<and> tm_requestId t = k \<and> tm_promise t = 1"
proof -
  have "1 < do_next sampleState" "do_bodies sampleState = []" by (simp_all add: sampleState_def)
  then show ?thesis
    using no_request_lost [OF sample_trace(4) surjective_pairing, of 1 strictApi] by (simp add: sample_trace)
qed

text \<open>
  C11. Every armed timer belongs to exactly one pending request and every pending request has its
  timer: in every reachable state, the two tables describe each other, so a request is neither left
  without a timeout nor timed out after it was answered.
\<close>

theorem pending_iff_timer:
  assumes "allowed doGuard (doStep api secret) newTunnel es"
    and "run (doStep api secret) newTunnel es = (s, os)"
  shows "map_get (pendingRequests s) k = Some \<lparr>pd_promise = n, pd_timeout = h\<rparr> \<longleftrightarrow>
    (\<exists>t. map_get (do_timers s) h = Some t \<and> tm_requestId t = k \<and> tm_promise t = n)"
proof -
  have "doInv s" using atMostOnce_run [OF assms(1)] assms(2) by (simp add: atMostOnce_def)
  then show ?thesis unfolding doInv_def by fastforce
qed

theorem pending_iff_timer_witness:
  "map_get (pendingRequests sampleState) (js ''a'') = Some \<lparr>pd_promise = 1, pd_timeout = 1\<rparr> \<longleftrightarrow>
    (\<exists>t. map_get (do_timers sampleState) 1 = Some t \<and> tm_requestId t = js ''a'' \<and> tm_promise t = 1)"
  using pending_iff_timer [OF sample_trace(3) surjective_pairing, of strictApi "js ''a''" 1 1]
  by (simp add: sample_trace)



text \<open>
  C25. When a tunnel closes, every pending request is rejected with \<open>Tunnel closed\<close>, in the order
  the requests were made, no timer stays armed and the object has no tunnel.
\<close>

theorem close_rejects_all:
  assumes "allowed doGuard (doStep api secret) newTunnel es"
    and "run (doStep api secret) newTunnel es = (s, os)" "map_get (do_listeners s) sock = Some TunnelListener"
    and "doStep api secret s (Closed inp sock code reason) = (s', os')"
  shows "os' = map (\<lambda>(k, p). Settle (pd_promise p) (Rejected TunnelClosed)) (pendingRequests s) \<and>
    pendingRequests s' = [] \<and> (\<forall>h. map_get (do_timers s') h = None) \<and> tunnel s' = None \<and>
    wsConnections s' = wsConnections s"
proof -
  have "doInv s" using atMostOnce_run [OF assms(1)] assms(2) by (simp add: atMostOnce_def)
  then have "map_get (do_timers s') h = None" for h
    using tunnelClosed_timers [of s h] assms(3,4) by simp
  then show ?thesis using assms(3,4) by (auto simp: tunnelClosed_eq)
qed

theorem close_rejects_all_witness:
  "snd (doStep strictApi (js ''shared'') sampleState (Closed (sampleDoInputs []) 0 1006 [])) =
     [Settle 1 (Rejected TunnelClosed)]"
proof -
  have "map_get (do_listeners sampleState) 0 = Some TunnelListener" by (simp add: sampleState_def)
  then show ?thesis
    using close_rejects_all [OF sample_trace(3) surjective_pairing _ surjective_pairing,
        of strictApi 0 "sampleDoInputs []" 1006 "[]"]
    by (simp add: sample_trace del: doStep.simps) (simp add: sampleState_def)
qed

text \<open>
  A request that times out is rejected with \<open>Request timeout\<close> and leaves the table; every other
  pending request and its timer are untouched.
\<close>

theorem timeout_rejects_one:
  assumes "allowed doGuard (doStep api secret) newTunnel es"
    and "run (doStep api secret) newTunnel es = (s, os)"
    and "map_get (pendingRequests s) k = Some p"
    and "doStep api secret s (TimerFired inp (pd_timeout p)) = (s', os')"
  shows "os' = [Settle (pd_promise p) (Rejected RequestTimeout)] \<and>
    (\<forall>k'. map_get (pendingRequests s') k' = (if k' = k then None else map_get (pendingRequests s) k')) \<and>
    (\<forall>h. map_get (do_timers s') h = (if h = pd_timeout p then None else map_get (do_timers s) h))"
proof -
  have "doInv s" using atMostOnce_run [OF assms(1)] assms(2) by (simp add: atMostOnce_def)
  then obtain t where "map_get (do_timers s) (pd_timeout p) = Some t" "tm_requestId t = k" "tm_promise t = pd_promise p"
    using assms(3) unfolding doInv_def by blast
  then show ?thesis
    using assms(4) by (auto simp: timerFired_def clearTimeout_def Let_def js_map.get_del)
qed

theorem timeout_rejects_one_witness:
  "snd (doStep strictApi (js ''shared'') sampleState (TimerFired (sampleDoInputs []) 1)) =
     [Settle 1 (Rejected RequestTimeout)]"
proof -
  have "map_get (pendingRequests sampleState) (js ''a'') = Some \<lparr>pd_promise = 1, pd_timeout = 1\<rparr>"
    by (simp add: sampleState_def)
  then show ?thesis
    using timeout_rejects_one [OF sample_trace(3) surjective_pairing _ surjective_pairing,
        of strictApi "js ''a''" "\<lparr>pd_promise = 1, pd_timeout = 1\<rparr>" "sampleDoInputs []"]
    by (simp add: sample_trace del: doStep.simps)
qed

text \<open>
  C35. A response that cannot be rebuilt loses its request for good: when the sidecar answers a
  pending request with a body that is not base64 or a status the \<open>Response\<close> constructor refuses,
  the timer is cleared and the entry removed before the exception, so the client's promise is never
  settled, in no continuation of the run.
\<close>

theorem malformed_response_loses_request:
  assumes "allowed doGuard (doStep api secret) newTunnel es"
    and "run (doStep api secret) newTunnel es = (s, os)"
    and "map_get (do_listeners s) sock = Some TunnelListener" "map_get (pendingRequests s) k = Some p"
    and "JSON_parse (frameText f) = Some m" "getProp (Some m) ''type'' = Some (Some (JStr (js ''response'')))"
    and "getProp (Some m) ''data'' = Some (Some d)" "getProp (Some d) ''id'' = Some (Some (JStr k))"
    and "reconstruct api d = None"
    and "allowed doGuard (doStep api secret) (fst (doStep api secret s (Message inp sock f))) es'"
  shows "pd_promise p \<notin> set (settled (os @ snd (run (doStep api secret) s (Message inp sock f # es'))))"
proof -
  have m: "doInv s" "mset (settled os) + openPromises s \<subseteq># mset [0..<do_next s]"
    using atMostOnce_run [OF assms(1)] assms(2) by (simp_all add: atMostOnce_def)
  have st: "doStep api secret s (Message inp sock f) = (dropPending k (pd_timeout p) s, [])"
    using assms(3-9)
    by (simp add: handleTunnelMessage_def onResponse_def getByKey_def stringKey_def dropPending_def clearTimeout_def Let_def)
  have o: "openPromises s = add_mset (pd_promise p) (openPromises (dropPending k (pd_timeout p) s))"
    by (rule open_drop [OF m(1) assms(4)])
  have "count (mset [0..<do_next s]) (pd_promise p) \<le> 1"
    using distinct_count_atmost_1 [of "[0..<do_next s]"] by (auto simp del: mset_upt)
  moreover have "count (mset (settled os)) (pd_promise p) +
      Suc (count (openPromises (dropPending k (pd_timeout p) s)) (pd_promise p)) \<le>
      count (mset [0..<do_next s]) (pd_promise p)"
    using mset_subset_eq_count [OF m(2), of "pd_promise p"] unfolding o by (simp del: mset_upt)
  ultimately have z: "count (mset (settled os)) (pd_promise p) = 0"
      "count (openPromises (dropPending k (pd_timeout p) s)) (pd_promise p) = 0" by linarith+
  have "pd_promise p < do_next s" using m(1) assms(4) unfolding doInv_def by blast
  then have "gone (pd_promise p) ([], dropPending k (pd_timeout p) s)"
    using doInv_drop [OF m(1) assms(4)] z(2) by (simp add: gone_def count_eq_zero_iff) (simp add: dropPending_def)
  from gone_run [OF this, of api secret es'] show ?thesis
    using assms(10) z(1) by (simp del: run.simps(2) doStep.simps add: snd_run_Cons st count_eq_zero_iff)
qed

definition sampleBad :: tunnel_message where
  "sampleBad = Response \<lparr>tr_id = js ''a'', tr_status = 99, tr_headers = [], tr_body = None, tr_isBinary = None\<rparr>"

lemma sampleBad_json: "messageJson sampleBad = JObj
    [(js ''type'', JStr (js ''response'')),
     (js ''data'', JObj [(js ''id'', JStr (js ''a'')), (js ''status'', JInt 99), (js ''headers'', JObj [])])]"
  by (simp add: sampleBad_def messageJson_def headersObject_def mkObj_def)

lemma sampleBad_parse: "JSON_parse (messageText sampleBad) = Some (messageJson sampleBad)"
  unfolding messageText_def by (rule JSON_parse_stringify) (simp add: sampleBad_json map_ok_def safeInteger_def)

theorem malformed_response_loses_request_witness:
  "1 \<notin> set (settled (snd (run (doStep strictApi (js ''shared'')) newTunnel sampleTrace) @
     snd (run (doStep strictApi (js ''shared'')) sampleState
       [Message (sampleDoInputs []) 0 (TextFrame (messageText sampleBad)), TimerFired (sampleDoInputs []) 1])))"
proof -
  have "map_get (do_listeners sampleState) 0 = Some TunnelListener"
      "map_get (pendingRequests sampleState) (js ''a'') = Some \<lparr>pd_promise = 1, pd_timeout = 1\<rparr>"
    by (simp_all add: sampleState_def)
  moreover have "reconstruct strictApi (JObj [(js ''id'', JStr (js ''a'')), (js ''status'', JInt 99), (js ''headers'', JObj [])]) = None"
    by (simp add: reconstruct_def strictApi_def)
  ultimately show ?thesis
    using malformed_response_loses_request [OF sample_trace(3) surjective_pairing, of strictApi 0 "js ''a''"
        "\<lparr>pd_promise = 1, pd_timeout = 1\<rparr>" "TextFrame (messageText sampleBad)" "messageJson sampleBad"
        "JObj [(js ''id'', JStr (js ''a'')), (js ''status'', JInt 99), (js ''headers'', JObj [])]"
        "sampleDoInputs []" "[TimerFired (sampleDoInputs []) 1]"]
    by (simp add: sample_trace sampleBad_parse sampleBad_json del: run.simps doStep.simps settled_simps(5))
qed

text \<open>
  C37. A tunnel that was replaced still disconnects its successor: after a second sidecar connection
  was accepted, the close event of the first one leaves the object without a tunnel, and the next
  client request is answered with 503 although the second tunnel never closed.
\<close>

theorem stale_close_disconnects:
  assumes "pathname (req_url req) = js ''/tunnel''" "checkAuth secret inp1 req = Some True"
    and "checkAuth secret inp2 req = Some True" "\<not> notWebSocket req"
    and "pathname (req_url creq) \<noteq> js ''/tunnel''" "\<not> wantsWebSocket creq"
  shows "snd (run (doStep api secret) newTunnel
      [Fetch inp1 req, Fetch inp2 req, Closed inp3 0 code reason, Fetch inp4 creq]) =
    [Settle 0 (Resolved (upgraded 0)), Settle 1 (Resolved (upgraded 1)), Settle 2 (Resolved notConnected)]"
  using assms
  by (simp add: tunnelFetch_def acceptTunnel_def addListener_def newTunnel_def map_set_def tunnelClosed_eq
      forwardToHeadscale_def Let_def)

theorem stale_close_disconnects_witness:
  "snd (run (doStep strictApi (js ''shared'')) newTunnel
      [Fetch (sampleDoInputs []) sampleTunnelReq, Fetch (sampleDoInputs []) sampleTunnelReq,
       Closed (sampleDoInputs []) 0 1006 [], Fetch (sampleDoInputs []) sampleGet]) =
    [Settle 0 (Resolved (upgraded 0)), Settle 1 (Resolved (upgraded 1)), Settle 2 (Resolved notConnected)]"
  by (rule stale_close_disconnects)
    (simp_all add: sampleGet_plain, simp_all add: sampleTunnelReq_def checkAuth_def notWebSocket_def sampleDoInputs_def
      extractFingerprint_def headersGet_def upgrade_header)

end
