(* ===== verification/TunnelAuth.thy ===== *)
theory TunnelAuth
  imports TunnelSafety Samples
begin

text \<open>
  Who may hold a tunnel. Every socket whose messages the Durable Object handles as tunnel messages,
  and in particular the one it sends requests to, comes from a call of \<open>fetch\<close> on \<open>/tunnel\<close> that
  presented the secret registered for the fingerprint of its host name (headfwd-proxy/src/tunnel-do.ts,
  \<open>acceptTunnel\<close>), in every run of the event loop.
\<close>

subsection \<open>The check\<close>

text \<open>What \<open>acceptTunnel\<close> promises of the caller.\<close>

definition presentsSecret :: "jsstring \<Rightarrow> do_inputs \<Rightarrow> http_request \<Rightarrow> bool" where
  "presentsSecret tunnelSecret inp req \<longleftrightarrow>
     (\<exists>auth. map_get (searchParams (req_url req)) (js ''auth'') = Some auth \<and> auth \<noteq> [] \<and>
        (case (extractFingerprint (hostname (req_url req)), di_registry inp) of
           (Some fp, Some get) \<Rightarrow>
             (\<exists>d parsed. get (tunnelKey fp) = Some (Some d) \<and> d \<noteq> [] \<and> JSON_parse d = Some parsed \<and>
                getProp (Some parsed) ''secret'' = Some (Some (JStr auth)))
         | _ \<Rightarrow> auth = tunnelSecret))"

lemma checkAuth_iff: "checkAuth tunnelSecret inp req = Some True \<longleftrightarrow> presentsSecret tunnelSecret inp req"
  unfolding checkAuth_def presentsSecret_def Let_def
  by (auto simp: bind_eq_Some_conv split: option.splits if_splits)

subsection \<open>Sockets and the calls they come from\<close>

fun fetchOf :: "do_event \<Rightarrow> (do_inputs \<times> http_request) list" where
  "fetchOf (Fetch inp req) = [(inp, req)]"
| "fetchOf _ = []"

definition fetches :: "do_event list \<Rightarrow> (do_inputs \<times> http_request) list" where
  "fetches es = concat (map fetchOf es)"

definition authorizedFetch :: "jsstring \<Rightarrow> do_inputs \<times> http_request \<Rightarrow> bool" where
  "authorizedFetch secret f \<longleftrightarrow> (case f of (inp, req) \<Rightarrow>
     pathname (req_url req) = js ''/tunnel'' \<and> presentsSecret secret inp req \<and> \<not> notWebSocket req)"

definition authInv :: "jsstring \<Rightarrow> do_event list \<times> do_state \<Rightarrow> bool" where
  "authInv secret h \<longleftrightarrow> (case h of (es, s) \<Rightarrow>
     do_next s = length (fetches es) \<and>
     (\<forall>n. map_get (do_listeners s) n = Some TunnelListener \<longrightarrow>
        n < length (fetches es) \<and> authorizedFetch secret (fetches es ! n)) \<and>
     (\<forall>n. tunnel s = Some n \<longrightarrow> map_get (do_listeners s) n = Some TunnelListener))"

lemma fetches_snoc: "fetches (es @ [e]) = fetches es @ fetchOf e"
  by (simp add: fetches_def)

text \<open>The handlers that create no tunnel listener and set no tunnel.\<close>

definition keepsTunnel :: "do_state \<Rightarrow> do_state \<Rightarrow> bool" where
  "keepsTunnel s s' \<longleftrightarrow>
     do_listeners s' = do_listeners s \<and> do_next s' = do_next s \<and> tunnel s' \<in> {None, tunnel s}"

lemma keepsTunnel_handlers:
  "keepsTunnel s (fst (sendRequest inp fc s))" "keepsTunnel s (fst (timerFired h s))"
  "keepsTunnel s (fst (tunnelClosed s))" "keepsTunnel s (fst (clientMessage inp wsId f s))"
  "keepsTunnel s (fst (clientClosed inp wsId code reason s))" "keepsTunnel s (fst (onResponse api d s))"
  "keepsTunnel s (fst (onWsClose api d s))"
  by (simp_all add: keepsTunnel_def sendRequest_def timerFired_def tunnelClosed_eq clientMessage_def clientClosed_def
      onResponse_def onWsClose_def setTimeout_def clearTimeout_def Let_def split: option.split prod.split frame.split)

lemma keepsTunnel_message: "keepsTunnel s (fst (handleTunnelMessage api inp data s))"
  using keepsTunnel_handlers(6,7)
  by (simp add: handleTunnelMessage_def split: option.split) (simp add: keepsTunnel_def)

lemma authInv_keeps:
  assumes "authInv secret (es, s)" "keepsTunnel s s'" "fetchOf e = []"
  shows "authInv secret (es @ [e], s')"
  using assms by (auto simp: authInv_def keepsTunnel_def fetches_snoc)

lemma authInv_fetch:
  assumes "authInv secret (es, s)" "tunnelFetch secret inp req s = (s', os)"
  shows "authInv secret (es @ [Fetch inp req], s')"
proof -
  let ?n = "do_next s" and ?s0 = "s\<lparr>do_next := Suc (do_next s)\<rparr>"
  have n: "?n = length (fetches es)" using assms(1) by (simp add: authInv_def)
  have new: "map_get (do_listeners s) ?n \<noteq> Some TunnelListener" using assms(1) n by (auto simp: authInv_def)
  have keep: "authInv secret (es @ [Fetch inp req], s')"
    if "do_listeners s' = do_listeners s \<or> do_listeners s' = map_set ?n (ClientListener (di_uuid inp)) (do_listeners s)"
      "tunnel s' = tunnel s" "do_next s' = Suc ?n"
    using assms(1) that n new by (auto simp: authInv_def fetches_snoc nth_append js_map.get_put split: if_splits)
  show ?thesis
  proof (cases "pathname (req_url req) = js ''/tunnel''")
    case True
    have "authInv secret (es @ [Fetch inp req], s')"
      if "s' = addListener ?n TunnelListener (?s0\<lparr>tunnel := Some ?n\<rparr>)" "presentsSecret secret inp req" "\<not> notWebSocket req"
      using that assms(1) n True
      by (auto simp: authInv_def fetches_snoc addListener_def js_map.get_put nth_append authorizedFetch_def less_Suc_eq)
    then show ?thesis
      using True assms(2) keep checkAuth_iff [of secret inp req]
      by (auto simp: tunnelFetch_def acceptTunnel_def Let_def split: option.splits bool.splits if_splits)
  next
    case False
    then have "forwardToHeadscale inp ?n req ?s0 = (s', os)" using assms(2) by (simp add: tunnelFetch_def Let_def)
    then show ?thesis
    proof (cases rule: forward_cases)
      case websocket
      then show ?thesis
        using keep by (auto simp: forwardWebSocket_def addListener_def Let_def split: option.splits if_splits)
    next
      case send
      then show ?thesis
        using keep keepsTunnel_handlers(1) [of ?s0 inp "\<lparr>fc_promise = ?n, fc_requestId = di_uuid inp, fc_request = req\<rparr>"]
        by (auto simp: keepsTunnel_def sendRequest_def setTimeout_def clearTimeout_def Let_def split: option.splits prod.splits)
    qed (use keep in simp_all)
  qed
qed

lemma authInv_step:
  assumes "authInv secret (es, s)"
  shows "authInv secret (es @ [e], fst (doStep api secret s e))"
proof (cases e)
  case (Fetch inp req)
  then show ?thesis using authInv_fetch [OF assms, of inp req] by (metis doStep.simps(1) prod.collapse)
next
  case (BodyRead inp i)
  have "keepsTunnel s (fst (doStep api secret s e))"
    using keepsTunnel_handlers(1) [of "s\<lparr>do_bodies := remove_nth i (do_bodies s)\<rparr>" inp "do_bodies s ! i"] BodyRead
    by (simp add: keepsTunnel_def)
  then show ?thesis using BodyRead by (intro authInv_keeps [OF assms]) simp_all
next
  case (TimerFired inp h)
  then show ?thesis by (intro authInv_keeps [OF assms]) (simp_all add: keepsTunnel_handlers)
next
  case (Message inp sock f)
  then show ?thesis
    by (intro authInv_keeps [OF assms])
      (auto simp: keepsTunnel_handlers keepsTunnel_message split: option.split listener.split, simp_all add: keepsTunnel_def)
next
  case (BlobRead inp i)
  then show ?thesis by (intro authInv_keeps [OF assms]) (simp_all add: keepsTunnel_def)
next
  case (Closed inp sock code reason)
  then show ?thesis
    by (intro authInv_keeps [OF assms])
      (auto simp: keepsTunnel_handlers split: option.split listener.split, simp_all add: keepsTunnel_def)
qed

definition doStepE :: "fetch_api \<Rightarrow> jsstring \<Rightarrow> do_event list \<times> do_state \<Rightarrow> do_event
    \<Rightarrow> (do_event list \<times> do_state) \<times> effect list" where
  "doStepE api secret h e = (case h of (es, s) \<Rightarrow> case doStep api secret s e of (s', os) \<Rightarrow> ((es @ [e], s'), os))"

interpretation auth: guarded_machine "doStepE api secret" "\<lambda>_ _. True" "authInv secret"
  for api secret
  using authInv_step by unfold_locales (auto simp: doStepE_def case_prod_beta)

lemma run_doStepE: "fst (run (doStepE api secret) (es, s) fs) = (es @ fs, fst (run (doStep api secret) s fs))"
  by (induction fs arbitrary: es s)
    (simp_all del: run.simps(2) add: fst_run_Cons doStepE_def case_prod_beta)

lemma allowed_always: "allowed (\<lambda>_ _. True) step s es"
  by (induction es arbitrary: s) auto

lemma authInv_run: "authInv secret (es, fst (run (doStep api secret) newTunnel es))"
proof -
  have "authInv secret ([], newTunnel)" by (simp add: authInv_def newTunnel_def fetches_def)
  from auth.inv_run [OF this allowed_always, of api es] show ?thesis by (simp add: run_doStepE)
qed

subsection \<open>Properties\<close>

text \<open>
  C3. Only an authenticated sidecar holds the tunnel: in every run, the socket the Durable Object
  sends client requests to, and every socket whose frames it handles as tunnel messages, was opened
  by a WebSocket request for \<open>/tunnel\<close> whose \<open>auth\<close> parameter was the secret registered for the
  fingerprint of its host at that time (or the configured secret, where there is no registry).
\<close>

theorem tunnel_authenticated:
  assumes "run (doStep api secret) newTunnel es = (s, os)"
    and "tunnel s = Some n \<or> map_get (do_listeners s) n = Some TunnelListener"
  shows "n < length (fetches es) \<and> authorizedFetch secret (fetches es ! n)"
  using authInv_run [of secret es api] assms by (auto simp: authInv_def)

theorem tunnel_authenticated_witness: "authorizedFetch (js ''shared'') (fetches sampleTrace ! 0)"
proof -
  have "tunnel sampleState = Some 0" by (simp add: sampleState_def)
  then show ?thesis
    using tunnel_authenticated [OF surjective_pairing, of strictApi "js ''shared''" sampleTrace 0]
    by (simp add: sample_trace)
qed

text \<open>
  C26. A request for \<open>/tunnel\<close> is answered with 101 and becomes the tunnel exactly when it presents
  the secret and asks for a WebSocket; in every other case the object's state does not change apart
  from the call counter.
\<close>

theorem accept_iff_authorized:
  assumes "pathname (req_url req) = js ''/tunnel''" "tunnelFetch secret inp req s = (s', os)"
  shows "if authorizedFetch secret (inp, req)
    then os = [Settle (do_next s) (Resolved (upgraded (do_next s)))] \<and> tunnel s' = Some (do_next s)
    else s' = s\<lparr>do_next := Suc (do_next s)\<rparr> \<and>
      (\<exists>r. os = [Settle (do_next s) r] \<and>
         r \<in> {Rejected HandlerThrew, Resolved (textResponse 401 ''Unauthorized''), Resolved (textResponse 426 ''Expected WebSocket'')})"
  using assms checkAuth_iff [of secret inp req]
  by (auto simp: tunnelFetch_def acceptTunnel_def authorizedFetch_def addListener_def Let_def
      split: option.splits bool.splits if_splits)

theorem accept_iff_authorized_witness:
  "tunnel (fst (tunnelFetch (js ''shared'') (sampleDoInputs []) sampleTunnelReq newTunnel)) = Some 0"
proof -
  have "authorizedFetch (js ''shared'') (sampleDoInputs [], sampleTunnelReq)"
    by (simp add: authorizedFetch_def presentsSecret_def notWebSocket_def sampleTunnelReq_def sampleDoInputs_def
        extractFingerprint_def headersGet_def upgrade_header)
  moreover have "pathname (req_url sampleTunnelReq) = js ''/tunnel''" "do_next newTunnel = 0"
    by (simp_all add: sampleTunnelReq_def newTunnel_def)
  ultimately show ?thesis
    using accept_iff_authorized [OF _ surjective_pairing, of sampleTunnelReq "js ''shared''" "sampleDoInputs []" newTunnel]
    by simp
qed

end
