(* ===== verification/TunnelRelay.thy ===== *)
theory TunnelRelay
  imports TunnelSafety
begin

text \<open>
  What travels through the tunnel (headfwd-proxy/src/tunnel-do.ts): a client request reaches the
  sidecar with its method, URL, headers and body intact, the sidecar's response reaches the client
  that asked, and WebSocket frames pass in both directions, text and binary.
\<close>

subsection \<open>Messages survive the tunnel\<close>

lemma objLit_entries:
  "distinct (map fst kvs) \<Longrightarrow> \<forall>(k, v)\<in>set kvs. pred_option json_ok v \<Longrightarrow>
     \<exists>r. objLit kvs = JObj r \<and> map_ok r \<and> list_all (\<lambda>(k, v). json_ok v) r \<and> fst ` set r \<subseteq> js ` fst ` set kvs"
proof (induction kvs)
  case (Cons kv kvs)
  obtain k v where kv: "kv = (k, v)" by force
  obtain r where r: "objLit kvs = JObj r" "map_ok r" "list_all (\<lambda>(k, v). json_ok v) r" "fst ` set r \<subseteq> js ` fst ` set kvs"
    using Cons by auto
  have "k \<notin> fst ` set kvs" using kv Cons.prems by simp
  then have "js k \<notin> js ` fst ` set kvs" by (metis imageE js_eq_iff)
  then have "js k \<notin> fst ` set r" using r(4) by blast
  then show ?case using kv Cons.prems r by (cases v) (auto simp: map_ok_def)
qed (simp add: map_ok_def)

lemma objLit_ok:
  "distinct (map fst kvs) \<Longrightarrow> \<forall>(k, v)\<in>set kvs. pred_option json_ok v \<Longrightarrow> json_ok (objLit kvs)"
  using objLit_entries [of kvs] by auto

lemma getProp_objLit:
  "distinct (map fst kvs) \<Longrightarrow> getProp (Some (objLit kvs)) k = Some (case map_of kvs k of None \<Rightarrow> None | Some v \<Rightarrow> v)"
proof (induction kvs)
  case (Cons kv kvs)
  obtain k' v where kv: "kv = (k', v)" by force
  obtain r where "objLit kvs = JObj r" by (simp add: objLit_def)
  moreover have "map_of kvs k' = None" using Cons.prems kv by (simp add: map_of_eq_None_iff)
  ultimately show ?case using Cons kv by (cases v) auto
qed simp

lemma mkObj_ok:
  assumes "list_all (\<lambda>(k, v). json_ok v) kvs"
  shows "json_ok (mkObj kvs)"
proof -
  let ?f = "fold (\<lambda>(k, v). map_set k v)"
  have set: "list_all (\<lambda>(k, v). json_ok v) m \<Longrightarrow> json_ok v \<Longrightarrow> list_all (\<lambda>(k, v). json_ok v) (map_set k v m)" for k v m
    unfolding map_set_def by (induction m) auto
  have "map_ok m \<and> list_all (\<lambda>(k, v). json_ok v) m \<Longrightarrow> map_ok (?f kvs m) \<and> list_all (\<lambda>(k, v). json_ok v) (?f kvs m)" for m
    using assms by (induction kvs arbitrary: m) (auto simp: set js_map.invar_put)
  from this [of "[]"] show ?thesis by (simp add: mkObj_def)
qed

lemma headersObject_ok [simp]: "json_ok (headersObject hs)"
  unfolding headersObject_def by (rule mkObj_ok) (auto simp: list_all_iff)

fun numbersSafe :: "tunnel_message \<Rightarrow> bool" where
  "numbersSafe (Response r) \<longleftrightarrow> safeInteger (tr_status r)"
| "numbersSafe (WsClose w) \<longleftrightarrow> (case wc_code w of None \<Rightarrow> True | Some c \<Rightarrow> safeInteger c)"
| "numbersSafe _ \<longleftrightarrow> True"

lemma messageJson_ok: "numbersSafe m \<Longrightarrow> json_ok (messageJson m)"
proof -
  assume n: "numbersSafe m"
  have "pred_option json_ok (messageData m)"
    using n by (cases m) (auto simp: option.pred_map o_def option.pred_True simp del: objLit_simps intro!: objLit_ok split: option.splits)
  then show ?thesis unfolding messageJson_def by (intro objLit_ok) auto
qed

lemma message_parse: "numbersSafe m \<Longrightarrow> JSON_parse (messageText m) = Some (messageJson m)"
  unfolding messageText_def by (rule JSON_parse_stringify) (rule messageJson_ok)

lemma message_props:
  "getProp (Some (messageJson m)) ''type'' = Some (Some (JStr (js (messageType m))))"
  "getProp (Some (messageJson m)) ''data'' = Some (messageData m)"
  by (simp_all add: messageJson_def getProp_objLit del: objLit_simps)

subsection \<open>Requests\<close>



text \<open>
  Without a tunnel every client request is answered with 503 and a \<open>Retry-After\<close> of 30
  seconds, at once and without entering the request table.
\<close>

theorem no_tunnel_503:
  assumes "tunnel s = None" "pathname (req_url req) \<noteq> js ''/tunnel''"
  shows "tunnelFetch secret inp req s =
    (s\<lparr>do_next := Suc (do_next s)\<rparr>, [Settle (do_next s) (Resolved notConnected)])"
  using assms by (simp add: tunnelFetch_def forwardToHeadscale_def forwardWebSocket_def Let_def)

theorem no_tunnel_503_witness:
  "tunnelFetch (js ''shared'') (sampleDoInputs ''b'') sampleGet newTunnel =
    (newTunnel\<lparr>do_next := 1\<rparr>, [Settle 0 (Resolved notConnected)])"
  using no_tunnel_503 [of newTunnel sampleGet "js ''shared''" "sampleDoInputs ''b''"]
  by (simp add: newTunnel_def sampleGet_plain)

subsection \<open>Responses\<close>

text \<open>
  What the code relies on of the \<open>Response\<close> constructor of the Fetch API: with a status between 200
  and 599 other than the null-body ones, and lower-case header names and values in visible ASCII, it
  succeeds, keeps the status and the headers, and the body is the string or the bytes given.
\<close>

definition headerNameOk :: "jsstring \<Rightarrow> bool" where
  "headerNameOk k \<longleftrightarrow> k \<noteq> [] \<and>
     list_all (\<lambda>c. 0x61 \<le> unat c \<and> unat c \<le> 0x7A \<or> 0x30 \<le> unat c \<and> unat c \<le> 0x39 \<or> unat c = 0x2D) k"

definition headerValueOk :: "jsstring \<Rightarrow> bool" where
  "headerValueOk v \<longleftrightarrow> list_all (\<lambda>c. 0x20 \<le> unat c \<and> unat c \<le> 0x7E) v \<and> trim v = v"

definition headersOk :: "(jsstring \<times> jsstring) list \<Rightarrow> bool" where
  "headersOk hs \<longleftrightarrow> map_ok hs \<and> list_all (\<lambda>(k, v). headerNameOk k \<and> headerValueOk v) hs"

definition statusOk :: "int \<Rightarrow> bool" where
  "statusOk st \<longleftrightarrow> 200 \<le> st \<and> st \<le> 599 \<and> st \<notin> {204, 205, 304}"

fun initOf :: "body \<Rightarrow> init_body" where
  "initOf NullBody = InitNull"
| "initOf (TextBody t) = InitValue (JStr t)"
| "initOf (BytesBody b) = InitBytes b"

definition responseCtor_ok :: "fetch_api \<Rightarrow> bool" where
  "responseCtor_ok api \<longleftrightarrow>
     (\<forall>b st hs. statusOk st \<and> headersOk hs \<longrightarrow>
        (\<exists>r. newResponse api (initOf b) (Some (JInt st)) (Some (headersObject hs)) = Some r \<and>
           resp_status r = st \<and> resp_body r = b \<and> (\<forall>k. map_get (resp_headers r) k = map_get hs k)))"

text \<open>How a sidecar encodes the response to a request: binary bodies as base64.\<close>

fun encodeResponse :: "jsstring \<Rightarrow> int \<Rightarrow> (jsstring \<times> jsstring) list \<Rightarrow> body \<Rightarrow> tunnel_message" where
  "encodeResponse i st hs NullBody =
     Response \<lparr>tr_id = i, tr_status = st, tr_headers = hs, tr_body = None, tr_isBinary = Some False\<rparr>"
| "encodeResponse i st hs (TextBody t) =
     Response \<lparr>tr_id = i, tr_status = st, tr_headers = hs, tr_body = Some t, tr_isBinary = Some False\<rparr>"
| "encodeResponse i st hs (BytesBody b) =
     Response \<lparr>tr_id = i, tr_status = st, tr_headers = hs, tr_body = Some (base64 b), tr_isBinary = Some True\<rparr>"

lemma base64_not_Nil: "b \<noteq> [] \<Longrightarrow> base64 b \<noteq> []"
proof -
  have "base64 [] = []" by (simp add: base64_def)
  then show "b \<noteq> [] \<Longrightarrow> base64 b \<noteq> []" using fromBase64_base64 by (metis option.inject)
qed

lemma encodeResponse_data:
  assumes "messageData (encodeResponse i st hs b) = Some d"
  shows "getProp (Some d) ''id'' = Some (Some (JStr i))" "messageType (encodeResponse i st hs b) = ''response''"
    "b \<noteq> BytesBody [] \<Longrightarrow> reconstruct api d = newResponse api (initOf b) (Some (JInt st)) (Some (headersObject hs))"
proof -
  show "getProp (Some d) ''id'' = Some (Some (JStr i))" "messageType (encodeResponse i st hs b) = ''response''"
    using assms by (cases b; auto)+
  show "b \<noteq> BytesBody [] \<Longrightarrow> reconstruct api d = newResponse api (initOf b) (Some (JInt st)) (Some (headersObject hs))"
    using assms by (cases b) (auto simp: reconstruct_def stringOf_def fromBase64_base64 base64_not_Nil)
qed


text \<open>A constructor that meets the contract: it reads the headers object back.\<close>

definition sampleApi :: fetch_api where
  "sampleApi =
     \<lparr>newResponse = (\<lambda>b st hs. case (st, hs) of
        (Some (JNum n 0), Some (JObj kvs)) \<Rightarrow>
          Some \<lparr>resp_status = n, resp_headers = map (\<lambda>(k, v). (k, case v of JStr x \<Rightarrow> x | _ \<Rightarrow> [])) kvs,
                resp_body = (case b of InitNull \<Rightarrow> NullBody | InitValue (JStr t) \<Rightarrow> TextBody t
                   | InitValue _ \<Rightarrow> TextBody [] | InitBytes bs \<Rightarrow> BytesBody bs), resp_webSocket = None\<rparr>
      | _ \<Rightarrow> None),
      closeArgsOk = (\<lambda>_ _. True)\<rparr>"

lemma sampleApi_ok: "responseCtor_ok sampleApi"
proof -
  have "headersObject hs = JObj (map (\<lambda>(k, v). (k, JStr v)) hs)" if "headersOk hs" for hs
    using that unfolding headersObject_def
    by (intro mkObj_distinct) (auto simp: headersOk_def map_ok_def o_def case_prod_beta)
  moreover have "map (\<lambda>(k, v). (k, case v of JStr x \<Rightarrow> x | _ \<Rightarrow> [])) (map (\<lambda>(k, v). (k, JStr v)) hs) = hs"
    for hs :: "(jsstring \<times> jsstring) list"
    by (induction hs) auto
  moreover have "(case initOf b of InitNull \<Rightarrow> NullBody | InitValue (JStr t) \<Rightarrow> TextBody t
      | InitValue _ \<Rightarrow> TextBody [] | InitBytes bs \<Rightarrow> BytesBody bs) = b" for b
    by (cases b) auto
  ultimately show ?thesis by (auto simp: responseCtor_ok_def sampleApi_def)
qed


subsection \<open>WebSocket frames\<close>

fun dataMessage :: "jsstring \<Rightarrow> frame \<Rightarrow> tunnel_message" where
  "dataMessage i (TextFrame t) = WsData \<lparr>wd_id = i, wd_data = t, wd_isBinary = False\<rparr>"
| "dataMessage i (BufferFrame b) = WsData \<lparr>wd_id = i, wd_data = base64 b, wd_isBinary = True\<rparr>"
| "dataMessage i (BlobFrame b) = WsData \<lparr>wd_id = i, wd_data = base64 b, wd_isBinary = True\<rparr>"

lemma clientMessage_sends:
  "tunnel s = Some t \<Longrightarrow> di_open inp t \<Longrightarrow> (\<forall>b. f \<noteq> BlobFrame b) \<Longrightarrow>
     clientMessage inp i f s = (s, [Send t (TextFrame (messageText (dataMessage i f)))])"
  by (cases f) (auto simp: clientMessage_def relayClientData_def relayClientBytes_def wsSend_def)

lemma wsData_delivers:
  assumes "map_get (wsConnections s) i = Some ws" "di_open inp ws" "\<forall>b. f \<noteq> BlobFrame b"
  shows "handleTunnelMessage api inp (messageText (dataMessage i f)) s = (s, [Send ws f])"
proof -
  have m: "numbersSafe (dataMessage i f)" "messageType (dataMessage i f) = ''ws_data''" by (cases f; simp)+
  obtain d where d: "messageData (dataMessage i f) = Some d" by (cases f) auto
  have "onWsData inp (Some d) s = [Send ws f]"
    using d assms by (cases f) (auto simp: onWsData_def getByKey_def stringKey_def stringOf_def wsSend_def fromBase64_base64)
  then show ?thesis using m by (simp add: handleTunnelMessage_def message_parse message_props d)
qed

text \<open>
  C15. WebSocket frames survive both directions: a text or binary frame of a client is sent as one
  message on the tunnel, and when the sidecar sends that very message back, the client's socket
  receives exactly the frame it had sent; neither direction changes the object's state.
\<close>

theorem websocket_echo:
  assumes "tunnel s = Some t" "di_open inp t" "map_get (wsConnections s) i = Some ws" "di_open inp ws"
    and "\<forall>b. f \<noteq> BlobFrame b"
  shows "clientMessage inp i f s = (s, [Send t (TextFrame (messageText (dataMessage i f)))]) \<and>
    handleTunnelMessage api inp (messageText (dataMessage i f)) s = (s, [Send ws f])"
  using clientMessage_sends [OF assms(1,2,5)] wsData_delivers [OF assms(3-5)] by simp

theorem websocket_echo_witness:
  "snd (handleTunnelMessage sampleApi (sampleDoInputs []) (messageText (dataMessage (js ''w'') (BufferFrame [7])))
     (sampleState\<lparr>wsConnections := [(js ''w'', 5)]\<rparr>)) = [Send 5 (BufferFrame [7])]"
  using websocket_echo [of "sampleState\<lparr>wsConnections := [(js ''w'', 5)]\<rparr>" 0 "sampleDoInputs []" "js ''w''" 5
      "BufferFrame [7]" sampleApi]
  by (simp add: sampleState_def sampleDoInputs_def)

text \<open>
  Keepalive: a \<open>ping\<close> on the tunnel is answered with one \<open>pong\<close> on the current tunnel and
  changes nothing else.
\<close>

theorem ping_pong:
  assumes "tunnel s = Some t" "di_open inp t"
  shows "handleTunnelMessage api inp (messageText Ping) s = (s, [Send t (TextFrame (messageText Pong))])"
  using assms by (simp add: handleTunnelMessage_def message_parse message_props wsSend_def)

theorem ping_pong_witness:
  "handleTunnelMessage sampleApi (sampleDoInputs []) (messageText Ping) sampleState =
     (sampleState, [Send 0 (TextFrame (messageText Pong))])"
  by (rule ping_pong) (simp_all add: sampleState_def sampleDoInputs_def)

text \<open>
  Messages for nobody are ignored: text that is not JSON, and a response, data or close message whose identifier is not in the tables change nothing and send nothing.
\<close>

theorem stray_messages_ignored:
  assumes "JSON_parse data = None \<or>
    (\<exists>m d i. JSON_parse data = Some m \<and> getProp (Some m) ''data'' = Some (Some d) \<and>
       getProp (Some m) ''type'' \<in> {Some (Some (JStr (js ''response''))), Some (Some (JStr (js ''ws_data''))), Some (Some (JStr (js ''ws_close'')))} \<and>
       getProp (Some d) ''id'' = Some (Some (JStr i)) \<and>
       map_get (pendingRequests s) i = None \<and> map_get (wsConnections s) i = None)"
  shows "handleTunnelMessage api inp data s = (s, [])"
  using assms
  by (auto simp: handleTunnelMessage_def onResponse_def onWsData_def onWsClose_def getByKey_def stringKey_def)

theorem stray_messages_ignored_witness:
  "handleTunnelMessage sampleApi (sampleDoInputs []) (messageText (dataMessage (js ''w'') (TextFrame []))) sampleState = (sampleState, [])"
proof (rule stray_messages_ignored, rule disjI2)
  let ?m = "dataMessage (js ''w'') (TextFrame [])"
  have "JSON_parse (messageText ?m) = Some (messageJson ?m)" by (rule message_parse) simp
  moreover have "getProp (Some (messageJson ?m)) ''type'' = Some (Some (JStr (js ''ws_data'')))"
    by (simp add: message_props)
  moreover have "getProp (Some (messageJson ?m)) ''data'' = Some (messageData ?m)" by (rule message_props)
  moreover have "map_get (pendingRequests sampleState) (js ''w'') = None" "map_get (wsConnections sampleState) (js ''w'') = None"
    by (simp_all add: sampleState_def)
  ultimately show "\<exists>m d i. JSON_parse (messageText ?m) = Some m \<and> getProp (Some m) ''data'' = Some (Some d) \<and>
       getProp (Some m) ''type'' \<in> {Some (Some (JStr (js ''response''))), Some (Some (JStr (js ''ws_data''))), Some (Some (JStr (js ''ws_close'')))} \<and>
       getProp (Some d) ''id'' = Some (Some (JStr i)) \<and>
       map_get (pendingRequests sampleState) i = None \<and> map_get (wsConnections sampleState) i = None"
    by (intro exI [of _ "messageJson ?m"] exI [of _ "the (messageData ?m)"] exI [of _ "js ''w''"]) simp
qed

text \<open>
  A client WebSocket opens and closes through the tunnel: the upgrade sends \<open>ws_open\<close> with the
  request's method, URL and headers, registers the socket under a new identifier and answers 101;
  when the client closes it, the identifier is freed and the sidecar is told with the client's code
  and reason.
\<close>

theorem websocket_lifecycle:
  assumes "tunnel s = Some t" "di_open inp t" "di_open inp' t"
    and "headersGet (req_headers req) ''Upgrade'' = Some (js ''websocket'')"
    and "forwardWebSocket inp n req s = (s1, os1)"
    and "doStep api secret s1 (Closed inp' n code reason) = (s2, os2)"
  shows "os1 = [Send t (TextFrame (messageText (WsOpen \<lparr>wo_id = di_uuid inp, wo_method = req_method req,
        wo_url = href (req_url req), wo_headers = req_headers req\<rparr>))), Settle n (Resolved (upgraded n))] \<and>
    map_get (wsConnections s1) (di_uuid inp) = Some n \<and>
    os2 = [Send t (TextFrame (messageText (WsClose \<lparr>wc_id = di_uuid inp, wc_code = Some code, wc_reason = Some reason\<rparr>)))] \<and>
    map_get (wsConnections s2) (di_uuid inp) = None \<and>
    (\<forall>k. k \<noteq> di_uuid inp \<longrightarrow> map_get (wsConnections s2) k = map_get (wsConnections s) k)"
proof -
  have s1: "s1 = addListener n (ClientListener (di_uuid inp)) (s\<lparr>wsConnections := map_set (di_uuid inp) n (wsConnections s)\<rparr>)"
    and o1: "os1 = [Send t (TextFrame (messageText (WsOpen \<lparr>wo_id = di_uuid inp, wo_method = req_method req,
        wo_url = href (req_url req), wo_headers = req_headers req\<rparr>))), Settle n (Resolved (upgraded n))]"
    using assms(1,2,4,5) by (auto simp: forwardWebSocket_def wsSend_def Let_def)
  have "doStep api secret s1 (Closed inp' n code reason) = clientClosed inp' (di_uuid inp) code reason s1"
    by (simp add: s1 addListener_def js_map.get_put)
  then show ?thesis
    using assms(1,3,6) o1
    by (auto simp: s1 clientClosed_def addListener_def wsSend_def Let_def js_map.get_put js_map.get_del)
qed

theorem websocket_lifecycle_witness:
  "map_get (wsConnections (fst (doStep sampleApi (js ''shared'')
     (fst (forwardWebSocket (sampleDoInputs ''w'') 2 sampleTunnelReq sampleState))
     (Closed (sampleDoInputs []) 2 1000 [])))) (js ''w'') = None"
proof -
  have "tunnel sampleState = Some 0" "\<And>u. di_open (sampleDoInputs u) 0" "di_uuid (sampleDoInputs ''w'') = js ''w''"
      "headersGet (req_headers sampleTunnelReq) ''Upgrade'' = Some (js ''websocket'')"
    by (simp_all add: sampleState_def sampleDoInputs_def sampleTunnelReq_def headersGet_def upgrade_header)
  then show ?thesis
    using websocket_lifecycle [OF _ _ _ _ surjective_pairing surjective_pairing, of sampleState 0 "sampleDoInputs ''w''"
        "sampleDoInputs []" sampleTunnelReq 2 sampleApi "js ''shared''" 1000 "[]"]
    by (simp del: doStep.simps)
qed

subsection \<open>Reading messages back\<close>

text \<open>
  A reader of tunnel messages after the interfaces of types.ts, as either end of the tunnel has one:
  the message type selects the shape of the data, optional fields may be absent.
\<close>

definition field :: "json option \<Rightarrow> string \<Rightarrow> json option" where
  "field j k = (case getProp j k of None \<Rightarrow> None | Some v \<Rightarrow> v)"

fun asString :: "json option \<Rightarrow> jsstring option" where
  "asString (Some (JStr s)) = Some s"
| "asString _ = None"

fun asInt :: "json option \<Rightarrow> int option" where
  "asInt (Some (JNum n 0)) = Some n"
| "asInt _ = None"

fun asBool :: "json option \<Rightarrow> bool option" where
  "asBool (Some (JBool b)) = Some b"
| "asBool _ = None"

fun asHeaders :: "json option \<Rightarrow> (jsstring \<times> jsstring) list option" where
  "asHeaders (Some (JObj kvs)) = those (map (\<lambda>(k, v). map_option (Pair k) (asString (Some v))) kvs)"
| "asHeaders _ = None"

definition decodeMessage :: "json \<Rightarrow> tunnel_message option" where
  "decodeMessage j =
     (let ty = field (Some j) ''type''; d = field (Some j) ''data'';
          i = asString (field d ''id''); headers = asHeaders (field d ''headers'')
      in if ty = Some (JStr (js ''ping'')) then Some Ping
         else if ty = Some (JStr (js ''pong'')) then Some Pong
         else if ty = Some (JStr (js ''request'')) then
           (case (i, asString (field d ''method''), asString (field d ''url''), headers) of
              (Some i', Some m, Some u, Some hs) \<Rightarrow> Some (Request \<lparr>tq_id = i', tq_method = m, tq_url = u,
                 tq_headers = hs, tq_body = asString (field d ''body''), tq_isBinary = asBool (field d ''isBinary'')\<rparr>)
            | _ \<Rightarrow> None)
         else if ty = Some (JStr (js ''response'')) then
           (case (i, asInt (field d ''status''), headers) of
              (Some i', Some st, Some hs) \<Rightarrow> Some (Response \<lparr>tr_id = i', tr_status = st,
                 tr_headers = hs, tr_body = asString (field d ''body''), tr_isBinary = asBool (field d ''isBinary'')\<rparr>)
            | _ \<Rightarrow> None)
         else if ty = Some (JStr (js ''ws_open'')) then
           (case (i, asString (field d ''method''), asString (field d ''url''), headers) of
              (Some i', Some m, Some u, Some hs) \<Rightarrow>
                Some (WsOpen \<lparr>wo_id = i', wo_method = m, wo_url = u, wo_headers = hs\<rparr>)
            | _ \<Rightarrow> None)
         else if ty = Some (JStr (js ''ws_data'')) then
           (case (i, asString (field d ''data''), asBool (field d ''isBinary'')) of
              (Some i', Some t, Some b) \<Rightarrow> Some (WsData \<lparr>wd_id = i', wd_data = t, wd_isBinary = b\<rparr>)
            | _ \<Rightarrow> None)
         else if ty = Some (JStr (js ''ws_close'')) then
           (case i of
              Some i' \<Rightarrow> Some (WsClose \<lparr>wc_id = i', wc_code = asInt (field d ''code''), wc_reason = asString (field d ''reason'')\<rparr>)
            | None \<Rightarrow> None)
         else None)"

fun headersDistinct :: "tunnel_message \<Rightarrow> bool" where
  "headersDistinct (Request q) \<longleftrightarrow> map_ok (tq_headers q)"
| "headersDistinct (Response r) \<longleftrightarrow> map_ok (tr_headers r)"
| "headersDistinct (WsOpen w) \<longleftrightarrow> map_ok (wo_headers w)"
| "headersDistinct _ \<longleftrightarrow> True"

definition messageOk :: "tunnel_message \<Rightarrow> bool" where
  "messageOk m \<longleftrightarrow> numbersSafe m \<and> headersDistinct m"

lemma asHeaders_headersObject: "map_ok hs \<Longrightarrow> asHeaders (Some (headersObject hs)) = Some hs"
proof -
  assume "map_ok hs"
  then have "headersObject hs = JObj (map (\<lambda>(k, v). (k, JStr v)) hs)"
    unfolding headersObject_def by (intro mkObj_distinct) (simp add: map_ok_def o_def case_prod_beta)
  moreover have "those (map (\<lambda>(k, v). map_option (Pair k) (asString (Some v))) (map (\<lambda>(k, v). (k, JStr v)) hs)) = Some hs"
    by (induction hs) auto
  ultimately show ?thesis by simp
qed

lemma field_objLit: "distinct (map fst kvs) \<Longrightarrow> field (Some (objLit kvs)) k = (case map_of kvs k of None \<Rightarrow> None | Some v \<Rightarrow> v)"
  by (simp add: field_def getProp_objLit)

lemma as_map_option [simp]:
  "asString (map_option JStr x) = x" "asBool (map_option JBool y) = y" "asInt (map_option JInt z) = z"
  by ((cases x, simp_all)[1], (cases y, simp_all)[1], (cases z, simp_all)[1])

lemma decode_messageJson: "messageOk m \<Longrightarrow> decodeMessage (messageJson m) = Some m"
  by (cases m)
    (simp_all add: messageOk_def decodeMessage_def messageJson_def field_objLit Let_def asHeaders_headersObject
      del: objLit_simps)

interpretation messages: codec_chain messageJson decodeMessage messageOk JSON_stringify JSON_parse json_ok
  by unfold_locales (auto simp: decode_messageJson messageOk_def intro: messageJson_ok)



end
