(* ===== verification/TunnelSpec.thy ===== *)
theory TunnelSpec
  imports TunnelSafety
begin

text \<open>
  What the Durable Object promises its callers, as an abstract specification, and that \<open>doStep\<close>
  implements it. The specification knows nothing of tunnels, timers or messages: a pool of promises,
  where a call opens the next one and an open one is settled once. The abstraction forgets everything
  of a state but its open promises.
\<close>

subsection \<open>The specification\<close>

record pool =
  opened :: nat
  waiting :: "nat multiset"

definition emptyPool :: pool where
  "emptyPool = \<lparr>opened = 0, waiting = {#}\<rparr>"

text \<open>Runs of the pool, labelled with the promises they settle, in order.\<close>

inductive poolRun :: "pool \<Rightarrow> nat list \<Rightarrow> pool \<Rightarrow> bool" where
  stop: "poolRun P [] P"
| open_next: "poolRun (P\<lparr>opened := Suc (opened P), waiting := add_mset (opened P) (waiting P)\<rparr>) ns Q \<Longrightarrow> poolRun P ns Q"
| settle_one: "n \<in># waiting P \<Longrightarrow> poolRun (P\<lparr>waiting := waiting P - {#n#}\<rparr>) ns Q \<Longrightarrow> poolRun P (n # ns) Q"

inductive_cases poolRun_ConsE: "poolRun P (n # ns) Q"

lemma poolRun_trans: "poolRun P ms Q \<Longrightarrow> poolRun Q ns R \<Longrightarrow> poolRun P (ms @ ns) R"
  by (induction rule: poolRun.induct) (auto intro: poolRun.intros)

lemma poolRun_open: "poolRun P [] \<lparr>opened = opened P + k, waiting = waiting P + mset [opened P..<opened P + k]\<rparr>"
proof (induction k)
  case 0
  have "poolRun P [] \<lparr>opened = opened P, waiting = waiting P\<rparr>" by (cases P) (simp add: poolRun.stop)
  then show ?case by simp
next
  case (Suc k)
  let ?Q = "\<lparr>opened = opened P + k, waiting = waiting P + mset [opened P..<opened P + k]\<rparr>"
  have "poolRun ?Q [] \<lparr>opened = opened P + Suc k, waiting = waiting P + mset [opened P..<opened P + Suc k]\<rparr>"
    by (rule poolRun.open_next) (simp add: poolRun.stop del: mset_upt)
  from poolRun_trans [OF Suc this] show ?case by simp
qed

lemma poolRun_settle: "mset ns \<subseteq># waiting P \<Longrightarrow> poolRun P ns (P\<lparr>waiting := waiting P - mset ns\<rparr>)"
proof (induction ns arbitrary: P)
  case (Cons n ns)
  then have "n \<in># waiting P" "mset ns \<subseteq># waiting P - {#n#}"
    by (auto simp: insert_subset_eq_iff)
  then show ?case using Cons.IH [of "P\<lparr>waiting := waiting P - {#n#}\<rparr>"] by (auto intro: poolRun.settle_one)
qed (simp add: poolRun.stop)

text \<open>What a pool guarantees: every promise opened was settled once or is still waiting.\<close>

lemma poolRun_total:
  "poolRun P ns Q \<Longrightarrow> opened P \<le> opened Q \<and> waiting P + mset [opened P..<opened Q] = mset ns + waiting Q"
proof (induction rule: poolRun.induct)
  case (open_next P ns Q)
  then have le: "Suc (opened P) \<le> opened Q" by simp
  then have "mset [opened P..<opened Q] = add_mset (opened P) (mset [Suc (opened P)..<opened Q])"
    by (simp add: upt_conv_Cons del: mset_upt)
  then show ?case using open_next.IH le by (simp add: ac_simps del: mset_upt)
next
  case (settle_one n P ns Q)
  then obtain W where W: "waiting P = add_mset n W" by (meson mset_add)
  then show ?case using settle_one.IH by (simp add: ac_simps del: mset_upt)
qed simp

subsection \<open>The implementation\<close>

definition absPool :: "do_state \<Rightarrow> pool" where
  "absPool s = \<lparr>opened = do_next s, waiting = openPromises s\<rparr>"

lemma absPool_new: "absPool newTunnel = emptyPool"
  by (simp add: absPool_def emptyPool_def newTunnel_def openPromises_def pendingPromises_def)

lemma balanced_poolRun:
  assumes "balanced s s' os"
  shows "poolRun (absPool s) (settled os) (absPool s')"
proof -
  let ?P = "\<lparr>opened = do_next s', waiting = openPromises s + mset [do_next s..<do_next s']\<rparr>"
  have le: "do_next s \<le> do_next s'" and b: "mset (settled os) + openPromises s' = waiting ?P"
    using assms by (simp_all add: balanced_def del: mset_upt)
  have "poolRun (absPool s) [] ?P"
    using poolRun_open [of "absPool s" "do_next s' - do_next s"] le by (simp add: absPool_def del: mset_upt)
  moreover have "poolRun ?P (settled os) (absPool s')"
    using poolRun_settle [of "settled os" ?P] b [symmetric] by (simp add: absPool_def del: mset_upt)
  ultimately show ?thesis using poolRun_trans by fastforce
qed

interpretation promises: simulation "doStep api secret" "\<lambda>s e. doGuard s e \<and> wellFormed api s e" doInv
    absPool "\<lambda>P os Q. poolRun P (settled os) Q" for api secret
proof
  fix s :: do_state and e
  assume i: "doInv s" "doGuard s e \<and> wellFormed api s e"
  then have "doInv (fst (doStep api secret s e))" "balanced s (fst (doStep api secret s e)) (snd (doStep api secret s e))"
    using doStep_inv [OF i(1) _ surjective_pairing, of e api secret] by auto
  then show "doInv (fst (doStep api secret s e))"
    "poolRun (absPool s) (settled (snd (doStep api secret s e))) (absPool (fst (doStep api secret s e)))"
    using balanced_poolRun by auto
qed (auto intro: poolRun.stop poolRun_trans simp: settled_def)



end
