(* ===== verification/Uri.thy ===== *)
theory Uri
  imports Json
begin

text \<open>
  \<open>encodeURIComponent\<close> as api/client.ts uses it to put a user name or a node id into a path. It keeps
  the unreserved characters, writes every other scalar value as the percent escapes of its UTF-8
  bytes, and throws a \<open>URIError\<close> (\<open>None\<close>) on a lone surrogate. \<open>percentDecode\<close> is what a server does to
  a path segment. The two form a \<open>codec\<close> on well-formed strings, and an encoded component has no
  delimiter of a URL in it.
\<close>

definition uriUnreserved :: "jschar \<Rightarrow> bool" where
  "uriUnreserved c \<longleftrightarrow>
     0x30 \<le> unat c \<and> unat c \<le> 0x39 \<or> 0x41 \<le> unat c \<and> unat c \<le> 0x5A \<or> 0x61 \<le> unat c \<and> unat c \<le> 0x7A \<or>
     unat c \<in> {0x2D, 0x5F, 0x2E, 0x21, 0x7E, 0x2A, 0x27, 0x28, 0x29}"

definition upperHexDigit :: "nat \<Rightarrow> jschar" where
  "upperHexDigit n = (if n < 10 then of_nat (48 + n) else of_nat (55 + n))"

definition percentByte :: "nat \<Rightarrow> jsstring" where
  "percentByte b = [0x25, upperHexDigit (b div 16), upperHexDigit (b mod 16)]"

definition percentScalar :: "nat \<Rightarrow> jsstring" where
  "percentScalar n = concat (map percentByte (encodeScalar n))"

fun encodeURIComponent :: "jsstring \<Rightarrow> jsstring option" where
  "encodeURIComponent [] = Some []"
| "encodeURIComponent (c # s) =
     (if uriUnreserved c then map_option (\<lambda>t. c # t) (encodeURIComponent s)
      else if isLow c then None
      else if isHigh c then
        (case s of [] \<Rightarrow> None
         | d # r \<Rightarrow>
             if isLow d
             then map_option (\<lambda>t. percentScalar (0x10000 + (unat c - 0xD800) * 0x400 + (unat d - 0xDC00)) @ t)
                    (encodeURIComponent r)
             else None)
      else map_option (\<lambda>t. percentScalar (unat c) @ t) (encodeURIComponent s))"

text \<open>Percent decoding to bytes, and the text those bytes are in UTF-8.\<close>

fun percentDecode :: "jsstring \<Rightarrow> nat list option" where
  "percentDecode [] = Some []"
| "percentDecode (c # s) =
     (if c = 0x25 then
        (case s of a # b # r \<Rightarrow>
           (case digitVal a of None \<Rightarrow> None
            | Some x \<Rightarrow> (case digitVal b of None \<Rightarrow> None
                         | Some y \<Rightarrow> map_option (\<lambda>bs. (16 * x + y) # bs) (percentDecode r)))
         | _ \<Rightarrow> None)
      else if unat c < 0x80 then map_option (\<lambda>bs. unat c # bs) (percentDecode s)
      else None)"

definition decodeComponent :: "jsstring \<Rightarrow> jsstring option" where
  "decodeComponent s = map_option (\<lambda>bs. concat (map units (decodeUnits bs))) (percentDecode s)"

subsection \<open>Encoding scalar by scalar\<close>

definition uriScalar :: "nat \<Rightarrow> jsstring" where
  "uriScalar n = (if n < 0x80 \<and> uriUnreserved (of_nat n) then [of_nat n] else percentScalar n)"

lemma uriUnreserved_ascii: "uriUnreserved c \<Longrightarrow> unat c < 0x80"
  unfolding uriUnreserved_def by auto

lemma uriUnreserved_not_surrogate: "uriUnreserved c \<Longrightarrow> \<not> isHigh c \<and> \<not> isLow c"
  using uriUnreserved_ascii [of c] by (auto simp: isHigh_def isLow_def)

lemma uriScalar_unat: "uriScalar (unat c) = (if uriUnreserved c then [c] else percentScalar (unat c))"
  using uriUnreserved_ascii [of c] by (auto simp: uriScalar_def)

lemma uriScalar_pair: "uriScalar (0x10000 + k) = percentScalar (0x10000 + k)"
  by (simp add: uriScalar_def)

lemma encodeURIComponent_scalars:
  "utf16_ok s \<Longrightarrow> encodeURIComponent s = Some (concat (map uriScalar (scalars s)))"
proof (induction s rule: utf16_ok.induct)
  case (2 c)
  then show ?case by (auto simp: uriScalar_unat dest: uriUnreserved_not_surrogate)
next
  case (3 c d s)
  show ?case
  proof (cases "isHigh c")
    case True
    then have "isLow d" "utf16_ok s" "\<not> uriUnreserved c" "\<not> isLow c"
      using "3.prems" uriUnreserved_not_surrogate by (auto dest: surrogates_disjoint)
    then show ?thesis using True "3.IH"(1) by (simp add: uriScalar_pair add.assoc)
  next
    case False
    then have "\<not> isLow c" "utf16_ok (d # s)" using "3.prems" by simp_all
    then show ?thesis using False "3.IH"(2) by (simp add: uriScalar_unat)
  qed
qed simp

text \<open>A component is encoded exactly when it is well formed.\<close>

lemma encodeURIComponent_None: "encodeURIComponent s = None \<longleftrightarrow> \<not> utf16_ok s"
proof (induction s rule: utf16_ok.induct)
  case (2 c)
  then show ?case by (auto dest: uriUnreserved_not_surrogate)
next
  case (3 c d s)
  then show ?case
    by (cases "isHigh c"; cases "isLow c"; cases "isLow d"; cases "uriUnreserved c")
      (auto dest: surrogates_disjoint uriUnreserved_not_surrogate)
qed simp

subsection \<open>Round trip\<close>

lemma unat_upperHexDigit: "n < 16 \<Longrightarrow> unat (upperHexDigit n) = (if n < 10 then 48 + n else 55 + n)"
  by (simp add: upperHexDigit_def unat_of_nat del: of_nat_add)

lemma digitVal_upperHexDigit: "n < 16 \<Longrightarrow> digitVal (upperHexDigit n) = Some n"
  by (simp add: digitVal_def unat_upperHexDigit)

lemma percentDecode_byte: "b < 256 \<Longrightarrow> percentDecode (percentByte b @ s) = map_option (\<lambda>bs. b # bs) (percentDecode s)"
  by (simp add: percentByte_def digitVal_upperHexDigit less_mult_imp_div_less)

lemma percentDecode_bytes:
  "\<forall>b\<in>set bs. b < 256 \<Longrightarrow>
     percentDecode (concat (map percentByte bs) @ s) = map_option (\<lambda>r. bs @ r) (percentDecode s)"
  by (induction bs) (cases "percentDecode s"; simp add: percentDecode_byte)+

lemma percentDecode_uriScalar:
  assumes "scalarOk n"
  shows "percentDecode (uriScalar n @ s) = map_option (\<lambda>r. encodeScalar n @ r) (percentDecode s)"
proof (cases "n < 0x80 \<and> uriUnreserved (of_nat n)")
  case True
  then have n: "unat (of_nat n :: jschar) = n" by (simp add: unat_of_nat)
  then have "(of_nat n :: jschar) \<noteq> 0x25"
    using True by (auto simp: uriUnreserved_def)
  then show ?thesis using True n by (simp add: uriScalar_def encodeScalar_def)
next
  case False
  then have "uriScalar n = concat (map percentByte (encodeScalar n))"
    unfolding uriScalar_def percentScalar_def by (simp only: if_False)
  then show ?thesis
    by (simp only: percentDecode_bytes [OF encodeScalar_bytes [OF assms]])
qed

lemma percentDecode_encode:
  "\<forall>n\<in>set ns. scalarOk n \<Longrightarrow> percentDecode (concat (map uriScalar ns)) = Some (concat (map encodeScalar ns))"
  by (induction ns) (simp_all add: percentDecode_uriScalar)

lemma decodeComponent_encode:
  assumes "encodeURIComponent s = Some t"
  shows "decodeComponent t = Some s"
proof -
  have ok: "utf16_ok s" using assms encodeURIComponent_None [of s] by auto
  then have "t = concat (map uriScalar (scalars s))" using assms encodeURIComponent_scalars by simp
  then show ?thesis
    using ok by (simp add: decodeComponent_def percentDecode_encode [OF scalars_ok]
        decodeUnits_concat [OF scalars_ok] units_scalars)
qed

interpretation uri: codec "\<lambda>s. the (encodeURIComponent s)" decodeComponent utf16_ok
  by unfold_locales (simp add: encodeURIComponent_scalars decodeComponent_encode)

subsection \<open>No delimiters\<close>

definition uriPlain :: "jschar \<Rightarrow> bool" where
  "uriPlain c \<longleftrightarrow> uriUnreserved c \<or> c = 0x25"

lemma uriPlain_upperHexDigit: "n < 16 \<Longrightarrow> uriPlain (upperHexDigit n)"
  by (simp add: uriPlain_def uriUnreserved_def unat_upperHexDigit)

lemma uriPlain_percentByte: "b < 256 \<Longrightarrow> c \<in> set (percentByte b) \<Longrightarrow> uriPlain c"
  by (auto simp: percentByte_def uriPlain_upperHexDigit less_mult_imp_div_less) (simp add: uriPlain_def)

lemma uriPlain_uriScalar: "scalarOk n \<Longrightarrow> c \<in> set (uriScalar n) \<Longrightarrow> uriPlain c"
  using encodeScalar_bytes [of n] uriPlain_percentByte [of _ c]
  by (auto simp: uriScalar_def percentScalar_def split: if_splits) (auto simp: uriPlain_def)

lemma encodeURIComponent_plain: "encodeURIComponent s = Some t \<Longrightarrow> c \<in> set t \<Longrightarrow> uriPlain c"
  using encodeURIComponent_None [of s] encodeURIComponent_scalars [of s] scalars_ok [of s]
  by (auto simp: uriPlain_uriScalar)

lemma uriPlain_not_delimiter: "uriPlain c \<Longrightarrow> c \<notin> set (js ''/?#&='')"
  by (auto simp: uriPlain_def uriUnreserved_def js_literal)

lemma encodeURIComponent_eq_Nil_iff: "encodeURIComponent s = Some [] \<longleftrightarrow> s = []"
  using decodeComponent_encode [of s "[]"] by (auto simp: decodeComponent_def)

end
