(* ===== verification/ApiClient.thy ===== *)
theory ApiClient
  imports Uri Platform
begin

text \<open>
  The portal's API client (headfwd-sidecar/portal/frontend/src/api/client.ts): the interfaces of the
  replies, \<open>request\<close>, and the calls of \<open>api\<close>, each as the HTTP request it sends (\<open>apiFetch\<close>) and what
  it makes of the answer (\<open>apiResult\<close>). The backend, the network and the text of a \<open>SyntaxError\<close> are
  parameters: an answer is an argument, the text of the error is the function \<open>syntaxError\<close>.
\<close>

subsection \<open>Interfaces\<close>

text \<open>
  Fields that the components read with \<open>?.\<close> or \<open>??\<close>, because the backend may leave them out, are
  options.
\<close>

record user =
  u_name :: jsstring
  u_id :: "jsstring option"
  u_createdAt :: "jsstring option"

record node =
  n_id :: jsstring
  n_givenName :: jsstring
  n_name :: jsstring
  n_ipAddresses :: "jsstring list option"
  n_online :: bool
  n_lastSeen :: "jsstring option"
  n_createdAt :: "jsstring option"
  n_forcedTags :: "jsstring list option"
  n_validTags :: "jsstring list option"
  n_user :: "user option"

record hello_response =
  message :: jsstring
  your_ip :: jsstring
  is_tailnet :: bool
  timestamp :: jsstring
  node_name :: "jsstring option"
  user_name :: "jsstring option"

record me_response =
  me_user_name :: jsstring
  is_admin :: bool
  is_local_access :: bool

record create_key_response =
  ck_key :: jsstring
  ck_user :: jsstring
  qr_data :: jsstring
  expires_at :: jsstring

text \<open>The JSON values of these shapes.\<close>

definition userJson :: "user \<Rightarrow> json" where
  "userJson u = objLit
     [(''name'', Some (JStr (u_name u))), (''id'', map_option JStr (u_id u)),
      (''createdAt'', map_option JStr (u_createdAt u))]"

definition strings :: "jsstring list \<Rightarrow> json" where
  "strings xs = JArr (map JStr xs)"

definition nodeJson :: "node \<Rightarrow> json" where
  "nodeJson n = objLit
     [(''id'', Some (JStr (n_id n))), (''givenName'', Some (JStr (n_givenName n))),
      (''name'', Some (JStr (n_name n))), (''ipAddresses'', map_option strings (n_ipAddresses n)),
      (''online'', Some (JBool (n_online n))), (''lastSeen'', map_option JStr (n_lastSeen n)),
      (''createdAt'', map_option JStr (n_createdAt n)), (''forcedTags'', map_option strings (n_forcedTags n)),
      (''validTags'', map_option strings (n_validTags n)), (''user'', map_option userJson (n_user n))]"

subsection \<open>Requests\<close>

text \<open>
  What a promise is rejected with: an \<open>Error\<close> with its message, or any other value. The components
  print \<open>e instanceof Error ? e.message : fallback\<close>.
\<close>

datatype thrown = ErrorObject jsstring | OtherValue

fun errorText :: "string \<Rightarrow> thrown \<Rightarrow> jsstring" where
  "errorText fallback (ErrorObject m) = m"
| "errorText fallback OtherValue = js fallback"

text \<open>
  A settled \<open>fetch\<close>: rejected, or a response whose body is its bytes or breaks off with an error.
\<close>

record fetch_response =
  fr_status :: int
  fr_headers :: "(jsstring \<times> jsstring) list"
  fr_body :: "thrown + bytes"

type_synonym fetch_result = "thrown + fetch_response"

definition resOk :: "fetch_response \<Rightarrow> bool" where
  "resOk r \<longleftrightarrow> 200 \<le> fr_status r \<and> fr_status r \<le> 299"

definition responseText :: "fetch_response \<Rightarrow> thrown + jsstring" where
  "responseText r = (case fr_body r of Inl e \<Rightarrow> Inl e | Inr b \<Rightarrow> Inr (utf8_decode b))"

definition responseJson :: "(jsstring \<Rightarrow> jsstring) \<Rightarrow> fetch_response \<Rightarrow> thrown + json option" where
  "responseJson syntaxError r =
     (case responseText r of Inl e \<Rightarrow> Inl e
      | Inr t \<Rightarrow> (case JSON_parse t of None \<Rightarrow> Inl (ErrorObject (syntaxError t)) | Some j \<Rightarrow> Inr (Some j)))"

text \<open>\<open>Inr None\<close> is the value \<open>undefined\<close>.\<close>

definition request :: "(jsstring \<Rightarrow> jsstring) \<Rightarrow> fetch_result \<Rightarrow> thrown + json option" where
  "request syntaxError res =
     (case res of Inl e \<Rightarrow> Inl e
      | Inr r \<Rightarrow>
          if \<not> resOk r then
            (case responseText r of Inl e \<Rightarrow> Inl e
             | Inr t \<Rightarrow> Inl (ErrorObject (showNum (fr_status r) 0 @ js '': '' @ t)))
          else if fr_status r = 204 \<or> headersGet (fr_headers r) ''content-length'' = Some (js ''0'')
          then Inr None
          else responseJson syntaxError r)"

subsection \<open>Calls\<close>

datatype api_call =
    Hello
  | ListUsers
  | CreateUser jsstring
  | ListNodes
  | CreateKey jsstring bool
  | DeleteUser jsstring
  | DeleteNode jsstring
  | Me
  | ListAdmins
  | GrantAdmin jsstring
  | RevokeAdmin jsstring

record fetch_init =
  fi_path :: jsstring
  fi_method :: jsstring
  fi_headers :: "(jsstring \<times> jsstring) list"
  fi_body :: "jsstring option"

text \<open>The first argument of \<open>request\<close> with its options spread over the default headers.\<close>

definition fetchInit :: "jsstring \<Rightarrow> string \<Rightarrow> json option \<Rightarrow> fetch_init" where
  "fetchInit path mth payload =
     \<lparr>fi_path = path, fi_method = js mth, fi_headers = jsonHeaders, fi_body = map_option JSON_stringify payload\<rparr>"

definition withName :: "string \<Rightarrow> jsstring \<Rightarrow> string \<Rightarrow> fetch_init option" where
  "withName pre name mth = map_option (\<lambda>seg. fetchInit (js pre @ seg) mth None) (encodeURIComponent name)"

fun apiFetch :: "api_call \<Rightarrow> fetch_init option" where
  "apiFetch Hello = Some (fetchInit (js ''/api/hello'') ''GET'' None)"
| "apiFetch ListUsers = Some (fetchInit (js ''/api/users'') ''GET'' None)"
| "apiFetch (CreateUser name) =
     Some (fetchInit (js ''/api/users'') ''POST'' (Some (objLit [(''name'', Some (JStr name))])))"
| "apiFetch ListNodes = Some (fetchInit (js ''/api/nodes'') ''GET'' None)"
| "apiFetch (CreateKey u reusable) =
     Some (fetchInit (js ''/api/keys'') ''POST''
       (Some (objLit [(''user'', Some (JStr u)), (''reusable'', Some (JBool reusable))])))"
| "apiFetch (DeleteUser name) = withName ''/api/users/'' name ''DELETE''"
| "apiFetch (DeleteNode i) = withName ''/api/nodes/'' i ''DELETE''"
| "apiFetch Me = Some (fetchInit (js ''/api/me'') ''GET'' None)"
| "apiFetch ListAdmins = Some (fetchInit (js ''/api/admins'') ''GET'' None)"
| "apiFetch (GrantAdmin name) = withName ''/api/admins/'' name ''PUT''"
| "apiFetch (RevokeAdmin name) = withName ''/api/admins/'' name ''DELETE''"

text \<open>
  The \<open>then\<close> clauses: a property of the reply, for the lists with \<open>?? []\<close>. Reading a property of
  \<open>undefined\<close> or \<open>null\<close> rejects with the \<open>TypeError\<close> of the language, whose text is the first argument.
\<close>

definition thenProp :: "jsstring \<Rightarrow> string \<Rightarrow> json option \<Rightarrow> thrown + json option" where
  "thenProp typeError p v = (case getProp v p of None \<Rightarrow> Inl (ErrorObject typeError) | Some x \<Rightarrow> Inr x)"

definition orEmpty :: "json option \<Rightarrow> json option" where
  "orEmpty v = (case v of None \<Rightarrow> Some (JArr []) | Some JNull \<Rightarrow> Some (JArr []) | Some j \<Rightarrow> Some j)"

fun apiThen :: "jsstring \<Rightarrow> api_call \<Rightarrow> json option \<Rightarrow> thrown + json option" where
  "apiThen te ListUsers v = map_sum id orEmpty (thenProp te ''users'' v)"
| "apiThen te (CreateUser name) v = thenProp te ''user'' v"
| "apiThen te ListNodes v = map_sum id orEmpty (thenProp te ''nodes'' v)"
| "apiThen te ListAdmins v = map_sum id orEmpty (thenProp te ''admins'' v)"
| "apiThen te c v = Inr v"

definition apiResult ::
    "(jsstring \<Rightarrow> jsstring) \<Rightarrow> jsstring \<Rightarrow> api_call \<Rightarrow> fetch_result \<Rightarrow> thrown + json option" where
  "apiResult syntaxError typeError c res =
     (case request syntaxError res of Inl e \<Rightarrow> Inl e | Inr v \<Rightarrow> apiThen typeError c v)"

subsection \<open>What is sent\<close>

definition namedCalls :: "jsstring \<Rightarrow> (api_call \<times> string \<times> string) list" where
  "namedCalls name =
     [(DeleteUser name, ''/api/users/'', ''DELETE''), (DeleteNode name, ''/api/nodes/'', ''DELETE''),
      (GrantAdmin name, ''/api/admins/'', ''PUT''), (RevokeAdmin name, ''/api/admins/'', ''DELETE'')]"

lemma withName_Some: "withName pre name mth = Some fi \<Longrightarrow>
    \<exists>seg. encodeURIComponent name = Some seg \<and> fi = fetchInit (js pre @ seg) mth None"
  by (auto simp: withName_def)

lemma namedCalls_fetch: "(c, pre, mth) \<in> set (namedCalls name) \<Longrightarrow> apiFetch c = withName pre name mth"
  by (auto simp: namedCalls_def)



subsection \<open>What comes back\<close>

definition okResponse :: "json \<Rightarrow> fetch_response" where
  "okResponse j = \<lparr>fr_status = 200, fr_headers = [], fr_body = Inr (utf8_encode (JSON_stringify j))\<rparr>"

definition failResponse :: "int \<Rightarrow> jsstring \<Rightarrow> fetch_response" where
  "failResponse st t = \<lparr>fr_status = st, fr_headers = [], fr_body = Inr (utf8_encode t)\<rparr>"

lemma request_ok: "json_ok j \<Longrightarrow> request se (Inr (okResponse j)) = Inr (Some j)"
  by (simp add: request_def okResponse_def resOk_def headersGet_def responseJson_def responseText_def JSON_parse_utf8)

lemma request_fail:
  "\<not> (200 \<le> st \<and> st \<le> 299) \<Longrightarrow> text_ok t \<Longrightarrow>
     request se (Inr (failResponse st t)) = Inl (ErrorObject (showNum st 0 @ js '': '' @ t))"
  by (simp add: request_def failResponse_def resOk_def responseText_def utf8_decode_encode)

lemma json_ok_userJson: "json_ok (userJson u)"
  by (cases "u_id u"; cases "u_createdAt u") (simp_all add: userJson_def map_ok_def)

lemma json_ok_strings: "json_ok (strings xs)"
  by (simp add: strings_def list.pred_set)

lemma json_ok_nodeJson: "json_ok (nodeJson n)"
  by (cases "n_ipAddresses n"; cases "n_lastSeen n"; cases "n_createdAt n"; cases "n_forcedTags n"; cases "n_validTags n";
      cases "n_user n") (simp_all add: nodeJson_def map_ok_def json_ok_strings json_ok_userJson)

text \<open>The list calls, with the property they read.\<close>

definition listCalls :: "user list \<Rightarrow> node list \<Rightarrow> jsstring list \<Rightarrow> (api_call \<times> string \<times> json list) list" where
  "listCalls us ns as =
     [(ListUsers, ''users'', map userJson us), (ListNodes, ''nodes'', map nodeJson ns),
      (ListAdmins, ''admins'', map JStr as)]"

lemma listCalls_ok: "(c, p, items) \<in> set (listCalls us ns as) \<Longrightarrow> json_ok (objLit [(p, Some (JArr items))])"
  by (auto simp: listCalls_def map_ok_def json_ok_userJson json_ok_nodeJson list.pred_set)

lemma apiThen_list:
  "(c, p, items) \<in> set (listCalls us ns as) \<Longrightarrow>
     apiThen te c (Some (JObj kvs)) = Inr (orEmpty (map_get kvs (js p)))"
  by (auto simp: listCalls_def thenProp_def getProp_def)



end
