(* ===== verification/View.thy ===== *)
theory View
  imports ApiClient
begin

text \<open>
  What a component of the portal renders, as data: texts, inputs, boxes and buttons. A box keeps the
  class names or the title that depend on the state, constant styling is left out; a button keeps
  whether it is disabled and the event a click causes. \<open>controls\<close> lists the events a visitor can
  cause, \<open>texts\<close> what is readable.
\<close>

datatype 'e view =
    Text jsstring
  | Input jsstring jsstring
  | QRCode jsstring
  | Box jsstring "'e view list"
  | Button bool 'e "'e view list"

abbreviation Plain :: "'e view list \<Rightarrow> 'e view" where
  "Plain \<equiv> Box []"

abbreviation Lit :: "string \<Rightarrow> 'e view" where
  "Lit s \<equiv> Text (js s)"

fun controls :: "'e view \<Rightarrow> 'e list" where
  "controls (Text s) = []"
| "controls (Input v p) = []"
| "controls (QRCode s) = []"
| "controls (Box c vs) = concat (map controls vs)"
| "controls (Button disabled e vs) = (if disabled then [] else [e])"

fun texts :: "'e view \<Rightarrow> jsstring list" where
  "texts (Text s) = [s]"
| "texts (Input v p) = [v]"
| "texts (QRCode s) = [s]"
| "texts (Box c vs) = concat (map texts vs)"
| "texts (Button disabled e vs) = concat (map texts vs)"

text \<open>\<open>{cond && view}\<close>, and \<open>{value && view}\<close> for a string that may be missing or empty.\<close>

definition whenView :: "bool \<Rightarrow> 'e view list \<Rightarrow> 'e view list" where
  "whenView b vs = (if b then vs else [])"

definition nonEmpty :: "jsstring option \<Rightarrow> bool" where
  "nonEmpty s \<longleftrightarrow> (case s of None \<Rightarrow> False | Some t \<Rightarrow> t \<noteq> [])"

lemma set_controls_Box [simp]: "set (controls (Box c vs)) = (\<Union>v\<in>set vs. set (controls v))"
  by simp

lemma whenView_simps [simp]: "whenView True vs = vs" "whenView False vs = []"
  by (simp_all add: whenView_def)

lemma set_whenView: "set (whenView b vs) = (if b then set vs else {})"
  by (simp add: whenView_def)

text \<open>Renaming the events of a view renames its controls.\<close>

lemma controls_map_view [simp]: "controls (map_view f v) = map f (controls v)"
proof (induction v)
  case (Box c vs)
  then have "map (\<lambda>v. controls (map_view f v)) vs = map (\<lambda>v. map f (controls v)) vs" by simp
  then show ?case by (simp add: map_concat o_def del: map_eq_conv)
qed simp_all

text \<open>Characters of the interface that are not ASCII.\<close>

definition emDash :: jsstring where "emDash = [0x2014]"
definition ellipsis :: jsstring where "ellipsis = [0x2026]"
definition checkMark :: jsstring where "checkMark = [0x2713]"
definition middleDot :: jsstring where "middleDot = [0xB7]"

definition showLength :: "'a list \<Rightarrow> jsstring" where
  "showLength xs = showNat (length xs)"

text \<open>The plural of the interface: \<open>n !== 1 ? "s" : ""\<close>.\<close>

definition plural :: "'a list \<Rightarrow> jsstring" where
  "plural xs = (if length xs \<noteq> 1 then js ''s'' else [])"

text \<open>
  A settled promise of a call: what the \<open>then\<close> or the code after the \<open>await\<close> gets, or what the
  \<open>catch\<close> gets.
\<close>

type_synonym 'a settled = "thrown + 'a"

end
