(* ===== verification/Layout.thy ===== *)
theory Layout
  imports View
begin

text \<open>
  The frame of the portal (frontend/src/components/Layout.tsx and ConnectionStatus.tsx): the
  classification of the visitor's address, the current user that \<open>/api/me\<close> reports, and the gate that
  shows the management page to administrators only. One event is one turn of the event loop: a
  settled request, a click on the badge, a mouse press anywhere.
\<close>

subsection \<open>Connection status\<close>

datatype color = Green | Orange

record status_class =
  sc_color :: color
  sc_label :: jsstring
  sc_detail :: jsstring

definition classify :: "hello_response \<Rightarrow> status_class" where
  "classify data =
     (let ip = your_ip data in
      if startsWith ip (js ''100.'') \<or> startsWith ip (js ''fd7a:'') \<or> is_tailnet data
      then \<lparr>sc_color = Green, sc_label = js ''On tailnet'', sc_detail = ip\<rparr>
      else \<lparr>sc_color = Orange, sc_label = js ''Not on tailnet'', sc_detail = ip\<rparr>)"

definition isLocal :: "hello_response \<Rightarrow> bool" where
  "isLocal data \<longleftrightarrow>
     your_ip data = js ''::1'' \<or> startsWith (your_ip data) (js ''127.'') \<or>
     startsWith (your_ip data) (js ''192.168.'') \<or> startsWith (your_ip data) (js ''10.'') \<or>
     startsWith (your_ip data) (js ''172.'')"

text \<open>\<open>Row\<close>: a label and a value, with the class names its two flags select.\<close>

definition rowView :: "jsstring \<Rightarrow> jsstring \<Rightarrow> bool \<Rightarrow> bool \<Rightarrow> 'e view" where
  "rowView label val isMono muted =
     Plain [Text label,
       Box ((if isMono then js ''font-mono'' else []) @ js '' '' @
            (if muted then js ''text-gray-300 italic'' else js ''text-gray-700'')) [Text val]]"

definition statusDetail :: "color \<Rightarrow> bool \<Rightarrow> string" where
  "statusDetail c local =
     (if c = Green then ''You are accessing this portal over the Headscale mesh network.''
      else if local
      then ''You are accessing this portal directly via localhost or a local network address. Headscale user identity is not available.''
      else ''Your IP address is not recognised as a Headscale address. Connect via the mesh to see your identity.'')"

definition connectionStatusView :: "hello_response option \<Rightarrow> 'e view list" where
  "connectionStatusView d =
     (case d of None \<Rightarrow> []
      | Some data \<Rightarrow>
          let c = classify data in
          [Plain
             [Plain [Box (if sc_color c = Green then js ''bg-green-500'' else js ''bg-amber-400'') [],
                     Box (if sc_color c = Green then js ''text-green-700'' else js ''text-amber-600'') [Text (sc_label c)]],
              Plain ([rowView (js ''IP address'') (your_ip data) True False,
                      (if nonEmpty (user_name data) then rowView (js ''User'') (the (user_name data)) False False
                       else rowView (js ''User'') (if isLocal data then emDash else js ''Unknown'') False True)] @
                     whenView (nonEmpty (node_name data)) [rowView (js ''Device'') (the (node_name data)) True False]),
              Plain [Lit (statusDetail (sc_color c) (isLocal data))]]])"

text \<open>The state of \<open>ConnectionStatus\<close> and of \<open>useConnectionStatus\<close>: the reply, when there is one.\<close>

definition helloSettled :: "hello_response settled \<Rightarrow> hello_response option \<Rightarrow> hello_response option" where
  "helloSettled r d = (case r of Inl e \<Rightarrow> d | Inr h \<Rightarrow> Some h)"

subsection \<open>Layout\<close>

record current_user =
  userName :: jsstring
  isAdmin :: bool
  isLocalAccess :: bool
  loading :: bool

definition defaultCurrentUser :: current_user where
  "defaultCurrentUser = \<lparr>userName = [], isAdmin = False, isLocalAccess = False, loading = True\<rparr>"

definition onTailnet :: "hello_response \<Rightarrow> bool" where
  "onTailnet data \<longleftrightarrow>
     (let ip = your_ip data in startsWith ip (js ''100.'') \<or> startsWith ip (js ''fd7a:'') \<or> is_tailnet data)"

text \<open>
  The state of \<open>Layout\<close>. The last two fields say which of the two requests of its effects are still
  under way.
\<close>

record layout =
  status :: "hello_response option"
  showPopover :: bool
  currentUser :: current_user
  helloUnderWay :: bool
  meUnderWay :: bool

definition newLayout :: layout where
  "newLayout =
     \<lparr>status = None, showPopover = False, currentUser = defaultCurrentUser, helloUnderWay = True, meUnderWay = True\<rparr>"

datatype layout_event =
    HelloSettled "hello_response settled"
  | MeSettled "me_response settled"
  | BadgeClicked
  | MouseDown bool

definition meSettled :: "me_response settled \<Rightarrow> current_user" where
  "meSettled r =
     (case r of
        Inr me \<Rightarrow> \<lparr>userName = me_user_name me, isAdmin = is_admin me, isLocalAccess = is_local_access me, loading = False\<rparr>
      | Inl e \<Rightarrow> defaultCurrentUser\<lparr>loading := False\<rparr>)"

text \<open>
  The listener for mouse presses is installed while the popover is shown; \<open>MouseDown inside\<close> says
  whether the press hit the badge, which is rendered when the status is known.
\<close>

fun layoutStep :: "layout \<Rightarrow> layout_event \<Rightarrow> layout \<times> api_call list" where
  "layoutStep s (HelloSettled r) = (s\<lparr>status := helloSettled r (status s), helloUnderWay := False\<rparr>, [])"
| "layoutStep s (MeSettled r) = (s\<lparr>currentUser := meSettled r, meUnderWay := False\<rparr>, [])"
| "layoutStep s BadgeClicked = (s\<lparr>showPopover := \<not> showPopover s\<rparr>, [])"
| "layoutStep s (MouseDown inside) =
     (if showPopover s \<and> status s \<noteq> None \<and> \<not> inside then s\<lparr>showPopover := False\<rparr> else s, [])"

datatype 'c app_event = FrameEvent layout_event | PageEvent 'c

text \<open>\<open>PopoverRow\<close>, which also truncates its value.\<close>

definition popoverRow :: "jsstring \<Rightarrow> jsstring \<Rightarrow> bool \<Rightarrow> bool \<Rightarrow> 'e view" where
  "popoverRow lab val isMono muted =
     Plain [Text lab,
       Box ((if isMono then js ''font-mono'' else []) @ js '' '' @
            (if muted then js ''text-gray-300 italic'' else js ''text-gray-700'') @ js '' truncate'') [Text val]]"

definition badgeView :: "layout \<Rightarrow> 'c app_event view list" where
  "badgeView s =
     (case status s of None \<Rightarrow> []
      | Some st \<Rightarrow>
          let on = onTailnet st in
          [Plain
            ([Button False (FrameEvent BadgeClicked)
               [Box (if on then js ''border-green-200 text-green-700 bg-green-50 hover:bg-green-100''
                     else js ''border-amber-200 text-amber-600 bg-amber-50 hover:bg-amber-100'')
                  [Box (if on then js ''bg-green-500'' else js ''bg-amber-400'') [],
                   Lit (if on then ''On tailnet'' else ''Not on tailnet'')]]] @
             whenView (showPopover s)
               [Plain
                 ([Box (if on then js ''bg-green-50 border-green-100 text-green-700''
                        else js ''bg-amber-50 border-amber-100 text-amber-600'')
                     [Lit (if on then ''Accessing via Headscale mesh'' else ''Not connected via tailnet'')],
                   Plain ([popoverRow (js ''IP'') (your_ip st) True False,
                           (if nonEmpty (user_name st) then popoverRow (js ''User'') (the (user_name st)) False False
                            else popoverRow (js ''User'') emDash False True)] @
                          whenView (nonEmpty (node_name st)) [popoverRow (js ''Device'') (the (node_name st)) True False])] @
                  whenView (\<not> on) [Plain [Lit ''Connect via the mesh to see your identity.'']])])])"

definition accessRestrictedView :: "jsstring \<Rightarrow> jsstring \<Rightarrow> 'e view" where
  "accessRestrictedView un ip =
     Plain
       ([Lit ''Access restricted'',
         Lit ''Contact your HeadFwd admin to gain access to the management portal.''] @
        whenView (un \<noteq> [] \<or> ip \<noteq> [])
          [Plain (whenView (ip \<noteq> []) [popoverRow (js ''IP'') ip True False] @
                  [if un \<noteq> [] then popoverRow (js ''User'') un False False else popoverRow (js ''User'') emDash False True])])"

definition mainView :: "'c view \<Rightarrow> layout \<Rightarrow> 'c app_event view" where
  "mainView children s =
     (if loading (currentUser s) then Plain [Lit ''Loading...'']
      else if \<not> isAdmin (currentUser s)
      then accessRestrictedView (userName (currentUser s)) (case status s of None \<Rightarrow> [] | Some st \<Rightarrow> your_ip st)
      else map_view PageEvent children)"

definition layoutView :: "'c view \<Rightarrow> layout \<Rightarrow> 'c app_event view" where
  "layoutView children s =
     Plain [Plain ([Lit ''HeadFwd''] @ badgeView s), Plain [mainView children s]]"

text \<open>
  Which events can occur: a request settles once, a click needs its button on the page, and a press
  inside the badge needs the badge.
\<close>

fun layoutGuard :: "layout \<Rightarrow> layout_event \<Rightarrow> bool" where
  "layoutGuard s (HelloSettled r) \<longleftrightarrow> helloUnderWay s"
| "layoutGuard s (MeSettled r) \<longleftrightarrow> meUnderWay s"
| "layoutGuard s BadgeClicked \<longleftrightarrow> status s \<noteq> None"
| "layoutGuard s (MouseDown inside) \<longleftrightarrow> inside \<longrightarrow> status s \<noteq> None"

subsection \<open>The two classifications\<close>

text \<open>
  The card and the header badge classify every reply the same way: the card is green with the
  label of the badge exactly when the badge says that the visitor is on the tailnet, and a reply the
  backend marks as tailnet traffic is never shown as local.
\<close>

theorem classify_agrees:
  "(sc_color (classify d) = Green \<longleftrightarrow> onTailnet d) \<and>
   sc_label (classify d) = js (if onTailnet d then ''On tailnet'' else ''Not on tailnet'') \<and>
   sc_detail (classify d) = your_ip d \<and>
   (is_tailnet d \<longrightarrow> statusDetail (sc_color (classify d)) (isLocal d) = statusDetail Green False)"
  by (simp add: classify_def onTailnet_def statusDetail_def Let_def)

text \<open>
  A finding on addresses: the prefixes cover more than the ranges they stand for. The carrier-grade
  range of the tailnet is \<open>100.64.0.0/10\<close> and the private one \<open>172.16.0.0/12\<close>, but a public address in
  \<open>100.0.0.0/10\<close> counts as tailnet and one in \<open>172.32.0.0/11\<close> as local.
\<close>

lemma prefix_too_wide:
  "your_ip d = js ''100.1.2.3'' \<Longrightarrow> onTailnet d" "your_ip d = js ''172.217.0.1'' \<Longrightarrow> isLocal d"
  by (simp_all add: onTailnet_def isLocal_def startsWith_def js_literal)

subsection \<open>The gate\<close>

lemma loading_defaultCurrentUser [simp]: "loading defaultCurrentUser" "\<not> isAdmin defaultCurrentUser"
  by (simp_all add: defaultCurrentUser_def)

lemma meSettled_simps [simp]: "\<not> loading (meSettled r)"
  "isAdmin (meSettled r) \<longleftrightarrow> (\<exists>me. r = Inr me \<and> is_admin me)"
  by (auto simp: meSettled_def split: sum.splits)

definition layoutInv :: "layout \<Rightarrow> bool" where
  "layoutInv s \<longleftrightarrow> (loading (currentUser s) \<longleftrightarrow> meUnderWay s) \<and> (isAdmin (currentUser s) \<longrightarrow> \<not> meUnderWay s) \<and>
     (status s = None \<longrightarrow> \<not> showPopover s)"

interpretation frame: guarded_machine layoutStep layoutGuard layoutInv
proof
  fix s e
  assume "layoutInv s" "layoutGuard s e"
  then show "layoutInv (fst (layoutStep s e))"
    by (cases e) (auto simp: layoutInv_def helloSettled_def split: sum.splits)
qed

lemma layoutInv_new: "layoutInv newLayout"
  by (simp add: layoutInv_def newLayout_def)

text \<open>Once \<open>/api/me\<close> has settled the current user no longer changes.\<close>

lemma currentUser_fixed:
  "\<not> meUnderWay s \<Longrightarrow> allowed layoutGuard layoutStep s es \<Longrightarrow>
     currentUser (fst (run layoutStep s es)) = currentUser s \<and> (\<forall>r. MeSettled r \<notin> set es)"
proof (induction es arbitrary: s)
  case (Cons e es)
  from Cons.prems have "\<not> meUnderWay (fst (layoutStep s e))" "currentUser (fst (layoutStep s e)) = currentUser s"
    "\<forall>r. e \<noteq> MeSettled r"
    by (cases e; auto)+
  then show ?case using Cons.IH [of "fst (layoutStep s e)"] Cons.prems(2) by (auto simp: fst_run_Cons simp del: run.simps(2))
qed simp

definition adminReply :: "layout_event list \<Rightarrow> bool" where
  "adminReply es \<longleftrightarrow> list_ex (\<lambda>e. case e of MeSettled (Inr me) \<Rightarrow> is_admin me | _ \<Rightarrow> False) es"

definition meReply :: "layout_event list \<Rightarrow> bool" where
  "meReply es \<longleftrightarrow> list_ex (\<lambda>e. case e of MeSettled r \<Rightarrow> True | _ \<Rightarrow> False) es"

lemma adminReply_simps [simp]: "\<not> adminReply []"
  "adminReply (e # es) \<longleftrightarrow> (\<exists>me. e = MeSettled (Inr me) \<and> is_admin me) \<or> adminReply es"
  by (auto simp: adminReply_def split: layout_event.splits sum.splits)

lemma meReply_simps [simp]: "\<not> meReply []" "meReply (e # es) \<longleftrightarrow> (\<exists>r. e = MeSettled r) \<or> meReply es"
  by (auto simp: meReply_def split: layout_event.splits)

lemma replies_absent: "\<forall>r. MeSettled r \<notin> set es \<Longrightarrow> \<not> adminReply es \<and> \<not> meReply es"
  by (induction es) auto

lemma gate_run:
  "layoutInv s \<Longrightarrow> meUnderWay s \<Longrightarrow> allowed layoutGuard layoutStep s es \<Longrightarrow>
     (isAdmin (currentUser (fst (run layoutStep s es))) \<longleftrightarrow> adminReply es) \<and>
     (loading (currentUser (fst (run layoutStep s es))) \<longleftrightarrow> \<not> meReply es)"
proof (induction es arbitrary: s)
  case Nil
  then show ?case by (auto simp: layoutInv_def)
next
  case (Cons e es)
  let ?s = "fst (layoutStep s e)"
  have inv: "layoutInv ?s" using Cons.prems frame.inv_step by simp
  show ?case
  proof (cases "\<exists>r. e = MeSettled r")
    case True
    then obtain r where r: "e = MeSettled r" by blast
    then have "\<not> meUnderWay ?s" "currentUser ?s = meSettled r" by simp_all
    then show ?thesis
      using currentUser_fixed [of ?s es] Cons.prems(3) r replies_absent [of es]
      by (auto simp: fst_run_Cons simp del: run.simps(2))
  next
    case False
    then have "meUnderWay ?s" using Cons.prems(2) by (cases e) auto
    then show ?thesis using Cons.IH [OF inv] Cons.prems(3) False by (auto simp: fst_run_Cons simp del: run.simps(2))
  qed
qed

lemma controls_accessRestricted: "controls (accessRestrictedView un ip :: 'e view) = []"
  by (simp add: accessRestrictedView_def popoverRow_def whenView_def)

lemma FrameEvent_badge: "e \<in> set (controls v) \<Longrightarrow> v \<in> set (badgeView s) \<Longrightarrow> e = FrameEvent BadgeClicked"
  by (auto simp: badgeView_def popoverRow_def whenView_def Let_def split: option.splits if_splits)

lemma PageEvent_main:
  "PageEvent c \<in> set (controls (mainView children s)) \<longleftrightarrow>
     \<not> loading (currentUser s) \<and> isAdmin (currentUser s) \<and> c \<in> set (controls children)"
  by (auto simp: mainView_def controls_accessRestricted)

lemma PageEvent_layout:
  "PageEvent c \<in> set (controls (layoutView children s)) \<longleftrightarrow>
     \<not> loading (currentUser s) \<and> isAdmin (currentUser s) \<and> c \<in> set (controls children)"
  using PageEvent_main [of c children s] FrameEvent_badge by (fastforce simp: layoutView_def)

text \<open>
  C10. Only administrators see the management page. In every run of the frame, a control of the page
  is on screen exactly when it is a control of the page itself and \<open>/api/me\<close> has answered that the
  visitor is an administrator; a failed request, an answer without the flag or no answer at all
  shows no control of the page, whatever else happens.
\<close>

theorem management_gate:
  assumes "allowed layoutGuard layoutStep newLayout es"
  shows "PageEvent c \<in> set (controls (layoutView children (fst (run layoutStep newLayout es)))) \<longleftrightarrow>
    adminReply es \<and> c \<in> set (controls children)"
proof -
  have "meReply es" if "adminReply es" using that by (induction es) auto
  moreover have "meUnderWay newLayout" by (simp add: newLayout_def)
  ultimately show ?thesis
    unfolding PageEvent_layout using gate_run [OF layoutInv_new _ assms] by blast
qed

definition sampleMe :: "bool \<Rightarrow> me_response" where
  "sampleMe a = \<lparr>me_user_name = js ''alice'', is_admin = a, is_local_access = False\<rparr>"

theorem management_gate_witness:
  "PageEvent (7::nat) \<in> set (controls (layoutView (Button False 7 []) (fst (run layoutStep newLayout [MeSettled (Inr (sampleMe True))])))) \<and>
   PageEvent (7::nat) \<notin> set (controls (layoutView (Button False 7 []) (fst (run layoutStep newLayout [MeSettled (Inr (sampleMe False))]))))"
  using management_gate [of "[MeSettled (Inr (sampleMe True))]" "7::nat" "Button False 7 []"]
    management_gate [of "[MeSettled (Inr (sampleMe False))]" "7::nat" "Button False 7 []"]
  by (simp add: newLayout_def sampleMe_def del: run.simps)

end
