(* ===== verification/UsersPage.thy ===== *)
theory UsersPage
  imports View
begin

text \<open>
  The management page (frontend/src/components/Users.tsx): its state, the handlers of \<open>Users\<close>,
  \<open>UserRow\<close>, \<open>NodeRow\<close> and \<open>OnboardPanel\<close>, the countdown, what they render, and one turn of the event
  loop, \<open>usersStep\<close>.

  The local state of a row or a panel lives as long as React keeps it mounted: rows are keyed by user
  name and node id, and \<open>render\<close> keeps the state of a key that is still there and mounts a fresh one
  otherwise. Every mounted row and panel has a number of its own, so that a handler that outlives its
  row changes nothing. An asynchronous handler is split at its \<open>await\<close>: the call stays in \<open>underWay\<close>
  until the event that settles it. The closure of a handler is the arguments of its event.
\<close>

subsection \<open>State\<close>

definition SYSTEM_USER :: jsstring where
  "SYSTEM_USER = js ''headfwd-server''"

datatype admin_change = Grant | Revoke

record node_row =
  nr_id :: jsstring
  nr_inst :: nat
  nr_confirmDelete :: bool
  nr_deleting :: bool
  nr_deleteError :: "jsstring option"

record panel =
  pn_inst :: nat
  copied :: bool
  baselineIds :: "jsstring list"

record user_row =
  ur_name :: jsstring
  ur_inst :: nat
  confirmDelete :: bool
  deleting :: bool
  deleteError :: "jsstring option"
  confirmAdmin :: "admin_change option"
  adminBusy :: bool
  adminError :: "jsstring option"
  nodeRows :: "node_row list"
  onboardPanel :: "panel option"

text \<open>Calls that have not settled, with what the code after the \<open>await\<close> needs.\<close>

datatype call =
    Refreshing "jsstring option"
  | Creating jsstring
  | KeyFor jsstring
  | DeletingUser nat jsstring
  | Toggling nat jsstring bool
  | DeletingNode nat jsstring
  | Polling jsstring "jsstring list"

record page =
  users :: "user list"
  nodes :: "node list"
  adminNames :: "jsstring list"
  pageLoading :: bool
  error :: "jsstring option"
  newName :: jsstring
  creating :: bool
  onboardingUser :: "jsstring option"
  keyData :: "(jsstring, create_key_response) jsmap"
  generatingKey :: "jsstring option"
  rows :: "user_row list"
  taggedRows :: "node_row list"
  nextInst :: nat
  renderedAt :: int
  underWay :: "call list"

datatype page_effect = Call api_call | Clipboard jsstring

text \<open>What the page gets from its surroundings: \<open>useCurrentUser\<close> and the date parser.\<close>

record viewer =
  currentUserName :: jsstring
  currentIsAdmin :: bool
  getTime :: "jsstring \<Rightarrow> int option"

subsection \<open>Handlers of the page\<close>

definition refresh :: "jsstring option \<Rightarrow> page \<Rightarrow> page \<times> page_effect list" where
  "refresh cont p =
     (p\<lparr>underWay := underWay p @ [Refreshing cont]\<rparr>, [Call ListUsers, Call ListNodes, Call ListAdmins])"

definition initialPage :: page where
  "initialPage =
     \<lparr>users = [], nodes = [], adminNames = [], pageLoading = True, error = None, newName = [], creating = False,
      onboardingUser = None, keyData = [], generatingKey = None, rows = [], taggedRows = [], nextInst = 0,
      renderedAt = 0, underWay = []\<rparr>"

text \<open>The page after its first effect.\<close>

definition mountedPage :: page where
  "mountedPage = fst (refresh None initialPage)"

definition handleGenerateKey :: "jsstring \<Rightarrow> page \<Rightarrow> page \<times> page_effect list" where
  "handleGenerateKey name p =
     (p\<lparr>onboardingUser := Some name, keyData := map_delete name (keyData p), generatingKey := Some name,
        underWay := underWay p @ [KeyFor name]\<rparr>,
      [Call (CreateKey name False)])"

definition keySettled :: "jsstring \<Rightarrow> create_key_response settled \<Rightarrow> page \<Rightarrow> page \<times> page_effect list" where
  "keySettled name r p =
     (case r of
        Inr k \<Rightarrow> (p\<lparr>keyData := map_set name k (keyData p), generatingKey := None\<rparr>, [])
      | Inl e \<Rightarrow> (p\<lparr>error := Some (errorText ''Failed to generate key'' e), generatingKey := None\<rparr>, []))"

definition handleCreateUser :: "page \<Rightarrow> page \<times> page_effect list" where
  "handleCreateUser p =
     (let name = trim (newName p) in
      if name = [] then (p, [])
      else (p\<lparr>creating := True, underWay := underWay p @ [Creating name]\<rparr>, [Call (CreateUser name)]))"

definition createSettled :: "jsstring \<Rightarrow> unit settled \<Rightarrow> page \<Rightarrow> page \<times> page_effect list" where
  "createSettled name r p =
     (case r of
        Inr u \<Rightarrow> refresh (Some name) (p\<lparr>newName := []\<rparr>)
      | Inl e \<Rightarrow> (p\<lparr>error := Some (errorText ''Failed to create user'' e), creating := False\<rparr>, []))"

text \<open>
  The end of \<open>refresh\<close>: the three lists, or the error of the first call that failed; then
  \<open>handleCreateUser\<close>, when it was waiting, generates the first key of the new user.
\<close>

definition refreshSettled ::
    "jsstring option \<Rightarrow> (user list \<times> node list \<times> jsstring list) settled \<Rightarrow> page \<Rightarrow> page \<times> page_effect list" where
  "refreshSettled cont r p =
     (let p1 = (case r of
            Inr (u, n, a) \<Rightarrow> p\<lparr>users := u, nodes := n, adminNames := a, error := None, pageLoading := False\<rparr>
          | Inl e \<Rightarrow> p\<lparr>error := Some (errorText ''Failed to load'' e), pageLoading := False\<rparr>)
      in case cont of None \<Rightarrow> (p1, [])
         | Some name \<Rightarrow> (case handleGenerateKey name p1 of (p2, os) \<Rightarrow> (p2\<lparr>creating := False\<rparr>, os)))"

definition toggleOnboarding :: "jsstring \<Rightarrow> page \<Rightarrow> page \<times> page_effect list" where
  "toggleOnboarding name p =
     (if onboardingUser p = Some name then (p\<lparr>onboardingUser := None\<rparr>, []) else handleGenerateKey name p)"

definition onDeviceRegistered :: "page \<Rightarrow> page \<times> page_effect list" where
  "onDeviceRegistered p = refresh None (p\<lparr>onboardingUser := None\<rparr>)"

definition nodesForUser :: "jsstring \<Rightarrow> page \<Rightarrow> node list" where
  "nodesForUser name p = filter (\<lambda>n. map_option u_name (n_user n) = Some name) (nodes p)"

definition taggedNodes :: "page \<Rightarrow> node list" where
  "taggedNodes p = filter (\<lambda>n. (case n_forcedTags n of None \<Rightarrow> 0 | Some ts \<Rightarrow> length ts) > 0) (nodes p)"

subsection \<open>Handlers of a user row\<close>

definition updRow :: "nat \<Rightarrow> (user_row \<Rightarrow> user_row) \<Rightarrow> page \<Rightarrow> page" where
  "updRow i f p = p\<lparr>rows := map (\<lambda>r. if ur_inst r = i then f r else r) (rows p)\<rparr>"

definition handleDelete :: "nat \<Rightarrow> jsstring \<Rightarrow> page \<Rightarrow> page \<times> page_effect list" where
  "handleDelete i name p =
     ((updRow i (\<lambda>r. r\<lparr>deleting := True, deleteError := None\<rparr>) p)\<lparr>underWay := underWay p @ [DeletingUser i name]\<rparr>,
      [Call (DeleteUser name)])"

definition deleteSettled :: "nat \<Rightarrow> unit settled \<Rightarrow> page \<Rightarrow> page \<times> page_effect list" where
  "deleteSettled i res p =
     (case res of
        Inr u \<Rightarrow> refresh None p
      | Inl e \<Rightarrow> (updRow i (\<lambda>r. r\<lparr>deleteError := Some (errorText ''Delete failed'' e), deleting := False,
                                 confirmDelete := False\<rparr>) p, []))"

definition handleAdminToggle :: "nat \<Rightarrow> jsstring \<Rightarrow> bool \<Rightarrow> page \<Rightarrow> page \<times> page_effect list" where
  "handleAdminToggle i name adm p =
     ((updRow i (\<lambda>r. r\<lparr>adminBusy := True, adminError := None\<rparr>) p)\<lparr>underWay := underWay p @ [Toggling i name adm]\<rparr>,
      [Call (if adm then RevokeAdmin name else GrantAdmin name)])"

definition adminSettled :: "nat \<Rightarrow> unit settled \<Rightarrow> page \<Rightarrow> page \<times> page_effect list" where
  "adminSettled i res p =
     (case res of
        Inr u \<Rightarrow> refresh None (updRow i (\<lambda>r. r\<lparr>confirmAdmin := None\<rparr>) p)
      | Inl e \<Rightarrow> (updRow i (\<lambda>r. r\<lparr>adminError := Some (errorText ''Failed'' e), adminBusy := False\<rparr>) p, []))"

subsection \<open>Handlers of a node row\<close>

definition updNodes :: "nat \<Rightarrow> (node_row \<Rightarrow> node_row) \<Rightarrow> node_row list \<Rightarrow> node_row list" where
  "updNodes i f = map (\<lambda>r. if nr_inst r = i then f r else r)"

definition updNode :: "nat \<Rightarrow> (node_row \<Rightarrow> node_row) \<Rightarrow> page \<Rightarrow> page" where
  "updNode i f p =
     p\<lparr>rows := map (\<lambda>r. r\<lparr>nodeRows := updNodes i f (nodeRows r)\<rparr>) (rows p), taggedRows := updNodes i f (taggedRows p)\<rparr>"

definition handleDeleteNode :: "nat \<Rightarrow> jsstring \<Rightarrow> page \<Rightarrow> page \<times> page_effect list" where
  "handleDeleteNode i nid p =
     ((updNode i (\<lambda>r. r\<lparr>nr_deleting := True, nr_deleteError := None\<rparr>) p)\<lparr>underWay := underWay p @ [DeletingNode i nid]\<rparr>,
      [Call (DeleteNode nid)])"

definition nodeDeleteSettled :: "nat \<Rightarrow> unit settled \<Rightarrow> page \<Rightarrow> page \<times> page_effect list" where
  "nodeDeleteSettled i res p =
     (case res of
        Inr u \<Rightarrow> refresh None p
      | Inl e \<Rightarrow> (updNode i (\<lambda>r. r\<lparr>nr_deleteError := Some (errorText ''Delete failed'' e), nr_deleting := False,
                                  nr_confirmDelete := False\<rparr>) p, []))"

subsection \<open>Countdown and onboarding panel\<close>

record countdown =
  label :: jsstring
  expired :: bool

text \<open>\<open>getTime\<close> gives the milliseconds of a date, or \<open>None\<close> for \<open>NaN\<close>, which prints as such.\<close>

definition useCountdown :: "(jsstring \<Rightarrow> int option) \<Rightarrow> int \<Rightarrow> jsstring option \<Rightarrow> countdown" where
  "useCountdown time nowMs expiresAt =
     (if \<not> nonEmpty expiresAt then \<lparr>label = [], expired = False\<rparr>
      else case time (the expiresAt) of
        None \<Rightarrow> \<lparr>label = js ''NaNm NaNs'', expired = False\<rparr>
      | Some t \<Rightarrow>
          let secsLeft = (t - nowMs) div 1000 in
          if secsLeft \<le> 0 then \<lparr>label = js ''Expired'', expired = True\<rparr>
          else let m = secsLeft div 60; s = secsLeft mod 60
               in \<lparr>label = showNat (nat m) @ js ''m '' @ padStart 2 (of_char CHR ''0'') (showNat (nat s)) @ js ''s'',
                   expired = False\<rparr>)"

text \<open>
  \<open>keyData[user.name] ?? null\<close>: a key of the object itself, or for the name of a method of
  \<open>Object.prototype\<close> the inherited one, a value without the fields of a key.
\<close>

datatype key_slot = NoKey | OwnKey create_key_response | Inherited

definition prototypeNames :: "jsstring list" where
  "prototypeNames =
     map js [''constructor'', ''__defineGetter__'', ''__defineSetter__'', ''hasOwnProperty'', ''__lookupGetter__'',
             ''__lookupSetter__'', ''isPrototypeOf'', ''propertyIsEnumerable'', ''toString'', ''valueOf'', ''__proto__'',
             ''toLocaleString'']"

definition keyFor :: "jsstring \<Rightarrow> page \<Rightarrow> key_slot" where
  "keyFor name p =
     (case map_get (keyData p) name of
        Some k \<Rightarrow> OwnKey k
      | None \<Rightarrow> if name \<in> set prototypeNames then Inherited else NoKey)"

fun slotText :: "(create_key_response \<Rightarrow> jsstring) \<Rightarrow> key_slot \<Rightarrow> jsstring" where
  "slotText f (OwnKey k) = f k"
| "slotText f s = []"

fun slotExpiry :: "key_slot \<Rightarrow> jsstring option" where
  "slotExpiry (OwnKey k) = Some (expires_at k)"
| "slotExpiry s = None"

definition panelCountdown :: "viewer \<Rightarrow> jsstring \<Rightarrow> page \<Rightarrow> countdown" where
  "panelCountdown v name p = useCountdown (getTime v) (renderedAt p) (slotExpiry (keyFor name p))"

text \<open>The polling effect: whether the interval is running, one round of it, and its answer.\<close>

definition pollActive :: "viewer \<Rightarrow> jsstring \<Rightarrow> page \<Rightarrow> bool" where
  "pollActive v name p \<longleftrightarrow> keyFor name p \<noteq> NoKey \<and> \<not> expired (panelCountdown v name p)"

definition startPoll :: "jsstring \<Rightarrow> jsstring list \<Rightarrow> page \<Rightarrow> page \<times> page_effect list" where
  "startPoll name baseline p = (p\<lparr>underWay := underWay p @ [Polling name baseline]\<rparr>, [Call ListNodes])"

definition pollSettled :: "jsstring \<Rightarrow> jsstring list \<Rightarrow> node list settled \<Rightarrow> page \<Rightarrow> page \<times> page_effect list" where
  "pollSettled name baseline r p =
     (case r of
        Inl e \<Rightarrow> (p, [])
      | Inr ns \<Rightarrow>
          (case find (\<lambda>n. map_option u_name (n_user n) = Some name \<and> n_id n \<notin> set baseline) ns of
             None \<Rightarrow> (p, [])
           | Some n \<Rightarrow> onDeviceRegistered p))"

definition updPanel :: "nat \<Rightarrow> (panel \<Rightarrow> panel) \<Rightarrow> page \<Rightarrow> page" where
  "updPanel i f p =
     p\<lparr>rows := map (\<lambda>r. r\<lparr>onboardPanel := map_option (\<lambda>q. if pn_inst q = i then f q else q) (onboardPanel r)\<rparr>) (rows p)\<rparr>"

definition copyKey :: "nat \<Rightarrow> jsstring \<Rightarrow> page \<Rightarrow> page \<times> page_effect list" where
  "copyKey i t p = (updPanel i (\<lambda>q. q\<lparr>copied := True\<rparr>) p, [Clipboard t])"

subsection \<open>Events\<close>

datatype page_event =
    NameTyped jsstring
  | SubmitCreate
  | ToggleOnboarding jsstring
  | RegenerateKey jsstring
  | CancelOnboarding
  | AskAdmin nat admin_change
  | ConfirmAdmin nat jsstring bool
  | CancelAdmin nat
  | AskDelete nat
  | ConfirmDelete nat jsstring
  | CancelDelete nat
  | AskNodeDelete nat
  | ConfirmNodeDelete nat jsstring
  | CancelNodeDelete nat
  | CopyKey nat jsstring
  | CopiedTimeout nat
  | CountdownTick
  | PollFired jsstring "jsstring list"
  | RefreshSettled "jsstring option" "(user list \<times> node list \<times> jsstring list) settled"
  | CreateSettled jsstring "unit settled"
  | KeySettled jsstring "create_key_response settled"
  | DeleteSettled nat jsstring "unit settled"
  | AdminSettled nat jsstring bool "unit settled"
  | NodeDeleteSettled nat jsstring "unit settled"
  | PollSettled jsstring "jsstring list" "node list settled"

definition settle :: "call \<Rightarrow> page \<Rightarrow> page" where
  "settle c p = p\<lparr>underWay := remove1 c (underWay p)\<rparr>"

fun handleEvent :: "page \<Rightarrow> page_event \<Rightarrow> page \<times> page_effect list" where
  "handleEvent p (NameTyped s) = (p\<lparr>newName := s\<rparr>, [])"
| "handleEvent p SubmitCreate = handleCreateUser p"
| "handleEvent p (ToggleOnboarding name) = toggleOnboarding name p"
| "handleEvent p (RegenerateKey name) = handleGenerateKey name p"
| "handleEvent p CancelOnboarding = (p\<lparr>onboardingUser := None\<rparr>, [])"
| "handleEvent p (AskAdmin i c) = (updRow i (\<lambda>r. r\<lparr>confirmAdmin := Some c\<rparr>) p, [])"
| "handleEvent p (ConfirmAdmin i name adm) = handleAdminToggle i name adm p"
| "handleEvent p (CancelAdmin i) = (updRow i (\<lambda>r. r\<lparr>confirmAdmin := None, adminError := None\<rparr>) p, [])"
| "handleEvent p (AskDelete i) = (updRow i (\<lambda>r. r\<lparr>confirmDelete := True\<rparr>) p, [])"
| "handleEvent p (ConfirmDelete i name) = handleDelete i name p"
| "handleEvent p (CancelDelete i) = (updRow i (\<lambda>r. r\<lparr>confirmDelete := False\<rparr>) p, [])"
| "handleEvent p (AskNodeDelete i) = (updNode i (\<lambda>r. r\<lparr>nr_confirmDelete := True\<rparr>) p, [])"
| "handleEvent p (ConfirmNodeDelete i nid) = handleDeleteNode i nid p"
| "handleEvent p (CancelNodeDelete i) = (updNode i (\<lambda>r. r\<lparr>nr_confirmDelete := False\<rparr>) p, [])"
| "handleEvent p (CopyKey i t) = copyKey i t p"
| "handleEvent p (CopiedTimeout i) = (updPanel i (\<lambda>q. q\<lparr>copied := False\<rparr>) p, [])"
| "handleEvent p CountdownTick = (p, [])"
| "handleEvent p (PollFired name baseline) = startPoll name baseline p"
| "handleEvent p (RefreshSettled cont r) = refreshSettled cont r (settle (Refreshing cont) p)"
| "handleEvent p (CreateSettled name r) = createSettled name r (settle (Creating name) p)"
| "handleEvent p (KeySettled name r) = keySettled name r (settle (KeyFor name) p)"
| "handleEvent p (DeleteSettled i name r) = deleteSettled i r (settle (DeletingUser i name) p)"
| "handleEvent p (AdminSettled i name adm r) = adminSettled i r (settle (Toggling i name adm) p)"
| "handleEvent p (NodeDeleteSettled i nid r) = nodeDeleteSettled i r (settle (DeletingNode i nid) p)"
| "handleEvent p (PollSettled name baseline r) = pollSettled name baseline r (settle (Polling name baseline) p)"

subsection \<open>Mounting and unmounting\<close>

text \<open>
  One list of keyed children: a child whose key was there keeps its state, another starts with the
  initial values of its \<open>useState\<close> and \<open>useRef\<close> calls.
\<close>

fun mountAll :: "('r \<Rightarrow> jsstring) \<Rightarrow> (jsstring \<Rightarrow> nat \<Rightarrow> 'r) \<Rightarrow> 'r list \<Rightarrow> jsstring list \<Rightarrow> nat \<Rightarrow> 'r list \<times> nat" where
  "mountAll key new old [] n = ([], n)"
| "mountAll key new old (k # ks) n =
     (case find (\<lambda>r. key r = k) old of
        Some r \<Rightarrow> (case mountAll key new old ks n of (rs, n') \<Rightarrow> (r # rs, n'))
      | None \<Rightarrow> (case mountAll key new old ks (Suc n) of (rs, n') \<Rightarrow> (new k n # rs, n')))"

definition newNodeRow :: "jsstring \<Rightarrow> nat \<Rightarrow> node_row" where
  "newNodeRow nid i =
     \<lparr>nr_id = nid, nr_inst = i, nr_confirmDelete = False, nr_deleting = False, nr_deleteError = None\<rparr>"

definition newUserRow :: "jsstring \<Rightarrow> nat \<Rightarrow> user_row" where
  "newUserRow name i =
     \<lparr>ur_name = name, ur_inst = i, confirmDelete = False, deleting = False, deleteError = None, confirmAdmin = None,
      adminBusy = False, adminError = None, nodeRows = [], onboardPanel = None\<rparr>"

definition mountPanel :: "page \<Rightarrow> user_row \<Rightarrow> nat \<Rightarrow> panel option \<times> nat" where
  "mountPanel p r n =
     (if onboardingUser p = Some (ur_name r)
      then (case onboardPanel r of
              Some q \<Rightarrow> (Some q, n)
            | None \<Rightarrow> (Some \<lparr>pn_inst = n, copied = False, baselineIds = map n_id (nodesForUser (ur_name r) p)\<rparr>, Suc n))
      else (None, n))"

definition mountNodes :: "node_row list \<Rightarrow> node list \<Rightarrow> nat \<Rightarrow> node_row list \<times> nat" where
  "mountNodes old ns n = mountAll nr_id newNodeRow old (map n_id ns) n"

fun mountChildren :: "page \<Rightarrow> user_row list \<Rightarrow> nat \<Rightarrow> user_row list \<times> nat" where
  "mountChildren p [] n = ([], n)"
| "mountChildren p (r # rs) n =
     (let (ns, n1) = mountNodes (nodeRows r) (nodesForUser (ur_name r) p) n;
          (q, n2) = mountPanel p r n1;
          (rs', n3) = mountChildren p rs n2
      in (r\<lparr>nodeRows := ns, onboardPanel := q\<rparr> # rs', n3))"

definition render :: "int \<Rightarrow> page \<Rightarrow> page" where
  "render t p =
     (if pageLoading p then p\<lparr>renderedAt := t\<rparr>
      else let (rs, n1) = mountAll ur_name newUserRow (rows p) (map u_name (users p)) (nextInst p);
               (rs', n2) = mountChildren p rs n1;
               (ts, n3) = mountNodes (taggedRows p) (taggedNodes p) n2
           in p\<lparr>rows := rs', taggedRows := ts, nextInst := n3, renderedAt := t\<rparr>)"

text \<open>One turn: the handler, then the page is rendered again, at the time the event carries.\<close>

definition usersStep :: "page \<Rightarrow> int \<times> page_event \<Rightarrow> page \<times> page_effect list" where
  "usersStep p te = (case te of (t, e) \<Rightarrow> (case handleEvent p e of (p', os) \<Rightarrow> (render t p', os)))"

subsection \<open>What is rendered\<close>

definition isSystem :: "user_row \<Rightarrow> bool" where
  "isSystem r \<longleftrightarrow> ur_name r = SYSTEM_USER"

definition isSelf :: "viewer \<Rightarrow> user_row \<Rightarrow> bool" where
  "isSelf v r \<longleftrightarrow> ur_name r = currentUserName v"

definition rowIsAdmin :: "page \<Rightarrow> user_row \<Rightarrow> bool" where
  "rowIsAdmin p r \<longleftrightarrow> ur_name r \<in> set (adminNames p)"

definition isLastAdmin :: "page \<Rightarrow> user_row \<Rightarrow> bool" where
  "isLastAdmin p r \<longleftrightarrow> rowIsAdmin p r \<and> length (adminNames p) \<le> 1"

definition badgeDisabledReason :: "viewer \<Rightarrow> page \<Rightarrow> user_row \<Rightarrow> jsstring option" where
  "badgeDisabledReason v p r =
     (if isSelf v r then Some (js ''Can't remove your own access'')
      else if isLastAdmin p r then Some (js ''Can't remove the last admin'')
      else None)"

definition adminBadge :: "bool \<Rightarrow> bool \<Rightarrow> 'e view list" where
  "adminBadge active faint =
     (if active then [Box (js ''text-blue-600'') [Lit ''admin'']]
      else if faint then [Box (js ''text-gray-300'') [Lit ''admin'']] else [])"

definition adminControls :: "viewer \<Rightarrow> page \<Rightarrow> user_row \<Rightarrow> page_event view list" where
  "adminControls v p r =
     (let adm = rowIsAdmin p r; i = ur_inst r in
      case confirmAdmin r of
        Some c \<Rightarrow>
          [Plain [Box (if c = Grant then js ''text-blue-600'' else js ''text-amber-600'')
                    [Lit (if c = Grant then ''Grant admin?'' else ''Remove admin?'')],
                  Button (adminBusy r) (ConfirmAdmin i (ur_name r) adm)
                    [Text (if adminBusy r then ellipsis else js ''Yes'')],
                  Button False (CancelAdmin i) [Lit ''Cancel'']]]
      | None \<Rightarrow>
          (case badgeDisabledReason v p r of
             Some reason \<Rightarrow> [Box reason (adminBadge adm (\<not> adm))]
           | None \<Rightarrow>
               [Box (if adm then js ''Remove admin'' else js ''Grant admin'')
                  [Button False (AskAdmin i (if adm then Revoke else Grant)) (adminBadge adm (\<not> adm))]]))"

definition deleteControls :: "page \<Rightarrow> user_row \<Rightarrow> page_event view list" where
  "deleteControls p r =
     (let ns = nodesForUser (ur_name r) p; i = ur_inst r in
      [Box (if confirmDelete r then js ''opacity-100'' else js ''opacity-0 group-hover:opacity-100'')
         (if confirmDelete r
          then [Text (if ns \<noteq> [] then js ''Delete user + '' @ showLength ns @ js '' device'' @ plural ns @ js ''?''
                      else js ''Delete user?''),
                Button (deleting r) (ConfirmDelete i (ur_name r)) [Text (if deleting r then ellipsis else js ''Yes'')],
                Button False (CancelDelete i) [Lit ''Cancel'']]
          else [Button False (AskDelete i) [Lit ''Delete'']])])"

definition primaryIP :: "node \<Rightarrow> jsstring option" where
  "primaryIP n =
     (case n_ipAddresses n of None \<Rightarrow> None
      | Some ips \<Rightarrow>
          (case find (\<lambda>ip. startsWith ip (js ''100.'')) ips of
             Some ip \<Rightarrow> Some ip
           | None \<Rightarrow> (case ips of [] \<Rightarrow> None | ip # _ \<Rightarrow> Some ip)))"

definition nodeTags :: "node \<Rightarrow> jsstring list" where
  "nodeTags n =
     (case n_forcedTags n of None \<Rightarrow> [] | Some ts \<Rightarrow> ts) @ (case n_validTags n of None \<Rightarrow> [] | Some ts \<Rightarrow> ts)"

definition nodeRowView :: "bool \<Rightarrow> bool \<Rightarrow> node \<Rightarrow> node_row \<Rightarrow> page_event view" where
  "nodeRowView indent showUser n r =
     (let i = nr_inst r; pad = (if indent then js ''pl-10'' else js ''pl-3'') in
      Plain
        ([Box pad
           ([Box (if n_online n then js ''bg-green-500 Online'' else js ''bg-gray-300 Offline'') [],
             Text (n_givenName n)] @
            map Text (nodeTags n) @
            (case n_user n of Some u \<Rightarrow> whenView showUser [Text (u_name u)] | None \<Rightarrow> []) @
            [Box (if nr_confirmDelete r then js ''opacity-100'' else js ''opacity-0 group-hover:opacity-100'')
               (if nr_confirmDelete r
                then [Lit ''Remove?'',
                      Button (nr_deleting r) (ConfirmNodeDelete i (nr_id r)) [Text (if nr_deleting r then ellipsis else js ''Yes'')],
                      Button False (CancelNodeDelete i) [Lit ''No'']]
                else [Button False (AskNodeDelete i) [Lit ''Delete'']])] @
            whenView (nonEmpty (primaryIP n)) [Text (the (primaryIP n))])] @
         whenView (nonEmpty (nr_deleteError r)) [Box pad [Text (the (nr_deleteError r))]]))"

definition keyField :: "jsstring \<Rightarrow> jsstring \<Rightarrow> (page_event \<times> bool) option \<Rightarrow> jsstring \<Rightarrow> page_event view" where
  "keyField lab val copy cls =
     Plain ([Text lab, Box cls [Text val]] @
       (case copy of None \<Rightarrow> [] | Some (e, done) \<Rightarrow> [Button False e [Text (if done then checkMark else js ''Copy'')]]))"

definition onboardView :: "viewer \<Rightarrow> page \<Rightarrow> jsstring \<Rightarrow> panel \<Rightarrow> page_event view" where
  "onboardView v p name q =
     (let slot = keyFor name p; busy = (generatingKey p = Some name); cd = panelCountdown v name p;
          copyText = (if slot = Inherited then js ''undefined'' else slotText ck_key slot) in
      Plain
        ([Plain [Lit ''New device for '', Text name]] @
         whenView busy [Lit ''Generating key...''] @
         whenView (\<not> busy \<and> slot \<noteq> NoKey)
           [Plain
              [Box (if expired cd then js ''opacity-30'' else js ''border-gray-200'') [QRCode (slotText qr_data slot)],
               Plain
                 (if expired cd
                  then [Lit ''Key expired.'', Button False (RegenerateKey name) [Lit ''Regenerate?''],
                        Button False CancelOnboarding [Lit ''Cancel'']]
                  else [keyField (js ''Preauth key'') (slotText ck_key slot)
                          (Some (CopyKey (pn_inst q) copyText, copied q)) (js ''font-mono''),
                        keyField (js ''Expires in'') (label cd) None (js ''tabular-nums''),
                        Plain [Button False (RegenerateKey name) [Lit ''Regenerate''],
                               Button False CancelOnboarding [Lit ''Cancel'']]])]]))"

definition nodeRowsView :: "bool \<Rightarrow> bool \<Rightarrow> node list \<Rightarrow> node_row list \<Rightarrow> page_event view list" where
  "nodeRowsView indent showUser ns rs = map (\<lambda>(n, r). nodeRowView indent showUser n r) (zip ns rs)"

definition userRowView :: "viewer \<Rightarrow> page \<Rightarrow> user_row \<Rightarrow> page_event view" where
  "userRowView v p r =
     (let name = ur_name r; open = (onboardingUser p = Some name); ns = nodesForUser name p in
      Plain
        ([Plain
           ([Plain
              ([Text name] @
               whenView (isSystem r) [Lit ''system''] @
               whenView (\<not> isSystem r \<and> currentIsAdmin v) (adminControls v p r) @
               whenView (\<not> isSystem r \<and> \<not> currentIsAdmin v \<and> rowIsAdmin p r) (adminBadge True False))] @
            whenView (\<not> isSystem r \<and> \<not> open) (deleteControls p r) @
            whenView (\<not> isSystem r)
              [Box (if open then js ''border-blue-300 text-blue-600 bg-blue-50''
                    else js ''border-gray-200 text-gray-400 hover:text-gray-600 hover:border-gray-300'')
                 [Button False (ToggleOnboarding name) [Lit (if open then ''Close'' else ''+ Add device'')]]])] @
         whenView (nonEmpty (deleteError r)) [Text (the (deleteError r))] @
         whenView (nonEmpty (adminError r)) [Text (the (adminError r))] @
         whenView (ns \<noteq> []) [Plain (nodeRowsView True False ns (nodeRows r))] @
         (case onboardPanel r of Some q \<Rightarrow> whenView open [onboardView v p name q] | None \<Rightarrow> [])))"

definition usersView :: "viewer \<Rightarrow> page \<Rightarrow> page_event view" where
  "usersView v p =
     (if pageLoading p then Plain [Lit ''Loading...'']
      else
        Plain
          ([Plain
             [Lit ''Devices'',
              Text (showLength (users p) @ js '' user'' @ plural (users p) @ js '' '' @ middleDot @ js '' '' @
                    showLength (nodes p) @ js '' device'' @ plural (nodes p)),
              Input (newName p) (js ''New user...''),
              Button (creating p \<or> trim (newName p) = []) SubmitCreate
                [Lit (if creating p then ''Adding...'' else ''Add user'')]]] @
           whenView (nonEmpty (error p)) [Text (the (error p))] @
           (if users p = [] then [Plain [Lit ''No users yet.'']]
            else [Plain (map (userRowView v p) (rows p))]) @
           whenView (taggedNodes p \<noteq> [])
             [Plain [Lit ''Tagged devices'', Plain (nodeRowsView False True (taggedNodes p) (taggedRows p))]]))"

subsection \<open>Which events can occur\<close>

text \<open>
  Typing needs the form on screen, a click an enabled button, a poll a mounted panel with a running
  interval, and a settled call must be under way. Timers may fire at any time.
\<close>

fun usersGuard :: "viewer \<Rightarrow> page \<Rightarrow> page_event \<Rightarrow> bool" where
  "usersGuard v p (NameTyped s) \<longleftrightarrow> \<not> pageLoading p"
| "usersGuard v p (CopiedTimeout i) \<longleftrightarrow> True"
| "usersGuard v p CountdownTick \<longleftrightarrow> True"
| "usersGuard v p (PollFired name baseline) \<longleftrightarrow>
     pollActive v name p \<and> list_ex (\<lambda>r. ur_name r = name \<and> map_option baselineIds (onboardPanel r) = Some baseline) (rows p)"
| "usersGuard v p (RefreshSettled cont r) \<longleftrightarrow> Refreshing cont \<in> set (underWay p)"
| "usersGuard v p (CreateSettled name r) \<longleftrightarrow> Creating name \<in> set (underWay p)"
| "usersGuard v p (KeySettled name r) \<longleftrightarrow> KeyFor name \<in> set (underWay p)"
| "usersGuard v p (DeleteSettled i name r) \<longleftrightarrow> DeletingUser i name \<in> set (underWay p)"
| "usersGuard v p (AdminSettled i name adm r) \<longleftrightarrow> Toggling i name adm \<in> set (underWay p)"
| "usersGuard v p (NodeDeleteSettled i nid r) \<longleftrightarrow> DeletingNode i nid \<in> set (underWay p)"
| "usersGuard v p (PollSettled name baseline r) \<longleftrightarrow> Polling name baseline \<in> set (underWay p)"
| "usersGuard v p e \<longleftrightarrow> e \<in> set (controls (usersView v p))"

abbreviation usersAllowed :: "viewer \<Rightarrow> page \<Rightarrow> (int \<times> page_event) list \<Rightarrow> bool" where
  "usersAllowed v \<equiv> allowed (\<lambda>p te. usersGuard v p (snd te)) usersStep"

end
