(* ===== verification/UsersRows.thy ===== *)
theory UsersRows
  imports UsersPage
begin

text \<open>
  Structure of the management page: what rendering and the handlers leave alone, where a mounted row
  comes from (\<open>rowFrom\<close>), invariants of rows through rendering (\<open>rowsInv\<close>), and which buttons the
  page offers (\<open>rowControl\<close>, \<open>controls_users\<close>).
\<close>

subsection \<open>Fields that rendering and row updates leave alone\<close>

lemma render_simps [simp]:
  "users (render t p) = users p" "nodes (render t p) = nodes p" "adminNames (render t p) = adminNames p"
  "pageLoading (render t p) = pageLoading p" "error (render t p) = error p" "newName (render t p) = newName p"
  "creating (render t p) = creating p" "onboardingUser (render t p) = onboardingUser p"
  "keyData (render t p) = keyData p" "generatingKey (render t p) = generatingKey p"
  "underWay (render t p) = underWay p" "renderedAt (render t p) = t"
  by (simp_all add: render_def case_prod_beta Let_def)

lemma updRow_simps [simp]:
  "users (updRow i f p) = users p" "nodes (updRow i f p) = nodes p" "adminNames (updRow i f p) = adminNames p"
  "pageLoading (updRow i f p) = pageLoading p" "creating (updRow i f p) = creating p"
  "keyData (updRow i f p) = keyData p" "underWay (updRow i f p) = underWay p" "nextInst (updRow i f p) = nextInst p"
  "onboardingUser (updRow i f p) = onboardingUser p" "generatingKey (updRow i f p) = generatingKey p"
  "rows (updRow i f p) = map (\<lambda>r. if ur_inst r = i then f r else r) (rows p)"
  by (simp_all add: updRow_def)

lemma updNode_simps [simp]:
  "users (updNode i f p) = users p" "nodes (updNode i f p) = nodes p" "adminNames (updNode i f p) = adminNames p"
  "pageLoading (updNode i f p) = pageLoading p" "creating (updNode i f p) = creating p"
  "keyData (updNode i f p) = keyData p" "underWay (updNode i f p) = underWay p" "nextInst (updNode i f p) = nextInst p"
  "onboardingUser (updNode i f p) = onboardingUser p" "generatingKey (updNode i f p) = generatingKey p"
  "rows (updNode i f p) = map (\<lambda>r. r\<lparr>nodeRows := updNodes i f (nodeRows r)\<rparr>) (rows p)"
  by (simp_all add: updNode_def)

lemma updPanel_simps [simp]:
  "users (updPanel i g p) = users p" "nodes (updPanel i g p) = nodes p" "adminNames (updPanel i g p) = adminNames p"
  "pageLoading (updPanel i g p) = pageLoading p" "creating (updPanel i g p) = creating p"
  "keyData (updPanel i g p) = keyData p" "underWay (updPanel i g p) = underWay p" "nextInst (updPanel i g p) = nextInst p"
  "onboardingUser (updPanel i g p) = onboardingUser p" "generatingKey (updPanel i g p) = generatingKey p"
  "rows (updPanel i g p) =
     map (\<lambda>r. r\<lparr>onboardPanel := map_option (\<lambda>q. if pn_inst q = i then g q else q) (onboardPanel r)\<rparr>) (rows p)"
  by (simp_all add: updPanel_def)

lemma settle_simps [simp]:
  "underWay (settle c p) = remove1 c (underWay p)" "rows (settle c p) = rows p" "nextInst (settle c p) = nextInst p"
  "creating (settle c p) = creating p" "keyData (settle c p) = keyData p" "pageLoading (settle c p) = pageLoading p"
  "users (settle c p) = users p" "nodes (settle c p) = nodes p" "adminNames (settle c p) = adminNames p"
  "onboardingUser (settle c p) = onboardingUser p" "newName (settle c p) = newName p"
  "generatingKey (settle c p) = generatingKey p"
  by (simp_all add: settle_def)

lemmas handler_defs =
  refresh_def handleGenerateKey_def keySettled_def handleCreateUser_def createSettled_def refreshSettled_def
  toggleOnboarding_def onDeviceRegistered_def handleDelete_def deleteSettled_def handleAdminToggle_def adminSettled_def
  handleDeleteNode_def nodeDeleteSettled_def startPoll_def pollSettled_def copyKey_def Let_def

lemmas handler_splits = sum.splits option.splits prod.splits if_splits

lemma fst_usersStep: "fst (usersStep p (t, e)) = render t (fst (handleEvent p e))"
  and snd_usersStep: "snd (usersStep p (t, e)) = snd (handleEvent p e)"
  by (simp_all add: usersStep_def case_prod_beta)

subsection \<open>Mounted rows\<close>

lemma mountAll_le: "n \<le> snd (mountAll key new old ks n)"
proof (induction ks arbitrary: n)
  case (Cons k ks)
  then show ?case using le_SucI Cons [of "Suc n"] Cons [of n]
    by (auto simp: case_prod_beta split: option.splits intro: Suc_leD)
qed simp

text \<open>A mounted child is an old one or a fresh one, and the number of a fresh one determines its key.\<close>

lemma mountAll_origin:
  "\<exists>g. \<forall>r\<in>set (fst (mountAll key new old ks n)).
     r \<in> set old \<or> (\<exists>m. n \<le> m \<and> m < snd (mountAll key new old ks n) \<and> r = new (g m) m)"
proof (induction ks arbitrary: n)
  case (Cons k ks)
  show ?case
  proof (cases "find (\<lambda>r. key r = k) old")
    case None
    obtain g where g: "\<forall>r\<in>set (fst (mountAll key new old ks (Suc n))). r \<in> set old \<or>
        (\<exists>m. Suc n \<le> m \<and> m < snd (mountAll key new old ks (Suc n)) \<and> r = new (g m) m)"
      using Cons.IH [of "Suc n"] by blast
    show ?thesis
      by (rule exI [of _ "g(n := k)"]) (use None g mountAll_le [of "Suc n" key new old ks] in \<open>fastforce simp: case_prod_beta\<close>)
  next
    case (Some r)
    then have "r \<in> set old" by (auto simp: find_Some_iff)
    then show ?thesis using Some Cons.IH [of n] by (auto simp: case_prod_beta)
  qed
qed simp

lemma mountAll_keys:
  assumes "\<And>k n. key (new k n) = k"
  shows "map key (fst (mountAll key new old ks n)) = ks"
  by (induction ks arbitrary: n) (auto simp: assms case_prod_beta find_Some_iff split: option.splits)

lemma mountChildren_origin:
  "r' \<in> set (fst (mountChildren p rs n)) \<Longrightarrow> \<exists>r\<in>set rs. \<exists>ns q. r' = r\<lparr>nodeRows := ns, onboardPanel := q\<rparr>"
  by (induction rs arbitrary: n) (auto simp: case_prod_beta Let_def)

lemma mountChildren_le: "n \<le> snd (mountChildren p rs n)"
proof (induction rs arbitrary: n)
  case (Cons r rs)
  let ?m = "snd (mountNodes (nodeRows r) (nodesForUser (ur_name r) p) n)"
  have "n \<le> ?m" unfolding mountNodes_def by (rule mountAll_le)
  also have "\<dots> \<le> snd (mountPanel p r ?m)" by (simp add: mountPanel_def split: option.splits)
  also have "\<dots> \<le> snd (mountChildren p rs (snd (mountPanel p r ?m)))" by (rule Cons)
  finally show ?case by (simp add: case_prod_beta Let_def)
qed simp

lemma mountChildren_names: "map ur_name (fst (mountChildren p rs n)) = map ur_name rs"
  by (induction rs arbitrary: n) (auto simp: case_prod_beta Let_def)

text \<open>
  Where a row comes from when a page is rendered: it has the state of an old row, or it is a fresh
  one, apart from what hangs below it.
\<close>

inductive rowFrom :: "page \<Rightarrow> nat \<Rightarrow> (nat \<Rightarrow> jsstring) \<Rightarrow> user_row \<Rightarrow> bool" for p n g where
  kept: "r \<in> set (rows p) \<Longrightarrow> rowFrom p n g (r\<lparr>nodeRows := ns, onboardPanel := q\<rparr>)"
| fresh: "nextInst p \<le> m \<Longrightarrow> m < n \<Longrightarrow> rowFrom p n g ((newUserRow (g m) m)\<lparr>nodeRows := ns, onboardPanel := q\<rparr>)"

lemma rowFrom_old: "r \<in> set (rows p) \<Longrightarrow> rowFrom p n g r"
  using rowFrom.kept [of r p, where ns = "nodeRows r" and q = "onboardPanel r"] by simp

lemma render_origin:
  "nextInst p \<le> nextInst (render t p) \<and> (\<exists>g. \<forall>r\<in>set (rows (render t p)). rowFrom p (nextInst (render t p)) g r)"
proof (cases "pageLoading p")
  case True
  then show ?thesis by (simp add: render_def rowFrom_old)
next
  case False
  let ?m = "mountAll ur_name newUserRow (rows p) (map u_name (users p)) (nextInst p)"
  let ?c = "mountChildren p (fst ?m) (snd ?m)"
  let ?n = "snd (mountNodes (taggedRows p) (taggedNodes p) (snd ?c))"
  have r: "rows (render t p) = fst ?c" "nextInst (render t p) = ?n"
    using False by (simp_all add: render_def case_prod_beta Let_def)
  have le1: "nextInst p \<le> snd ?m" by (rule mountAll_le)
  have "snd ?m \<le> snd ?c" by (rule mountChildren_le)
  also have "snd ?c \<le> ?n" unfolding mountNodes_def by (rule mountAll_le)
  finally have le2: "snd ?m \<le> ?n" .
  obtain g where g: "\<forall>r\<in>set (fst ?m). r \<in> set (rows p) \<or> (\<exists>m. nextInst p \<le> m \<and> m < snd ?m \<and> r = newUserRow (g m) m)"
    using mountAll_origin [where key = ur_name and new = newUserRow and old = "rows p"] by blast
  have "rowFrom p ?n g r'" if r': "r' \<in> set (fst ?c)" for r'
  proof -
    obtain r ns q where "r \<in> set (fst ?m)" and e: "r' = r\<lparr>nodeRows := ns, onboardPanel := q\<rparr>"
      using mountChildren_origin [OF r'] by blast
    with g consider "r \<in> set (rows p)" | m where "nextInst p \<le> m" "m < snd ?m" "r = newUserRow (g m) m" by blast
    then show ?thesis
    proof cases
      case 2
      then show ?thesis using le2 unfolding e by (auto intro: rowFrom.fresh)
    qed (simp add: e rowFrom.kept)
  qed
  then show ?thesis unfolding r using le1 le2 by (meson order_trans)
qed

text \<open>
  Properties of rows: every row has one, numbers are below the next fresh one, and two rows with one
  number are rows of one user.
\<close>

definition rowsInv :: "(user_row \<Rightarrow> bool) \<Rightarrow> page \<Rightarrow> bool" where
  "rowsInv Q p \<longleftrightarrow>
     (\<forall>r\<in>set (rows p). ur_inst r < nextInst p \<and> Q r) \<and>
     (\<forall>r\<in>set (rows p). \<forall>r'\<in>set (rows p). ur_inst r = ur_inst r' \<longrightarrow> ur_name r = ur_name r')"

lemma rowsInvD:
  assumes "rowsInv Q p" "r \<in> set (rows p)"
  shows "ur_inst r < nextInst p" "Q r" "r' \<in> set (rows p) \<Longrightarrow> ur_inst r = ur_inst r' \<Longrightarrow> ur_name r = ur_name r'"
  using assms unfolding rowsInv_def by blast+

lemma newUserRow_simps [simp]: "ur_inst (newUserRow k m) = m" "ur_name (newUserRow k m) = k"
  "confirmAdmin (newUserRow k m) = None" "\<not> adminBusy (newUserRow k m)" "\<not> deleting (newUserRow k m)"
  by (simp_all add: newUserRow_def)

lemma rowFrom_ident:
  "rowFrom p n g r' \<Longrightarrow>
     (\<exists>r\<in>set (rows p). ur_inst r' = ur_inst r \<and> ur_name r' = ur_name r) \<or>
     nextInst p \<le> ur_inst r' \<and> ur_inst r' < n \<and> ur_name r' = g (ur_inst r')"
  by (cases rule: rowFrom.cases) auto

lemma rowsInv_render:
  assumes inv: "rowsInv Q p" and stable: "\<And>r ns q. Q r \<Longrightarrow> Q (r\<lparr>nodeRows := ns, onboardPanel := q\<rparr>)"
    and fresh: "\<And>k m. nextInst p \<le> m \<Longrightarrow> Q (newUserRow k m)"
  shows "rowsInv Q (render t p)"
proof -
  let ?n = "nextInst (render t p)"
  obtain g where g: "\<And>r'. r' \<in> set (rows (render t p)) \<Longrightarrow> rowFrom p ?n g r'" and le: "nextInst p \<le> ?n"
    using render_origin [of p t] by blast
  have "Q r'" if "r' \<in> set (rows (render t p))" for r'
    using g [OF that] by cases (auto intro: stable fresh rowsInvD(2) [OF inv])
  moreover have lt: "ur_inst r' < ?n" if "r' \<in> set (rows (render t p))" for r'
    using rowFrom_ident [OF g [OF that]] rowsInvD(1) [OF inv] le by (metis order_less_le_trans)
  moreover have "ur_name r1 = ur_name r2"
    if "r1 \<in> set (rows (render t p))" "r2 \<in> set (rows (render t p))" "ur_inst r1 = ur_inst r2" for r1 r2
    using rowFrom_ident [OF g [OF that(1)]] rowFrom_ident [OF g [OF that(2)]] that(3) rowsInvD(1,3) [OF inv]
    by (metis not_less)
  ultimately show ?thesis unfolding rowsInv_def by blast
qed

subsection \<open>What can be clicked\<close>

text \<open>The events of a node row and of an onboarding panel are of their own kinds.\<close>

fun nodeEvent :: "page_event \<Rightarrow> bool" where
  "nodeEvent (AskNodeDelete i) \<longleftrightarrow> True"
| "nodeEvent (ConfirmNodeDelete i nid) \<longleftrightarrow> True"
| "nodeEvent (CancelNodeDelete i) \<longleftrightarrow> True"
| "nodeEvent e \<longleftrightarrow> False"

fun panelEvent :: "page_event \<Rightarrow> bool" where
  "panelEvent (RegenerateKey name) \<longleftrightarrow> True"
| "panelEvent CancelOnboarding \<longleftrightarrow> True"
| "panelEvent (CopyKey i t) \<longleftrightarrow> True"
| "panelEvent e \<longleftrightarrow> False"

lemma controls_nodeRow: "e \<in> set (controls (nodeRowView ind su n r)) \<Longrightarrow> nodeEvent e"
  by (auto simp: nodeRowView_def Let_def whenView_def split: if_splits option.splits)

lemma controls_nodeRows: "v \<in> set (nodeRowsView ind su ns rs) \<Longrightarrow> e \<in> set (controls v) \<Longrightarrow> nodeEvent e"
  using controls_nodeRow by (fastforce simp: nodeRowsView_def)

lemma controls_onboard: "e \<in> set (controls (onboardView v p name q)) \<Longrightarrow> panelEvent e"
  by (auto simp: onboardView_def keyField_def Let_def whenView_def split: if_splits option.splits)

lemma controls_adminBadge [simp]: "w \<in> set (adminBadge a f) \<Longrightarrow> controls w = []"
  by (auto simp: adminBadge_def split: if_splits)

text \<open>The buttons of a user row itself.\<close>

lemma controls_userRow:
  assumes "e \<in> set (controls (userRowView v p r))"
  shows "nodeEvent e \<or> panelEvent e \<or> e = ToggleOnboarding (ur_name r) \<and> \<not> isSystem r \<or>
    \<not> isSystem r \<and> currentIsAdmin v \<and> (\<exists>w\<in>set (adminControls v p r). e \<in> set (controls w)) \<or>
    \<not> isSystem r \<and> (\<exists>w\<in>set (deleteControls p r). e \<in> set (controls w))"
  using assms controls_nodeRows controls_onboard
  unfolding userRowView_def Let_def whenView_def
  by (fastforce split: if_splits option.splits)

lemma controls_admin_iff:
  "(\<exists>w\<in>set (adminControls v p r). e \<in> set (controls w)) \<longleftrightarrow>
     (case confirmAdmin r of
        Some c \<Rightarrow> e = CancelAdmin (ur_inst r) \<or> \<not> adminBusy r \<and> e = ConfirmAdmin (ur_inst r) (ur_name r) (rowIsAdmin p r)
      | None \<Rightarrow> badgeDisabledReason v p r = None \<and> e = AskAdmin (ur_inst r) (if rowIsAdmin p r then Revoke else Grant))"
  by (auto simp: adminControls_def Let_def split: option.splits)

lemma controls_delete_iff:
  "(\<exists>w\<in>set (deleteControls p r). e \<in> set (controls w)) \<longleftrightarrow>
     (if confirmDelete r
      then e = CancelDelete (ur_inst r) \<or> \<not> deleting r \<and> e = ConfirmDelete (ur_inst r) (ur_name r)
      else e = AskDelete (ur_inst r))"
  by (auto simp: deleteControls_def Let_def)

text \<open>The buttons of a user row by event, and with them the buttons of the page.\<close>

fun rowControl :: "viewer \<Rightarrow> page \<Rightarrow> user_row \<Rightarrow> page_event \<Rightarrow> bool" where
  "rowControl v p r (ToggleOnboarding name) \<longleftrightarrow> name = ur_name r"
| "rowControl v p r (AskAdmin i c) \<longleftrightarrow>
     i = ur_inst r \<and> currentIsAdmin v \<and> confirmAdmin r = None \<and> badgeDisabledReason v p r = None \<and>
     c = (if rowIsAdmin p r then Revoke else Grant)"
| "rowControl v p r (ConfirmAdmin i name adm) \<longleftrightarrow>
     i = ur_inst r \<and> name = ur_name r \<and> adm = rowIsAdmin p r \<and> currentIsAdmin v \<and> confirmAdmin r \<noteq> None \<and> \<not> adminBusy r"
| "rowControl v p r (CancelAdmin i) \<longleftrightarrow> i = ur_inst r \<and> currentIsAdmin v \<and> confirmAdmin r \<noteq> None"
| "rowControl v p r (AskDelete i) \<longleftrightarrow> i = ur_inst r \<and> \<not> confirmDelete r"
| "rowControl v p r (ConfirmDelete i name) \<longleftrightarrow> i = ur_inst r \<and> name = ur_name r \<and> confirmDelete r \<and> \<not> deleting r"
| "rowControl v p r (CancelDelete i) \<longleftrightarrow> i = ur_inst r \<and> confirmDelete r"
| "rowControl v p r e \<longleftrightarrow> False"

lemma controls_rowControl:
  assumes "e \<in> set (controls (userRowView v p r))"
  shows "nodeEvent e \<or> panelEvent e \<or> \<not> isSystem r \<and> rowControl v p r e"
  using controls_userRow [OF assms] unfolding controls_admin_iff controls_delete_iff
  by (auto split: if_splits option.splits)

lemma controls_users:
  assumes "e \<in> set (controls (usersView v p))"
  shows "\<not> pageLoading p"
    and "nodeEvent e \<or> panelEvent e \<or> e = SubmitCreate \<and> \<not> creating p \<and> trim (newName p) \<noteq> [] \<or>
     (\<exists>r\<in>set (rows p). \<not> isSystem r \<and> rowControl v p r e)"
proof -
  have "nodeEvent e \<or> e = SubmitCreate \<and> \<not> creating p \<and> trim (newName p) \<noteq> [] \<or>
     (\<exists>r\<in>set (rows p). e \<in> set (controls (userRowView v p r)))"
    using assms controls_nodeRows unfolding usersView_def whenView_def
    by (fastforce split: if_splits)
  then show "nodeEvent e \<or> panelEvent e \<or> e = SubmitCreate \<and> \<not> creating p \<and> trim (newName p) \<noteq> [] \<or>
     (\<exists>r\<in>set (rows p). \<not> isSystem r \<and> rowControl v p r e)"
    using controls_rowControl by blast
  show "\<not> pageLoading p" using assms by (auto simp: usersView_def)
qed

lemma submit_control: "SubmitCreate \<in> set (controls (usersView v p)) \<Longrightarrow> \<not> creating p"
  using controls_users(2) [of SubmitCreate v p] by auto

lemma confirmAdmin_control:
  "ConfirmAdmin i name adm \<in> set (controls (usersView v p)) \<Longrightarrow>
     \<exists>r\<in>set (rows p). \<not> isSystem r \<and> rowControl v p r (ConfirmAdmin i name adm)"
  and askAdmin_control:
  "AskAdmin i c \<in> set (controls (usersView v p)) \<Longrightarrow> \<exists>r\<in>set (rows p). \<not> isSystem r \<and> rowControl v p r (AskAdmin i c)"
  and confirmDelete_control:
  "ConfirmDelete i name \<in> set (controls (usersView v p)) \<Longrightarrow>
     \<exists>r\<in>set (rows p). \<not> isSystem r \<and> rowControl v p r (ConfirmDelete i name)"
  by (drule controls_users(2), simp)+

end
