(* ===== verification/UsersAccounts.thy ===== *)
theory UsersAccounts
  imports UsersRows
begin

text \<open>
  What the management page promises about accounts: which users its buttons can touch, that its
  forms recover, that what is mounted is what the lists say, and two defects of the administrator
  toggle.
\<close>

subsection \<open>Calls and the events that cause them\<close>

lemma toggle_effect:
  "Call (GrantAdmin n) \<in> set (snd (handleEvent p e)) \<longleftrightarrow> (\<exists>i. e = ConfirmAdmin i n False)"
  "Call (RevokeAdmin n) \<in> set (snd (handleEvent p e)) \<longleftrightarrow> (\<exists>i. e = ConfirmAdmin i n True)"
  "Call (DeleteUser n) \<in> set (snd (handleEvent p e)) \<longleftrightarrow> (\<exists>i. e = ConfirmDelete i n)"
  by (cases e; auto simp: handler_defs split: handler_splits)+

text \<open>What an event does to each mounted row.\<close>

fun rowAfter :: "page_event \<Rightarrow> user_row \<Rightarrow> user_row" where
  "rowAfter (AskAdmin i c) r = (if ur_inst r = i then r\<lparr>confirmAdmin := Some c\<rparr> else r)"
| "rowAfter (ConfirmAdmin i name adm) r = (if ur_inst r = i then r\<lparr>adminBusy := True, adminError := None\<rparr> else r)"
| "rowAfter (CancelAdmin i) r = (if ur_inst r = i then r\<lparr>confirmAdmin := None, adminError := None\<rparr> else r)"
| "rowAfter (AdminSettled i name adm res) r =
     (if ur_inst r = i
      then case res of Inr u \<Rightarrow> r\<lparr>confirmAdmin := None\<rparr>
           | Inl e \<Rightarrow> r\<lparr>adminError := Some (errorText ''Failed'' e), adminBusy := False\<rparr>
      else r)"
| "rowAfter (AskDelete i) r = (if ur_inst r = i then r\<lparr>confirmDelete := True\<rparr> else r)"
| "rowAfter (ConfirmDelete i name) r = (if ur_inst r = i then r\<lparr>deleting := True, deleteError := None\<rparr> else r)"
| "rowAfter (CancelDelete i) r = (if ur_inst r = i then r\<lparr>confirmDelete := False\<rparr> else r)"
| "rowAfter (DeleteSettled i name res) r =
     (if ur_inst r = i
      then case res of Inr u \<Rightarrow> r
           | Inl e \<Rightarrow> r\<lparr>deleteError := Some (errorText ''Delete failed'' e), deleting := False, confirmDelete := False\<rparr>
      else r)"
| "rowAfter (AskNodeDelete i) r = r\<lparr>nodeRows := updNodes i (\<lambda>n. n\<lparr>nr_confirmDelete := True\<rparr>) (nodeRows r)\<rparr>"
| "rowAfter (ConfirmNodeDelete i nid) r =
     r\<lparr>nodeRows := updNodes i (\<lambda>n. n\<lparr>nr_deleting := True, nr_deleteError := None\<rparr>) (nodeRows r)\<rparr>"
| "rowAfter (CancelNodeDelete i) r = r\<lparr>nodeRows := updNodes i (\<lambda>n. n\<lparr>nr_confirmDelete := False\<rparr>) (nodeRows r)\<rparr>"
| "rowAfter (NodeDeleteSettled i nid res) r =
     (case res of Inr u \<Rightarrow> r
      | Inl e \<Rightarrow> r\<lparr>nodeRows := updNodes i (\<lambda>n. n\<lparr>nr_deleteError := Some (errorText ''Delete failed'' e), nr_deleting := False,
                                             nr_confirmDelete := False\<rparr>) (nodeRows r)\<rparr>)"
| "rowAfter (CopyKey i t) r =
     r\<lparr>onboardPanel := map_option (\<lambda>q. if pn_inst q = i then q\<lparr>copied := True\<rparr> else q) (onboardPanel r)\<rparr>"
| "rowAfter (CopiedTimeout i) r =
     r\<lparr>onboardPanel := map_option (\<lambda>q. if pn_inst q = i then q\<lparr>copied := False\<rparr> else q) (onboardPanel r)\<rparr>"
| "rowAfter e r = r"

lemma rows_handleEvent: "rows (fst (handleEvent p e)) = map (rowAfter e) (rows p)"
  and nextInst_handleEvent: "nextInst (fst (handleEvent p e)) = nextInst p"
  by (cases e; simp add: handler_defs case_prod_beta map_idI split: sum.split option.split)+

lemma rowAfter_ident [simp]: "ur_inst (rowAfter e r) = ur_inst r" "ur_name (rowAfter e r) = ur_name r"
  by (cases e; simp split: sum.split)+

lemma confirmAdmin_rowAfter:
  "confirmAdmin (rowAfter e r) \<in> {confirmAdmin r, None} \<or> (\<exists>c. e = AskAdmin (ur_inst r) c)"
  by (cases e) (auto split: sum.split)

lemma adminBusy_rowAfter:
  "adminBusy (rowAfter e r) \<longleftrightarrow>
     (\<exists>n a. e = ConfirmAdmin (ur_inst r) n a) \<or> adminBusy r \<and> \<not> (\<exists>n a x. e = AdminSettled (ur_inst r) n a (Inl x))"
  by (cases e) (auto split: sum.split)

text \<open>The invariant of rows through one turn.\<close>

lemma rowsInv_step:
  assumes inv: "rowsInv Q p"
    and step: "\<And>r. r \<in> set (rows p) \<Longrightarrow> Q r \<Longrightarrow> Q' (rowAfter e r)"
    and stable: "\<And>r ns q. Q' r \<Longrightarrow> Q' (r\<lparr>nodeRows := ns, onboardPanel := q\<rparr>)"
    and fresh: "\<And>k m. nextInst p \<le> m \<Longrightarrow> Q' (newUserRow k m)"
  shows "rowsInv Q' (fst (usersStep p (t, e)))"
proof -
  have "rowsInv Q' (fst (handleEvent p e))"
    unfolding rowsInv_def rows_handleEvent nextInst_handleEvent set_map ball_simps(9) rowAfter_ident
    using step rowsInvD [OF inv] by blast
  then show ?thesis unfolding fst_usersStep
    by (rule rowsInv_render) (simp_all add: stable fresh nextInst_handleEvent)
qed

text \<open>How many of the calls under way are of a kind.\<close>

definition countIf :: "('a \<Rightarrow> bool) \<Rightarrow> 'a list \<Rightarrow> nat" where
  "countIf P xs = length (filter P xs)"

lemma countIf_simps [simp]: "countIf P [] = 0" "countIf P (x # xs) = (if P x then 1 else 0) + countIf P xs"
  "countIf P (xs @ ys) = countIf P xs + countIf P ys"
  by (simp_all add: countIf_def)

lemma countIf_remove1: "x \<in> set xs \<Longrightarrow> countIf P (remove1 x xs) = countIf P xs - (if P x then 1 else 0)"
  by (induction xs) (auto simp: countIf_def neq_Nil_conv dest: split_list)

lemma countIf_pos: "x \<in> set xs \<Longrightarrow> P x \<Longrightarrow> 0 < countIf P xs"
  by (auto simp: countIf_def filter_empty_conv)

subsection \<open>Protected accounts\<close>

definition selfRow :: "viewer \<Rightarrow> user_row \<Rightarrow> bool" where
  "selfRow v r \<longleftrightarrow> (isSelf v r \<longrightarrow> confirmAdmin r = None)"

lemma askAdmin_not_self:
  assumes "rowsInv Q p" "usersGuard v p (AskAdmin (ur_inst r) c)" "r \<in> set (rows p)"
  shows "\<not> isSelf v r"
proof -
  obtain r' where r': "r' \<in> set (rows p)" "ur_inst r' = ur_inst r" "\<not> isSelf v r'"
    using assms(2) askAdmin_control [of "ur_inst r" c v p] by (auto simp: badgeDisabledReason_def split: if_splits)
  then show ?thesis using rowsInvD(3) [OF assms(1,3) r'(1)] by (simp add: isSelf_def)
qed

interpretation protected: guarded_machine usersStep "\<lambda>p te. usersGuard v p (snd te)" "rowsInv (selfRow v)" for v
proof
  fix p and te :: "int \<times> page_event"
  assume inv: "rowsInv (selfRow v) p" and g: "usersGuard v p (snd te)"
  obtain t e where te: "te = (t, e)" by fastforce
  show "rowsInv (selfRow v) (fst (usersStep p te))"
    unfolding te
  proof (rule rowsInv_step [OF inv])
    fix r assume r: "r \<in> set (rows p)" "selfRow v r"
    then have "\<not> isSelf v r" if "e = AskAdmin (ur_inst r) c" for c
      using askAdmin_not_self [OF inv _ r(1)] g that te by fastforce
    then show "selfRow v (rowAfter e r)"
      using confirmAdmin_rowAfter [of e r] r(2) by (auto simp: selfRow_def isSelf_def)
  qed (simp_all add: selfRow_def isSelf_def)
qed

lemma mountedPage_simps [simp]: "rows mountedPage = []" "underWay mountedPage = [Refreshing None]" "pageLoading mountedPage"
  "\<not> creating mountedPage" "keyData mountedPage = []" "nextInst mountedPage = 0"
  by (simp_all add: mountedPage_def initialPage_def refresh_def)

lemma rowsInv_mounted: "rowsInv Q mountedPage"
  by (simp add: rowsInv_def)

text \<open>The calls of one turn spare the protected accounts.\<close>

definition sparesProtected :: "viewer \<Rightarrow> api_call \<Rightarrow> bool" where
  "sparesProtected v c \<longleftrightarrow>
     (\<forall>n. (c = GrantAdmin n \<or> c = RevokeAdmin n \<longrightarrow> n \<noteq> SYSTEM_USER \<and> n \<noteq> currentUserName v \<and> currentIsAdmin v) \<and>
          (c = DeleteUser n \<longrightarrow> n \<noteq> SYSTEM_USER))"

lemma protected_step:
  assumes "rowsInv (selfRow v) p" "usersGuard v p e" "Call c \<in> set (snd (handleEvent p e))"
  shows "sparesProtected v c"
proof -
  have "n \<noteq> SYSTEM_USER \<and> n \<noteq> currentUserName v \<and> currentIsAdmin v" if c: "c = GrantAdmin n \<or> c = RevokeAdmin n" for n
  proof -
    obtain i a where e: "e = ConfirmAdmin i n a" using assms(3) c toggle_effect [of n p e] by metis
    then obtain r where r: "r \<in> set (rows p)" "\<not> isSystem r" "rowControl v p r e"
      using assms(2) confirmAdmin_control [of i n a v p] by auto
    then show ?thesis using rowsInvD(2) [OF assms(1) r(1)] e by (auto simp: isSystem_def selfRow_def isSelf_def)
  qed
  moreover have "n \<noteq> SYSTEM_USER" if d: "c = DeleteUser n" for n
  proof -
    obtain i where e: "e = ConfirmDelete i n" using assms(3) d toggle_effect(3) [of n p e] by auto
    then show ?thesis using assms(2) confirmDelete_control [of i n v p] by (auto simp: isSystem_def)
  qed
  ultimately show ?thesis unfolding sparesProtected_def by blast
qed

text \<open>
  C9. Protected accounts: whatever the visitor does and whatever the backend answers, the page never
  asks to change the administrator flag of the visitor's own account or of the system user, never
  asks to delete the system user, and changes flags only for a visitor who is an administrator.
\<close>

theorem protected_accounts:
  assumes "usersAllowed v mountedPage es"
    and "Call c \<in> set (snd (run usersStep mountedPage es))"
  shows "(c = GrantAdmin n \<or> c = RevokeAdmin n \<longrightarrow> n \<noteq> SYSTEM_USER \<and> n \<noteq> currentUserName v \<and> currentIsAdmin v) \<and>
    (c = DeleteUser n \<longrightarrow> n \<noteq> SYSTEM_USER)"
proof -
  obtain p e where "rowsInv (selfRow v) p" "usersGuard v p e" "Call c \<in> set (snd (handleEvent p e))"
    using protected.run_effect [OF rowsInv_mounted assms] by (auto simp: snd_usersStep)
  from protected_step [OF this] show ?thesis unfolding sparesProtected_def by blast
qed

text \<open>A visitor \<open>alice\<close> on a page with three users, who removes the administrator \<open>bob\<close>.\<close>

definition sampleViewer :: viewer where
  "sampleViewer = \<lparr>currentUserName = js ''alice'', currentIsAdmin = True, getTime = (\<lambda>_. None)\<rparr>"

definition sampleUser :: "string \<Rightarrow> user" where
  "sampleUser n = \<lparr>u_name = js n, u_id = None, u_createdAt = None\<rparr>"

definition sampleLoad :: "string list \<Rightarrow> page_event" where
  "sampleLoad admins =
     RefreshSettled None (Inr ([sampleUser ''alice'', sampleUser ''bob'', sampleUser ''headfwd-server''], [], map js admins))"

definition sampleRevoke :: "(int \<times> page_event) list" where
  "sampleRevoke = [(0, sampleLoad [''alice'', ''bob'']), (1, AskAdmin 1 Revoke), (2, ConfirmAdmin 1 (js ''bob'') True)]"

lemma sampleRevoke_allowed: "usersAllowed sampleViewer mountedPage sampleRevoke"
  and sampleRevoke_effect: "Call (RevokeAdmin (js ''bob'')) \<in> set (snd (run usersStep mountedPage sampleRevoke))"
  by code_simp+

theorem protected_accounts_witness:
  "usersAllowed sampleViewer mountedPage sampleRevoke \<and>
   Call (RevokeAdmin (js ''bob'')) \<in> set (snd (run usersStep mountedPage sampleRevoke)) \<and>
   js ''bob'' \<noteq> SYSTEM_USER \<and> js ''bob'' \<noteq> currentUserName sampleViewer"
  using protected_accounts [OF sampleRevoke_allowed sampleRevoke_effect, of "js ''bob''"]
    sampleRevoke_allowed sampleRevoke_effect by blast

subsection \<open>The form for a new user\<close>

fun isCreate :: "call \<Rightarrow> bool" where
  "isCreate (Creating name) \<longleftrightarrow> True"
| "isCreate (Refreshing (Some name)) \<longleftrightarrow> True"
| "isCreate c \<longleftrightarrow> False"

definition creates :: "page \<Rightarrow> nat" where
  "creates p = countIf isCreate (underWay p)"

definition createInv :: "page \<Rightarrow> bool" where
  "createInv p \<longleftrightarrow> creates p = (if creating p then 1 else 0)"

interpretation form: guarded_machine usersStep "\<lambda>p te. usersGuard v p (snd te)" createInv for v
proof
  fix p and te :: "int \<times> page_event"
  assume inv: "createInv p" and g: "usersGuard v p (snd te)"
  obtain t e where te: "te = (t, e)" by fastforce
  have "createInv (fst (handleEvent p e))"
    using inv g submit_control [of v p]
    unfolding te createInv_def creates_def
    by (cases e)
      (auto simp: handler_defs case_prod_beta countIf_remove1 dest: countIf_pos [where P = isCreate]
        split: sum.split option.split if_splits)
  then show "createInv (fst (usersStep p te))"
    unfolding te fst_usersStep by (simp add: createInv_def creates_def)
qed

text \<open>
  The form for a new user recovers: in every run the form is busy exactly while one creation,
  with the reload that follows it, is under way, and never more than one is.
\<close>

theorem create_form_recovers:
  assumes "usersAllowed v mountedPage es"
  shows "creates (fst (run usersStep mountedPage es)) = (if creating (fst (run usersStep mountedPage es)) then 1 else 0)"
proof -
  have "createInv mountedPage" by (simp add: createInv_def creates_def)
  from form.inv_run [OF this assms] show ?thesis by (simp add: createInv_def)
qed

lemma isSpace_code [code]:
  "isSpace c \<longleftrightarrow> 0x9 \<le> c \<and> c \<le> 0xD \<or> 0x2000 \<le> c \<and> c \<le> 0x200A \<or>
     c \<in> {0x20, 0xA0, 0x1680, 0x2028, 0x2029, 0x202F, 0x205F, 0x3000, 0xFEFF}"
  by (simp add: isSpace_def word_le_nat_alt word_unat_eq_iff)

definition sampleCreate :: "(int \<times> page_event) list" where
  "sampleCreate = [(0, sampleLoad [''alice'']), (1, NameTyped (js '' carol '')), (2, SubmitCreate), (3, CreateSettled (js ''carol'') (Inr ()))]"

theorem create_form_recovers_witness:
  "creates (fst (run usersStep mountedPage sampleCreate)) = 1 \<and> creating (fst (run usersStep mountedPage sampleCreate))"
proof -
  have a: "usersAllowed sampleViewer mountedPage sampleCreate" and c: "creating (fst (run usersStep mountedPage sampleCreate))"
    by code_simp+
  from create_form_recovers [OF a] c show ?thesis by simp
qed

subsection \<open>Loading and mounting\<close>

text \<open>What is mounted, as a function of the lists of the page.\<close>

definition inSync :: "page \<Rightarrow> bool" where
  "inSync p \<longleftrightarrow>
     map ur_name (rows p) = map u_name (users p) \<and>
     (\<forall>r\<in>set (rows p). map nr_id (nodeRows r) = map n_id (nodesForUser (ur_name r) p) \<and>
        (onboardPanel r \<noteq> None \<longleftrightarrow> onboardingUser p = Some (ur_name r))) \<and>
     map nr_id (taggedRows p) = map n_id (taggedNodes p)"

lemma mountNodes_ids: "map nr_id (fst (mountNodes old ns n)) = map n_id ns"
  unfolding mountNodes_def by (rule mountAll_keys) (simp add: newNodeRow_def)

lemma mountChildren_sync:
  "r \<in> set (fst (mountChildren p rs n)) \<Longrightarrow>
     map nr_id (nodeRows r) = map n_id (nodesForUser (ur_name r) p) \<and>
     (onboardPanel r \<noteq> None \<longleftrightarrow> onboardingUser p = Some (ur_name r))"
proof (induction rs arbitrary: n)
  case (Cons r' rs)
  have "fst (mountPanel p r' m) \<noteq> None \<longleftrightarrow> onboardingUser p = Some (ur_name r')" for m
    by (simp add: mountPanel_def split: option.split)
  then show ?case
    using Cons by (simp add: case_prod_beta Let_def) (elim disjE; simp add: mountNodes_ids)
qed simp

lemma inSync_render: "\<not> pageLoading p \<Longrightarrow> inSync (render t p)"
  using mountChildren_sync [of _ p]
  by (auto simp: inSync_def render_def case_prod_beta Let_def mountNodes_ids mountChildren_names mountAll_keys
      nodesForUser_def taggedNodes_def)

fun isReload :: "page_event \<Rightarrow> bool" where
  "isReload (RefreshSettled cont r) \<longleftrightarrow> True"
| "isReload e \<longleftrightarrow> False"

lemma pageLoading_step: "pageLoading (fst (usersStep p (t, e))) \<longleftrightarrow> pageLoading p \<and> \<not> isReload e"
  unfolding fst_usersStep render_simps
  by (cases e; simp add: handler_defs case_prod_beta split: sum.split option.split)



subsection \<open>Defects of the administrator toggle\<close>

fun isToggle :: "nat \<Rightarrow> call \<Rightarrow> bool" where
  "isToggle i (Toggling j name adm) \<longleftrightarrow> j = i"
| "isToggle i c \<longleftrightarrow> False"

definition toggles :: "nat \<Rightarrow> page \<Rightarrow> nat" where
  "toggles i p = countIf (isToggle i) (underWay p)"

lemma toggles_render [simp]: "toggles i (render t p) = toggles i p"
  by (simp add: toggles_def)

lemma toggles_event:
  assumes "usersGuard v p e"
  shows "toggles i (fst (handleEvent p e)) =
    (if \<exists>n a. e = ConfirmAdmin i n a then Suc (toggles i p)
     else if \<exists>n a r. e = AdminSettled i n a r then toggles i p - 1 else toggles i p)"
  using assms unfolding toggles_def
  by (cases e) (auto simp: handler_defs case_prod_beta countIf_remove1 split: sum.split option.split)

text \<open>
  A row with a toggle under way is busy, has one such call at most, and calls belong to numbers that
  were mounted.
\<close>

definition busyRow :: "page \<Rightarrow> user_row \<Rightarrow> bool" where
  "busyRow p r \<longleftrightarrow> (0 < toggles (ur_inst r) p \<longrightarrow> adminBusy r)"

definition toggleInv :: "page \<Rightarrow> bool" where
  "toggleInv p \<longleftrightarrow> rowsInv (busyRow p) p \<and> (\<forall>i. toggles i p \<le> (if i < nextInst p then 1 else 0))"

lemma confirm_idle:
  assumes "rowsInv Q p" "usersGuard v p (ConfirmAdmin i n a)"
  obtains r where "r \<in> set (rows p)" "ur_inst r = i" "\<not> adminBusy r" "i < nextInst p"
proof -
  obtain r where "r \<in> set (rows p)" "ur_inst r = i" "\<not> adminBusy r"
    using assms(2) confirmAdmin_control [of i n a v p] by auto
  then show ?thesis using that rowsInvD(1) [OF assms(1)] by blast
qed

lemma nextInst_step: "nextInst p \<le> nextInst (fst (usersStep p (t, e)))"
  unfolding fst_usersStep using render_origin [of "fst (handleEvent p e)" t] by (simp add: nextInst_handleEvent)

lemma toggleInv_step:
  assumes inv: "toggleInv p" and g: "usersGuard v p e"
  shows "toggleInv (fst (usersStep p (t, e)))"
proof -
  let ?p = "fst (usersStep p (t, e))"
  have rows: "rowsInv (busyRow p) p" and cnt: "\<And>i. toggles i p \<le> (if i < nextInst p then 1 else 0)"
    using inv by (auto simp: toggleInv_def)
  have tog: "toggles i ?p = toggles i (fst (handleEvent p e))" for i by (simp add: fst_usersStep)
  have idle: "toggles i p = 0 \<and> i < nextInst p" if e: "e = ConfirmAdmin i n a" for i n a
  proof -
    have g': "usersGuard v p (ConfirmAdmin i n a)" using g e by simp
    show ?thesis
      by (rule confirm_idle [OF rows g']) (use rowsInvD(2) [OF rows] in \<open>auto simp: busyRow_def\<close>)
  qed
  have c0: "toggles i ?p \<le> (if i < nextInst p then 1 else 0)" for i
    using cnt [of i] idle [of i] unfolding tog toggles_event [OF g] by (auto split: if_splits)
  have c: "toggles i ?p \<le> (if i < nextInst ?p then 1 else 0)" for i
    using c0 [of i] nextInst_step [of p t e] by (cases "i < nextInst p") auto
  have "rowsInv (busyRow ?p) ?p"
  proof (rule rowsInv_step [OF rows])
    fix r assume r: "r \<in> set (rows p)" "busyRow p r"
    show "busyRow ?p (rowAfter e r)"
      using r cnt [of "ur_inst r"] unfolding busyRow_def adminBusy_rowAfter rowAfter_ident tog toggles_event [OF g]
      by (auto split: if_splits)
  next
    fix k :: jsstring and m assume "nextInst p \<le> m"
    then show "busyRow ?p (newUserRow k m)"
      using cnt [of m] idle [of m] unfolding busyRow_def tog toggles_event [OF g] by (auto split: if_splits)
  qed (simp add: busyRow_def)
  then show ?thesis using c by (simp add: toggleInv_def)
qed

text \<open>A number whose toggle has succeeded: its row stays busy with nothing under way.\<close>

definition deadToggle :: "nat \<Rightarrow> page \<Rightarrow> bool" where
  "deadToggle i p \<longleftrightarrow>
     toggleInv p \<and> i < nextInst p \<and> toggles i p = 0 \<and> (\<forall>r\<in>set (rows p). ur_inst r = i \<longrightarrow> adminBusy r)"

lemma deadToggle_no_control: "deadToggle i p \<Longrightarrow> ConfirmAdmin i n a \<notin> set (controls (usersView v p))"
  using confirmAdmin_control [of i n a v p] by (auto simp: deadToggle_def)

lemma deadToggle_no_settle: "deadToggle i p \<Longrightarrow> usersGuard v p e \<Longrightarrow> e \<noteq> AdminSettled i n a r"
  using countIf_pos [of "Toggling i n a" "underWay p" "isToggle i"] by (auto simp: deadToggle_def toggles_def)

lemma rowsInv_busy:
  assumes "rowsInv Q p" "i < nextInst p"
    and "\<And>r. r \<in> set (rows p) \<Longrightarrow> ur_inst r = i \<Longrightarrow> adminBusy (rowAfter e r)"
  shows "\<forall>r\<in>set (rows (fst (usersStep p (t, e)))). ur_inst r = i \<longrightarrow> adminBusy r"
proof -
  have "rowsInv (\<lambda>r. ur_inst r = i \<longrightarrow> adminBusy r) (fst (usersStep p (t, e)))"
    using assms by (intro rowsInv_step [OF assms(1)]) auto
  then show ?thesis by (simp add: rowsInv_def)
qed

interpretation dead: guarded_machine usersStep "\<lambda>p te. usersGuard v p (snd te)" "deadToggle i" for v i
proof
  fix p and te :: "int \<times> page_event"
  assume d: "deadToggle i p" and g: "usersGuard v p (snd te)"
  obtain t e where te: "te = (t, e)" by fastforce
  have g: "usersGuard v p e" using g te by simp
  have inv: "toggleInv p" "i < nextInst p" "toggles i p = 0" "rowsInv (busyRow p) p"
    using d by (auto simp: deadToggle_def toggleInv_def)
  have e: "e \<noteq> ConfirmAdmin i n a" "e \<noteq> AdminSettled i n a r" for n a r
    using deadToggle_no_control [OF d, of n a v] deadToggle_no_settle [OF d g] g by auto
  have "\<forall>r\<in>set (rows (fst (usersStep p (t, e)))). ur_inst r = i \<longrightarrow> adminBusy r"
    by (rule rowsInv_busy [OF inv(4,2)]) (use d e in \<open>auto simp: adminBusy_rowAfter deadToggle_def\<close>)
  moreover have "toggles i (fst (usersStep p (t, e))) = 0"
    using inv(3) e by (simp add: fst_usersStep toggles_event [OF g])
  ultimately show "deadToggle i (fst (usersStep p te))"
    unfolding te deadToggle_def using toggleInv_step [OF inv(1) g] inv(2) nextInst_step [of p t e] by auto
qed

interpretation toggling: guarded_machine usersStep "\<lambda>p te. usersGuard v p (snd te)" toggleInv for v
  by unfold_locales (metis prod.collapse snd_conv toggleInv_step)

lemma success_kills_toggle:
  assumes inv: "toggleInv p" and g: "usersGuard v p (AdminSettled i n a (Inr u))"
  shows "deadToggle i (fst (usersStep p (t, AdminSettled i n a (Inr u))))"
proof -
  let ?e = "AdminSettled i n a (Inr u)"
  have "0 < toggles i p" using g countIf_pos [of "Toggling i n a" "underWay p" "isToggle i"] by (simp add: toggles_def)
  then have one: "toggles i p = 1" "i < nextInst p" and rows: "rowsInv (busyRow p) p"
    using inv by (auto simp: toggleInv_def split: if_splits dest!: spec [of _ i])
  have "\<forall>r\<in>set (rows (fst (usersStep p (t, ?e)))). ur_inst r = i \<longrightarrow> adminBusy r"
    by (rule rowsInv_busy [OF rows one(2)]) (use rowsInvD(2) [OF rows] one in \<open>auto simp: busyRow_def\<close>)
  moreover have "toggles i (fst (usersStep p (t, ?e))) = 0"
    unfolding fst_usersStep toggles_render toggles_event [OF g] using one(1) by auto
  ultimately show ?thesis
    unfolding deadToggle_def using toggleInv_step [OF inv g] one(2) nextInst_step [of p t ?e] by auto
qed

text \<open>
  C22. A defect: \<open>handleAdminToggle\<close> resets \<open>adminBusy\<close> only when it fails. Once a grant or a removal has
  succeeded, the button that confirms a change of that row is never enabled again, in any
  continuation, as long as the row stays mounted.
\<close>

theorem admin_toggle_dies:
  assumes "usersAllowed v mountedPage (es @ (t, AdminSettled i n a (Inr u)) # fs)"
  shows "ConfirmAdmin i n' a' \<notin>
    set (controls (usersView v (fst (run usersStep mountedPage (es @ (t, AdminSettled i n a (Inr u)) # fs)))))"
proof -
  let ?p = "fst (run usersStep mountedPage es)" and ?e = "(t, AdminSettled i n a (Inr u))"
  have a: "usersAllowed v mountedPage es" "usersGuard v ?p (snd ?e)" "usersAllowed v (fst (usersStep ?p ?e)) fs"
    using assms by (simp_all add: allowed_append)
  have "toggleInv mountedPage" by (simp add: toggleInv_def rowsInv_mounted toggles_def)
  from toggling.inv_run [OF this a(1)] have "toggleInv ?p" .
  from success_kills_toggle [OF this] a(2) have "deadToggle i (fst (usersStep ?p ?e))" by simp
  from dead.inv_run [OF this a(3)] have "deadToggle i (fst (run usersStep mountedPage (es @ ?e # fs)))"
    by (simp add: fst_run_append case_prod_beta Let_def)
  then show ?thesis by (rule deadToggle_no_control)
qed

definition sampleRegret :: "(int \<times> page_event) list" where
  "sampleRegret =
     sampleRevoke @ (3, AdminSettled 1 (js ''bob'') True (Inr ())) # [(4, sampleLoad [''alice'']), (5, AskAdmin 1 Grant)]"

theorem admin_toggle_dies_witness:
  "ConfirmAdmin 1 (js ''bob'') False \<notin> set (controls (usersView sampleViewer (fst (run usersStep mountedPage sampleRegret)))) \<and>
   map confirmAdmin (rows (fst (run usersStep mountedPage sampleRegret))) = [None, Some Grant, None]"
proof -
  have a: "usersAllowed sampleViewer mountedPage sampleRegret"
    and c: "map confirmAdmin (rows (fst (run usersStep mountedPage sampleRegret))) = [None, Some Grant, None]"
    by code_simp+
  show ?thesis
    using admin_toggle_dies [OF a [unfolded sampleRegret_def], folded sampleRegret_def] c by blast
qed

text \<open>A row that was mounted, and whose user is still listed, stays mounted with its state.\<close>

lemma mountAll_keeps:
  "find (\<lambda>r. key r = k) old = Some r \<Longrightarrow> k \<in> set ks \<Longrightarrow> r \<in> set (fst (mountAll key new old ks n))"
  by (induction ks arbitrary: n) (auto simp: case_prod_beta split: option.split)

lemma mountChildren_keeps:
  "r \<in> set rs \<Longrightarrow> \<exists>ns q. r\<lparr>nodeRows := ns, onboardPanel := q\<rparr> \<in> set (fst (mountChildren p rs n))"
proof (induction rs arbitrary: n)
  case (Cons r' rs)
  then show ?case by (simp add: case_prod_beta Let_def) blast
qed simp

lemma find_distinct: "distinct (map f xs) \<Longrightarrow> x \<in> set xs \<Longrightarrow> find (\<lambda>y. f y = f x) xs = Some x"
  by (induction xs) (auto simp: image_iff)

lemma render_keeps:
  assumes "\<not> pageLoading p" "distinct (map ur_name (rows p))" "r \<in> set (rows p)" "ur_name r \<in> u_name ` set (users p)"
  shows "\<exists>ns q. r\<lparr>nodeRows := ns, onboardPanel := q\<rparr> \<in> set (rows (render t p))"
proof -
  have "r \<in> set (fst (mountAll ur_name newUserRow (rows p) (map u_name (users p)) n))" for n
    using find_distinct [OF assms(2,3)] assms(4) by (intro mountAll_keeps) auto
  from mountChildren_keeps [OF this] show ?thesis
    using assms(1) by (simp add: render_def case_prod_beta Let_def)
qed

lemma confirmAdmin_controlI:
  assumes "\<not> pageLoading p" "users p \<noteq> []" "r \<in> set (rows p)" "\<not> isSystem r"
    and "rowControl v p r (ConfirmAdmin i n a)"
  shows "ConfirmAdmin i n a \<in> set (controls (usersView v p))"
proof -
  have "\<exists>w\<in>set (adminControls v p r). ConfirmAdmin i n a \<in> set (controls w)"
    unfolding controls_admin_iff using assms(5) by (auto split: option.split)
  then have "ConfirmAdmin i n a \<in> set (controls (userRowView v p r))"
    using assms(4,5) by (auto simp: userRowView_def Let_def)
  then show ?thesis using assms(1-3) by (auto simp: usersView_def)
qed

text \<open>
  C23. A defect: the question and the action of the toggle come from different moments. The question
  on screen (\<open>confirmAdmin\<close>) is from when it was asked, the action from the current list: after a reload
  the same "Yes" grants or removes according to the new list, so that "Grant admin?" removes
  someone whom another administrator has made one in the meantime, and the guard against removing
  the last administrator no longer applies.
\<close>

theorem stale_confirmation:
  assumes "p' = fst (usersStep p (t, RefreshSettled None (Inr (us, ns, as))))"
    and "r \<in> set (rows p)" "distinct (map ur_name (rows p))" "\<not> isSystem r" "currentIsAdmin v"
    and "confirmAdmin r = Some c" "\<not> adminBusy r" "ur_name r \<in> u_name ` set us"
  shows "(\<exists>r'\<in>set (rows p'). ur_inst r' = ur_inst r \<and> ur_name r' = ur_name r \<and> confirmAdmin r' = Some c) \<and>
    ConfirmAdmin (ur_inst r) (ur_name r) (ur_name r \<in> set as) \<in> set (controls (usersView v p')) \<and>
    snd (usersStep p' (t', ConfirmAdmin (ur_inst r) (ur_name r) (ur_name r \<in> set as))) =
      [Call (if ur_name r \<in> set as then RevokeAdmin (ur_name r) else GrantAdmin (ur_name r))]"
proof -
  let ?q = "fst (handleEvent p (RefreshSettled None (Inr (us, ns, as))))"
  have p': "p' = render t ?q" using assms(1) by (simp add: fst_usersStep)
  have q: "\<not> pageLoading ?q" "users ?q = us" "adminNames ?q = as" "rows ?q = rows p"
    by (simp_all add: handler_defs)
  then obtain ms pq where r': "r\<lparr>nodeRows := ms, onboardPanel := pq\<rparr> \<in> set (rows p')" (is "?r \<in> _")
    using render_keeps [of ?q r t] assms(2,3,8) unfolding p' by auto
  have "rowControl v p' ?r (ConfirmAdmin (ur_inst r) (ur_name r) (ur_name r \<in> set as))"
    using assms(5-7) q(3) by (simp add: rowIsAdmin_def p')
  then have "ConfirmAdmin (ur_inst r) (ur_name r) (ur_name r \<in> set as) \<in> set (controls (usersView v p'))"
    using q assms(4,8) r' unfolding p' by (intro confirmAdmin_controlI [OF _ _ r'[unfolded p']]) (auto simp: isSystem_def)
  moreover have "\<exists>r'\<in>set (rows p'). ur_inst r' = ur_inst r \<and> ur_name r' = ur_name r \<and> confirmAdmin r' = Some c"
    using r' assms(6) by (intro bexI [OF _ r']) simp
  ultimately show ?thesis by (simp add: snd_usersStep handleAdminToggle_def)
qed

text \<open>\<open>bob\<close> is asked to become an administrator; the reload shows that he is the only one; "Yes" removes him.\<close>

definition sampleAsked :: page where
  "sampleAsked = fst (run usersStep mountedPage [(0, sampleLoad [''alice'']), (1, AskAdmin 1 Grant)])"

definition sampleBob :: user_row where
  "sampleBob = rows sampleAsked ! 1"

theorem stale_confirmation_witness:
  "snd (usersStep (fst (usersStep sampleAsked (2, RefreshSettled None (Inr ([sampleUser ''bob''], [], [js ''bob''])))))
     (3, ConfirmAdmin (ur_inst sampleBob) (js ''bob'') True)) = [Call (RevokeAdmin (js ''bob''))]"
proof -
  have "length (rows sampleAsked) = 3" by code_simp
  then have m: "sampleBob \<in> set (rows sampleAsked)" unfolding sampleBob_def by (intro nth_mem) simp
  have n: "ur_name sampleBob = js ''bob''" by code_simp
  have d: "distinct (map ur_name (rows sampleAsked))" "\<not> isSystem sampleBob" "currentIsAdmin sampleViewer"
    "confirmAdmin sampleBob = Some Grant" "\<not> adminBusy sampleBob"
    by code_simp+
  show ?thesis
    using stale_confirmation [OF refl m d, of "[sampleUser ''bob'']" 2 "[]" "[js ''bob'']" 3]
    by (simp add: n sampleUser_def)
qed

end
