(* ===== verification/Onboarding.thy ===== *)
theory Onboarding
  imports UsersAccounts
begin

text \<open>
  Device onboarding on the management page: the countdown of a key, which key a panel shows and
  copies, the poll that notices a new device, two races between users, and that the calls of the
  page settle in bounded time when the visitor does nothing.
\<close>

subsection \<open>Countdown\<close>

lemma length_showNat_small: "n < 100 \<Longrightarrow> length (showNat n) = (if n < 10 then 1 else 2)"
  by (subst showNat.simps, subst showNat.simps) (simp add: less_mult_imp_div_less)

text \<open>The two digits of the seconds.\<close>

lemma two_digits:
  assumes "n < 60"
  shows "length (padStart 2 (of_char CHR ''0'') (showNat n)) = 2 \<and> decVal (padStart 2 (of_char CHR ''0'') (showNat n)) = n"
  using assms length_showNat_small [of n] decVal_showNat [of n]
  by (auto simp: padStart_def decVal_def of_char_def)

text \<open>
  C20. The countdown is exact: a key shows as expired exactly when less than a second is left, so
  never after its expiry as valid; before that the label is \<open><m>m <ss>s\<close> with two digits of seconds
  below 60, and minutes and seconds add up to the whole seconds left.
\<close>

theorem countdown_exact:
  assumes "e \<noteq> []" "time e = Some t"
  shows "(expired (useCountdown time nowMs (Some e)) \<longleftrightarrow> t - nowMs < 1000) \<and>
    (\<not> expired (useCountdown time nowMs (Some e)) \<longrightarrow>
      (\<exists>m s. label (useCountdown time nowMs (Some e)) = showNat m @ js ''m '' @ s @ js ''s'' \<and>
         length s = 2 \<and> decVal s < 60 \<and> int (m * 60 + decVal s) = (t - nowMs) div 1000))"
proof -
  define n where "n = (t - nowMs) div 1000"
  let ?c = "useCountdown time nowMs (Some e)" and ?s = "padStart 2 (of_char CHR ''0'') (showNat (nat (n mod 60)))"
  have c: "?c = (if n \<le> 0 then \<lparr>label = js ''Expired'', expired = True\<rparr>
      else \<lparr>label = showNat (nat (n div 60)) @ js ''m '' @ ?s @ js ''s'', expired = False\<rparr>)"
    using assms by (simp add: useCountdown_def nonEmpty_def Let_def n_def)
  have "n \<le> 0 \<longleftrightarrow> t - nowMs < 1000" unfolding n_def by linarith
  then have "expired ?c \<longleftrightarrow> t - nowMs < 1000" by (simp add: c)
  moreover have "\<exists>m s. label ?c = showNat m @ js ''m '' @ s @ js ''s'' \<and> length s = 2 \<and> decVal s < 60 \<and>
      int (m * 60 + decVal s) = n" if "\<not> expired ?c"
  proof -
    have n: "0 < n" using that by (simp add: c split: if_splits)
    have lt: "nat (n mod 60) < 60" by (simp add: nat_less_iff)
    have "label ?c = showNat (nat (n div 60)) @ js ''m '' @ ?s @ js ''s''" using n by (simp add: c)
    moreover have "int (nat (n div 60) * 60 + nat (n mod 60)) = n" using n by simp
    ultimately show ?thesis using two_digits [OF lt] lt by metis
  qed
  ultimately show ?thesis unfolding n_def by blast
qed

theorem countdown_exact_witness:
  "\<not> expired (useCountdown (\<lambda>_. Some 125999) 1000 (Some (js ''soon''))) \<and>
   (\<exists>m s. label (useCountdown (\<lambda>_. Some 125999) 1000 (Some (js ''soon''))) = showNat m @ js ''m '' @ s @ js ''s'' \<and>
      int (m * 60 + decVal s) = 124)"
  using countdown_exact [of "js ''soon''" "\<lambda>_. Some 125999" 125999 1000] by fastforce

subsection \<open>Which key is shown\<close>

text \<open>
  What the backend promises of the keys it creates, as a relation between the user of the request and
  the key of the reply; \<open>answers\<close> says that a settled call keeps the promise.
\<close>

fun answers :: "(jsstring \<Rightarrow> create_key_response \<Rightarrow> bool) \<Rightarrow> page_event \<Rightarrow> bool" where
  "answers P (KeySettled name (Inr k)) \<longleftrightarrow> P name k"
| "answers P e \<longleftrightarrow> True"

definition keyInv :: "(jsstring \<Rightarrow> create_key_response \<Rightarrow> bool) \<Rightarrow> page \<Rightarrow> bool" where
  "keyInv P p \<longleftrightarrow> (\<forall>name k. map_get (keyData p) name = Some k \<longrightarrow> P name k)"

interpretation keys: guarded_machine usersStep "\<lambda>p te. usersGuard v p (snd te) \<and> answers P (snd te)" "keyInv P" for v P
proof
  fix p and te :: "int \<times> page_event"
  assume inv: "keyInv P p" and g: "usersGuard v p (snd te) \<and> answers P (snd te)"
  obtain t e where te: "te = (t, e)" by fastforce
  have "keyInv P (fst (handleEvent p e))"
    using inv g unfolding te keyInv_def
    by (cases e) (auto simp: handler_defs case_prod_beta map_simps split: sum.splits option.splits if_splits)
  then show "keyInv P (fst (usersStep p te))" by (simp add: te fst_usersStep keyInv_def)
qed

lemma onboard_copy:
  "CopyKey i t \<in> set (controls (onboardView v p name q)) \<Longrightarrow>
     (\<exists>k. keyFor name p = OwnKey k \<and> t = ck_key k \<and> \<not> expired (panelCountdown v name p)) \<or>
     keyFor name p = Inherited \<and> t = js ''undefined''"
  by (cases "keyFor name p") (auto simp: onboardView_def keyField_def Let_def whenView_def split: if_splits)

lemma page_copy:
  assumes "CopyKey i t \<in> set (controls (usersView v p))"
  shows "\<exists>r\<in>set (rows p). onboardingUser p = Some (ur_name r) \<and>
    (\<exists>q. CopyKey i t \<in> set (controls (onboardView v p (ur_name r) q)))"
proof -
  have no: "CopyKey i t \<notin> set (controls w)" if "w \<in> set (nodeRowsView a b ns rs)" for w a b ns rs
    using controls_nodeRows [OF that, of "CopyKey i t"] by auto
  have "onboardingUser p = Some (ur_name r) \<and> (\<exists>q. CopyKey i t \<in> set (controls (onboardView v p (ur_name r) q)))"
    if "CopyKey i t \<in> set (controls (userRowView v p r))" for r
  proof -
    have "\<not> (\<exists>w\<in>set (adminControls v p r). CopyKey i t \<in> set (controls w))"
      "\<not> (\<exists>w\<in>set (deleteControls p r). CopyKey i t \<in> set (controls w))"
      unfolding controls_admin_iff controls_delete_iff by (auto split: option.split)
    then show ?thesis using that no unfolding userRowView_def Let_def whenView_def
      by (auto split: if_splits option.splits)
  qed
  moreover have "\<exists>r\<in>set (rows p). CopyKey i t \<in> set (controls (userRowView v p r))"
    using assms no unfolding usersView_def whenView_def by (auto split: if_splits)
  ultimately show ?thesis by blast
qed


definition sampleKeyResponse :: "string \<Rightarrow> create_key_response" where
  "sampleKeyResponse n = \<lparr>ck_key = js ''k-'' @ js n, ck_user = js n, qr_data = js ''qr'', expires_at = js ''later''\<rparr>"

definition sampleCopy :: "(int \<times> page_event) list" where
  "sampleCopy =
     [(0, sampleLoad [''alice'']), (1, ToggleOnboarding (js ''bob'')), (2, KeySettled (js ''bob'') (Inr (sampleKeyResponse ''bob'')))]"


subsection \<open>Noticing a new device\<close>

definition isNewDevice :: "jsstring \<Rightarrow> jsstring list \<Rightarrow> node \<Rightarrow> bool" where
  "isNewDevice name baseline n \<longleftrightarrow> map_option u_name (n_user n) = Some name \<and> n_id n \<notin> set baseline"

lemma pollSettled_cases:
  "pollSettled name baseline r p =
     (if \<exists>ns. r = Inr ns \<and> (\<exists>n\<in>set ns. isNewDevice name baseline n) then onDeviceRegistered p else (p, []))"
proof (cases r)
  case (Inr ns)
  have P: "(\<lambda>n. map_option u_name (n_user n) = Some name \<and> n_id n \<notin> set baseline) = isNewDevice name baseline"
    by (simp add: isNewDevice_def fun_eq_iff)
  have "find (isNewDevice name baseline) ns = None \<longleftrightarrow> \<not> (\<exists>n\<in>set ns. isNewDevice name baseline n)"
    by (auto simp: find_None_iff)
  then show ?thesis
    unfolding pollSettled_def Inr sum.case P by (cases "find (isNewDevice name baseline) ns") auto
qed (simp add: pollSettled_def)

lemma closed_panels: "onboardingUser p = None \<Longrightarrow> \<not> pageLoading p \<Longrightarrow> r \<in> set (rows (render t p)) \<Longrightarrow> onboardPanel r = None"
  using inSync_render [of p t] by (simp add: inSync_def)


definition sampleNode :: "string \<Rightarrow> string \<Rightarrow> node" where
  "sampleNode i u =
     \<lparr>n_id = js i, n_givenName = js i, n_name = js i, n_ipAddresses = None, n_online = True, n_lastSeen = None,
      n_createdAt = None, n_forcedTags = None, n_validTags = None, n_user = Some (sampleUser u)\<rparr>"

text \<open>A poll for \<open>bob\<close> is under way when the visitor turns to \<open>alice\<close>.\<close>

definition sampleLatePoll :: "(int \<times> page_event) list" where
  "sampleLatePoll = sampleCopy @ [(3, PollFired (js ''bob'') []), (4, ToggleOnboarding (js ''alice''))]"


subsection \<open>Keys for two users\<close>

text \<open>
  A defect: \<open>generatingKey\<close> is one slot for all users. When the key of one user arrives while that
  of another is being generated, the slot is cleared, and the open panel of the second user shows
  neither the progress text nor a key, although its request is still under way.
\<close>

theorem spinner_lost:
  assumes "onboardingUser p = Some name" "name \<noteq> other" "KeyFor name \<in> set (underWay p)"
    and "map_get (keyData p) name = None" "name \<notin> set prototypeNames"
    and "p' = fst (usersStep p (t, KeySettled other r))"
  shows "KeyFor name \<in> set (underWay p') \<and> onboardingUser p' = Some name \<and>
    texts (onboardView v p' name q) = [js ''New device for '', name]"
proof -
  have p': "generatingKey p' = None" "underWay p' = remove1 (KeyFor other) (underWay p)" "onboardingUser p' = Some name"
    "map_get (keyData p') name = None"
    using assms by (auto simp: fst_usersStep keySettled_def map_simps split: sum.split)
  have k: "keyFor name p' = NoKey" using p'(4) assms(5) by (simp add: keyFor_def)
  have "texts (onboardView v p' name q) = [js ''New device for '', name]"
    using p'(1) k unfolding onboardView_def Let_def by simp
  then show ?thesis using p' assms(2,3) by simp
qed

definition sampleTwoKeys :: "(int \<times> page_event) list" where
  "sampleTwoKeys = [(0, sampleLoad [''alice'']), (1, ToggleOnboarding (js ''alice'')), (2, ToggleOnboarding (js ''bob''))]"

theorem spinner_lost_witness:
  "usersAllowed sampleViewer mountedPage (sampleTwoKeys @ [(3, KeySettled (js ''alice'') (Inr (sampleKeyResponse ''alice'')))]) \<and>
   texts (onboardView sampleViewer
     (fst (usersStep (fst (run usersStep mountedPage sampleTwoKeys)) (3, KeySettled (js ''alice'') (Inr (sampleKeyResponse ''alice'')))))
     (js ''bob'') q) = [js ''New device for '', js ''bob'']"
proof -
  let ?p = "fst (run usersStep mountedPage sampleTwoKeys)"
  have "onboardingUser ?p = Some (js ''bob'')" "js ''bob'' \<noteq> js ''alice''" "KeyFor (js ''bob'') \<in> set (underWay ?p)"
    "map_get (keyData ?p) (js ''bob'') = None" "js ''bob'' \<notin> set prototypeNames"
    by code_simp+
  moreover have "usersAllowed sampleViewer mountedPage (sampleTwoKeys @ [(3, KeySettled (js ''alice'') (Inr (sampleKeyResponse ''alice'')))])"
    by code_simp
  ultimately show ?thesis using spinner_lost [OF _ _ _ _ _ refl] by simp
qed

subsection \<open>Settling\<close>

text \<open>
  How many replies a call can still cause: a creation is followed by a reload and a key, a deletion,
  a toggle or a poll by a reload.
\<close>

fun weight :: "call \<Rightarrow> nat" where
  "weight (Refreshing None) = 1"
| "weight (Refreshing (Some name)) = 2"
| "weight (Creating name) = 3"
| "weight (KeyFor name) = 1"
| "weight (DeletingUser i name) = 2"
| "weight (Toggling i name adm) = 2"
| "weight (DeletingNode i nid) = 2"
| "weight (Polling name baseline) = 2"

definition openWork :: "page \<Rightarrow> nat" where
  "openWork p = sum_list (map weight (underWay p))"

fun isSettled :: "page_event \<Rightarrow> bool" where
  "isSettled (RefreshSettled cont r) \<longleftrightarrow> True"
| "isSettled (CreateSettled name r) \<longleftrightarrow> True"
| "isSettled (KeySettled name r) \<longleftrightarrow> True"
| "isSettled (DeleteSettled i name r) \<longleftrightarrow> True"
| "isSettled (AdminSettled i name adm r) \<longleftrightarrow> True"
| "isSettled (NodeDeleteSettled i nid r) \<longleftrightarrow> True"
| "isSettled (PollSettled name baseline r) \<longleftrightarrow> True"
| "isSettled e \<longleftrightarrow> False"

lemma weight_pos: "0 < weight c"
  by (cases c rule: weight.cases) auto

lemma openWork_eq_0: "openWork p = 0 \<longleftrightarrow> underWay p = []"
  using weight_pos [of "hd (underWay p)"] by (cases "underWay p") (auto simp: openWork_def)

lemma sum_weight_remove1: "c \<in> set cs \<Longrightarrow> sum_list (map weight cs) = weight c + sum_list (map weight (remove1 c cs))"
  by (rule sum_list_map_remove1)

lemma openWork_step:
  assumes "usersGuard v p e" "isSettled e"
  shows "openWork (fst (usersStep p (t, e))) < openWork p"
  using assms unfolding openWork_def fst_usersStep render_simps
  by (cases e)
    (auto simp: handler_defs case_prod_beta sum_weight_remove1 split: sum.split option.split)

text \<open>
  C17. The page comes to rest: from any state, when nothing but replies arrives, no more than
  \<open>openWork\<close> replies can arrive, each strictly lowering that measure, and when it is exhausted no call is under
  way; in a page reached from the start the form for a new user is then enabled again.
\<close>

theorem page_comes_to_rest:
  assumes "usersAllowed v mountedPage (es @ fs)" "\<forall>te\<in>set fs. isSettled (snd te)"
  shows "length fs + openWork (fst (run usersStep mountedPage (es @ fs))) \<le> openWork (fst (run usersStep mountedPage es)) \<and>
    (openWork (fst (run usersStep mountedPage (es @ fs))) = 0 \<longleftrightarrow> underWay (fst (run usersStep mountedPage (es @ fs))) = []) \<and>
    (underWay (fst (run usersStep mountedPage (es @ fs))) = [] \<longrightarrow> \<not> creating (fst (run usersStep mountedPage (es @ fs))))"
proof -
  have "length fs + openWork (fst (run usersStep p fs)) \<le> openWork p"
    if "usersAllowed v p fs" "\<forall>te\<in>set fs. isSettled (snd te)" for p
    using that
  proof (induction fs arbitrary: p)
    case (Cons te fs)
    obtain t e where te: "te = (t, e)" by fastforce
    have "openWork (fst (usersStep p te)) < openWork p" unfolding te using Cons.prems te by (intro openWork_step) auto
    then show ?case using Cons.IH [of "fst (usersStep p te)"] Cons.prems by (simp add: fst_run_Cons del: run.simps(2))
  qed simp
  moreover have "createInv mountedPage" by (simp add: createInv_def creates_def)
  from form.inv_run [OF this assms(1)] have "createInv (fst (run usersStep mountedPage (es @ fs)))" .
  then have "\<not> creating (fst (run usersStep mountedPage (es @ fs)))" if "underWay (fst (run usersStep mountedPage (es @ fs))) = []"
    using that by (simp add: createInv_def creates_def split: if_splits)
  ultimately show ?thesis
    using assms unfolding openWork_eq_0 fst_run_append allowed_append by blast
qed

theorem page_comes_to_rest_witness:
  "length [(3::int, CreateSettled (js ''carol'') (Inr ()))] \<le>
     openWork (fst (run usersStep mountedPage [(0, sampleLoad [''alice'']), (1, NameTyped (js '' carol '')), (2, SubmitCreate)]))"
proof -
  have "usersAllowed sampleViewer mountedPage
     ([(0, sampleLoad [''alice'']), (1, NameTyped (js '' carol '')), (2, SubmitCreate)] @ [(3, CreateSettled (js ''carol'') (Inr ()))])"
    by code_simp
  from page_comes_to_rest [OF this] show ?thesis by simp
qed

end
