(* ===== verification/PortalForms.thy ===== *)
theory PortalForms
  imports UsersAccounts
begin

text \<open>
  The two older pages of the portal, a list of users with a form (UserList.tsx) and a form for device
  keys (Onboard.tsx). Both are exported but no route of App.tsx shows them. Same conventions as for
  the management page: calls under way are part of the state, one event is one turn.
\<close>

subsection \<open>List of users\<close>

datatype list_call = FetchingUsers bool | CreatingUser jsstring

record list_page =
  li_users :: "user list"
  li_loading :: bool
  li_error :: "jsstring option"
  li_newName :: jsstring
  li_creating :: bool
  li_underWay :: "list_call list"

definition fetchUsers :: "bool \<Rightarrow> list_page \<Rightarrow> list_page \<times> api_call list" where
  "fetchUsers awaited p =
     (p\<lparr>li_loading := True, li_underWay := li_underWay p @ [FetchingUsers awaited]\<rparr>, [ListUsers])"

definition newListPage :: list_page where
  "newListPage = fst (fetchUsers False
     \<lparr>li_users = [], li_loading = True, li_error = None, li_newName = [], li_creating = False, li_underWay = []\<rparr>)"

text \<open>The end of \<open>fetchUsers\<close>; when \<open>handleCreate\<close> was waiting for it, its \<open>finally\<close> follows.\<close>

definition usersFetched :: "bool \<Rightarrow> user list settled \<Rightarrow> list_page \<Rightarrow> list_page \<times> api_call list" where
  "usersFetched awaited r p =
     (let p1 = (case r of
            Inr us \<Rightarrow> p\<lparr>li_users := us, li_error := None, li_loading := False\<rparr>
          | Inl e \<Rightarrow> p\<lparr>li_error := Some (errorText ''Failed to fetch users'' e), li_loading := False\<rparr>)
      in (if awaited then p1\<lparr>li_creating := False\<rparr> else p1, []))"

definition handleCreate :: "list_page \<Rightarrow> list_page \<times> api_call list" where
  "handleCreate p =
     (if trim (li_newName p) = [] then (p, [])
      else (p\<lparr>li_creating := True, li_underWay := li_underWay p @ [CreatingUser (trim (li_newName p))]\<rparr>,
            [CreateUser (trim (li_newName p))]))"

definition userCreated :: "unit settled \<Rightarrow> list_page \<Rightarrow> list_page \<times> api_call list" where
  "userCreated r p =
     (case r of
        Inr u \<Rightarrow> fetchUsers True (p\<lparr>li_newName := []\<rparr>)
      | Inl e \<Rightarrow> (p\<lparr>li_error := Some (errorText ''Failed to create user'' e), li_creating := False\<rparr>, []))"

datatype list_event =
    ListTyped jsstring
  | ListSubmit
  | UsersFetched bool "user list settled"
  | UserCreated jsstring "unit settled"

definition listSettle :: "list_call \<Rightarrow> list_page \<Rightarrow> list_page" where
  "listSettle c p = p\<lparr>li_underWay := remove1 c (li_underWay p)\<rparr>"

fun listStep :: "list_page \<Rightarrow> list_event \<Rightarrow> list_page \<times> api_call list" where
  "listStep p (ListTyped s) = (p\<lparr>li_newName := s\<rparr>, [])"
| "listStep p ListSubmit = handleCreate p"
| "listStep p (UsersFetched awaited r) = usersFetched awaited r (listSettle (FetchingUsers awaited) p)"
| "listStep p (UserCreated name r) = userCreated r (listSettle (CreatingUser name) p)"

text \<open>\<open>user.id || "--"\<close>.\<close>

definition orDashes :: "jsstring option \<Rightarrow> jsstring" where
  "orDashes s = (if nonEmpty s then the s else js ''--'')"

definition userListView :: "list_page \<Rightarrow> list_event view" where
  "userListView p =
     Plain
       ([Plain [Lit ''Users'', Lit ''Manage Headscale users. Each user can have multiple devices on the mesh.''],
         Plain [Input (li_newName p) (js ''New user name...''),
                Button (li_creating p \<or> trim (li_newName p) = []) ListSubmit
                  [Lit (if li_creating p then ''Creating...'' else ''Create User'')]]] @
        whenView (nonEmpty (li_error p)) [Text (the (li_error p))] @
        (if li_loading p then [Plain [Lit ''Loading users...'']]
         else if li_users p = [] then [Plain [Lit ''No users yet. Create one above.'']]
         else [Plain (Plain [Lit ''Name'', Lit ''ID'', Lit ''Created''] #
                 map (\<lambda>u. Plain [Text (u_name u), Text (orDashes (u_id u)), Text (orDashes (u_createdAt u))]) (li_users p))]))"

fun listGuard :: "list_page \<Rightarrow> list_event \<Rightarrow> bool" where
  "listGuard p (ListTyped s) \<longleftrightarrow> True"
| "listGuard p ListSubmit \<longleftrightarrow> ListSubmit \<in> set (controls (userListView p))"
| "listGuard p (UsersFetched awaited r) \<longleftrightarrow> FetchingUsers awaited \<in> set (li_underWay p)"
| "listGuard p (UserCreated name r) \<longleftrightarrow> CreatingUser name \<in> set (li_underWay p)"

fun isListCreate :: "list_call \<Rightarrow> bool" where
  "isListCreate (CreatingUser name) \<longleftrightarrow> True"
| "isListCreate (FetchingUsers awaited) \<longleftrightarrow> awaited"

fun isFetch :: "list_call \<Rightarrow> bool" where
  "isFetch (FetchingUsers awaited) \<longleftrightarrow> True"
| "isFetch c \<longleftrightarrow> False"

definition listInv :: "list_page \<Rightarrow> bool" where
  "listInv p \<longleftrightarrow>
     countIf isListCreate (li_underWay p) = (if li_creating p then 1 else 0) \<and>
     (li_loading p \<longrightarrow> 0 < countIf isFetch (li_underWay p))"

lemma listSubmit_control: "ListSubmit \<in> set (controls (userListView p)) \<longleftrightarrow> \<not> li_creating p \<and> trim (li_newName p) \<noteq> []"
  by (auto simp: userListView_def whenView_def)

interpretation user_list: guarded_machine listStep listGuard listInv
proof
  fix p e
  assume "listInv p" "listGuard p e"
  then show "listInv (fst (listStep p e))"
    by (cases e)
      (auto simp: listInv_def listSubmit_control handleCreate_def fetchUsers_def usersFetched_def userCreated_def
        listSettle_def Let_def countIf_remove1 dest: countIf_pos [where P = isListCreate] split: sum.splits if_splits)
qed

text \<open>
  The list of users recovers from every error: the form is busy exactly while one creation with
  its reload is under way, and the list says "Loading" only while a reload is under way.
\<close>

theorem user_list_recovers:
  assumes "allowed listGuard listStep newListPage es" "p = fst (run listStep newListPage es)"
  shows "countIf isListCreate (li_underWay p) = (if li_creating p then 1 else 0) \<and>
    (li_loading p \<longrightarrow> 0 < countIf isFetch (li_underWay p))"
proof -
  have "listInv newListPage" by (simp add: listInv_def newListPage_def fetchUsers_def)
  from user_list.inv_run [OF this assms(1)] show ?thesis using assms(2) by (simp add: listInv_def)
qed

theorem user_list_recovers_witness:
  "countIf isListCreate (li_underWay (fst (run listStep newListPage [ListTyped (js ''carol''), ListSubmit]))) = 1"
proof -
  have a: "allowed listGuard listStep newListPage [ListTyped (js ''carol''), ListSubmit]"
    and c: "li_creating (fst (run listStep newListPage [ListTyped (js ''carol''), ListSubmit]))"
    by code_simp+
  show ?thesis using user_list_recovers [OF a refl] c by simp
qed

subsection \<open>Device keys\<close>

datatype onboard_call = LoadingUsers | GeneratingKey jsstring

record onboard_page =
  ob_users :: "user list"
  selectedUser :: jsstring
  ob_keyData :: "create_key_response option"
  ob_loading :: bool
  ob_error :: "jsstring option"
  ob_underWay :: "onboard_call list"

definition newOnboardPage :: onboard_page where
  "newOnboardPage =
     \<lparr>ob_users = [], selectedUser = [], ob_keyData = None, ob_loading = False, ob_error = None, ob_underWay = [LoadingUsers]\<rparr>"

definition handleGenerate :: "onboard_page \<Rightarrow> onboard_page \<times> api_call list" where
  "handleGenerate p =
     (if selectedUser p = [] then (p, [])
      else (p\<lparr>ob_loading := True, ob_error := None, ob_keyData := None,
              ob_underWay := ob_underWay p @ [GeneratingKey (selectedUser p)]\<rparr>,
            [CreateKey (selectedUser p) False]))"

definition keyGenerated :: "create_key_response settled \<Rightarrow> onboard_page \<Rightarrow> onboard_page \<times> api_call list" where
  "keyGenerated r p =
     (case r of
        Inr k \<Rightarrow> (p\<lparr>ob_keyData := Some k, ob_loading := False\<rparr>, [])
      | Inl e \<Rightarrow> (p\<lparr>ob_error := Some (errorText ''Failed to generate key'' e), ob_loading := False\<rparr>, []))"

datatype onboard_event =
    SelectUser jsstring
  | GenerateClicked
  | UsersLoaded "user list settled"
  | KeyGenerated jsstring "create_key_response settled"

definition onboardSettle :: "onboard_call \<Rightarrow> onboard_page \<Rightarrow> onboard_page" where
  "onboardSettle c p = p\<lparr>ob_underWay := remove1 c (ob_underWay p)\<rparr>"

fun onboardStep :: "onboard_page \<Rightarrow> onboard_event \<Rightarrow> onboard_page \<times> api_call list" where
  "onboardStep p (SelectUser u) = (p\<lparr>selectedUser := u, ob_keyData := None\<rparr>, [])"
| "onboardStep p GenerateClicked = handleGenerate p"
| "onboardStep p (UsersLoaded r) =
     ((case r of Inr us \<Rightarrow> (onboardSettle LoadingUsers p)\<lparr>ob_users := us\<rparr> | Inl e \<Rightarrow> onboardSettle LoadingUsers p), [])"
| "onboardStep p (KeyGenerated u r) = keyGenerated r (onboardSettle (GeneratingKey u) p)"

definition fieldView :: "jsstring \<Rightarrow> jsstring \<Rightarrow> bool \<Rightarrow> 'e view" where
  "fieldView lab val isMono = Plain [Text lab, Box (if isMono then js ''font-mono'' else []) [Text val]]"

text \<open>The options of the \<open>select\<close> are buttons here: choosing one is its change event.\<close>

definition onboardFormView :: "onboard_page \<Rightarrow> onboard_event view" where
  "onboardFormView p =
     Plain
       ([Plain [Lit ''Onboard Device'', Lit ''Generate a preauth key and QR code to connect a new device to the mesh.''],
         Plain [Lit ''Select user'', Input (selectedUser p) [],
                Plain (Button False (SelectUser []) [Lit ''Choose a user...''] #
                       map (\<lambda>u. Button False (SelectUser (u_name u)) [Text (u_name u)]) (ob_users p)),
                Button (ob_loading p \<or> selectedUser p = []) GenerateClicked
                  [Lit (if ob_loading p then ''Generating...'' else ''Generate Preauth Key'')]]] @
        whenView (nonEmpty (ob_error p)) [Text (the (ob_error p))] @
        (case ob_keyData p of None \<Rightarrow> []
         | Some k \<Rightarrow>
             [Plain [QRCode (qr_data k), Lit ''Scan this QR code with the HeadFwd iOS app to join the mesh.'',
                     Plain [fieldView (js ''Preauth Key'') (ck_key k) True, fieldView (js ''User'') (ck_user k) False,
                            fieldView (js ''Expires'') (expires_at k) False, fieldView (js ''QR Data'') (qr_data k) True]]]))"

fun onboardGuard :: "onboard_page \<Rightarrow> onboard_event \<Rightarrow> bool" where
  "onboardGuard p (UsersLoaded r) \<longleftrightarrow> LoadingUsers \<in> set (ob_underWay p)"
| "onboardGuard p (KeyGenerated u r) \<longleftrightarrow> GeneratingKey u \<in> set (ob_underWay p)"
| "onboardGuard p e \<longleftrightarrow> e \<in> set (controls (onboardFormView p))"

fun isGenerating :: "onboard_call \<Rightarrow> bool" where
  "isGenerating (GeneratingKey u) \<longleftrightarrow> True"
| "isGenerating LoadingUsers \<longleftrightarrow> False"

definition onboardInv :: "onboard_page \<Rightarrow> bool" where
  "onboardInv p \<longleftrightarrow> countIf isGenerating (ob_underWay p) = (if ob_loading p then 1 else 0)"

lemma generate_control: "GenerateClicked \<in> set (controls (onboardFormView p)) \<longleftrightarrow> \<not> ob_loading p \<and> selectedUser p \<noteq> []"
  by (auto simp: onboardFormView_def whenView_def fieldView_def split: option.splits)

interpretation onboard_form: guarded_machine onboardStep onboardGuard onboardInv
proof
  fix p e
  assume "onboardInv p" "onboardGuard p e"
  then show "onboardInv (fst (onboardStep p e))"
    by (cases e)
      (auto simp: onboardInv_def generate_control handleGenerate_def keyGenerated_def onboardSettle_def countIf_remove1
        dest: countIf_pos [where P = isGenerating] split: sum.splits if_splits)
qed

text \<open>
  The form for device keys has one request under way exactly while it says so, and otherwise none.
  A defect: choosing another user while a key is being generated does not discard the answer, so
  the page then shows the key of the user chosen before under the one chosen now.
\<close>

theorem onboard_form_busy:
  assumes "allowed onboardGuard onboardStep newOnboardPage es" "p = fst (run onboardStep newOnboardPage es)"
    and "GeneratingKey u \<in> set (ob_underWay p)"
  shows "ob_loading p \<and> countIf isGenerating (ob_underWay p) = 1 \<and>
    ob_keyData (fst (run onboardStep p [SelectUser w, KeyGenerated u (Inr k)])) = Some k \<and>
    selectedUser (fst (run onboardStep p [SelectUser w, KeyGenerated u (Inr k)])) = w"
proof -
  have "onboardInv newOnboardPage" by (simp add: onboardInv_def newOnboardPage_def)
  from onboard_form.inv_run [OF this assms(1)] have "onboardInv p" using assms(2) by simp
  then show ?thesis
    using countIf_pos [OF assms(3), of isGenerating] by (auto simp: onboardInv_def keyGenerated_def onboardSettle_def split: if_splits)
qed

definition sampleGenerate :: "onboard_event list" where
  "sampleGenerate = [UsersLoaded (Inr [sampleUser ''alice'', sampleUser ''bob'']), SelectUser (js ''bob''), GenerateClicked]"

theorem onboard_form_busy_witness:
  "ob_loading (fst (run onboardStep newOnboardPage sampleGenerate))"
proof -
  have a: "allowed onboardGuard onboardStep newOnboardPage sampleGenerate"
    and c: "GeneratingKey (js ''bob'') \<in> set (ob_underWay (fst (run onboardStep newOnboardPage sampleGenerate)))"
    by code_simp+
  show ?thesis using onboard_form_busy [OF a refl c] by blast
qed

end
