(* ===== verification/Portal.thy ===== *)
theory Portal
  imports Layout Onboarding PortalForms
begin

text \<open>
  The portal as a whole (frontend/src/App.tsx): the frame around the management page. The page is
  mounted, and makes its first calls, when the frame first renders its children; its viewer is the
  current user of the frame.
\<close>

record portal =
  shell :: layout
  managed :: "page option"

definition newPortal :: portal where
  "newPortal = \<lparr>shell = newLayout, managed = None\<rparr>"

definition viewerOf :: "(jsstring \<Rightarrow> int option) \<Rightarrow> layout \<Rightarrow> viewer" where
  "viewerOf time s = \<lparr>currentUserName = userName (currentUser s), currentIsAdmin = isAdmin (currentUser s), getTime = time\<rparr>"

definition childrenShown :: "layout \<Rightarrow> bool" where
  "childrenShown s \<longleftrightarrow> \<not> loading (currentUser s) \<and> isAdmin (currentUser s)"

text \<open>\<open>App\<close>: the frame with the management page as its children, on every path.\<close>

definition appView :: "(jsstring \<Rightarrow> int option) \<Rightarrow> portal \<Rightarrow> page_event app_event view" where
  "appView time s =
     layoutView (case managed s of Some p \<Rightarrow> usersView (viewerOf time (shell s)) p | None \<Rightarrow> Plain []) (shell s)"

type_synonym portal_event = "(int \<times> page_event) app_event"

fun portalStep :: "portal \<Rightarrow> portal_event \<Rightarrow> portal \<times> page_effect list" where
  "portalStep s (FrameEvent e) =
     (let f = fst (layoutStep (shell s) e) in
      if childrenShown f
      then (case managed s of
              Some p \<Rightarrow> (s\<lparr>shell := f\<rparr>, [])
            | None \<Rightarrow> (s\<lparr>shell := f, managed := Some mountedPage\<rparr>, snd (refresh None initialPage)))
      else (s\<lparr>shell := f, managed := None\<rparr>, []))"
| "portalStep s (PageEvent te) =
     (case managed s of
        None \<Rightarrow> (s, [])
      | Some p \<Rightarrow> (case usersStep p te of (p', os) \<Rightarrow> (s\<lparr>managed := Some p'\<rparr>, os)))"

fun portalGuard :: "(jsstring \<Rightarrow> int option) \<Rightarrow> portal \<Rightarrow> portal_event \<Rightarrow> bool" where
  "portalGuard time s (FrameEvent e) \<longleftrightarrow> layoutGuard (shell s) e"
| "portalGuard time s (PageEvent te) \<longleftrightarrow>
     (case managed s of None \<Rightarrow> False | Some p \<Rightarrow> usersGuard (viewerOf time (shell s)) p (snd te))"

subsection \<open>Invariant\<close>

text \<open>\<open>confirmed G e\<close>: an administrator that \<open>/api/me\<close> reports is among the names \<open>G\<close>.\<close>

fun confirmed :: "(jsstring \<Rightarrow> bool) \<Rightarrow> portal_event \<Rightarrow> bool" where
  "confirmed G (FrameEvent (MeSettled (Inr me))) \<longleftrightarrow> (is_admin me \<longrightarrow> G (me_user_name me))"
| "confirmed G e \<longleftrightarrow> True"

definition portalInv :: "(jsstring \<Rightarrow> int option) \<Rightarrow> (jsstring \<Rightarrow> bool) \<Rightarrow> portal \<Rightarrow> bool" where
  "portalInv time G s \<longleftrightarrow>
     layoutInv (shell s) \<and> (isAdmin (currentUser (shell s)) \<longrightarrow> G (userName (currentUser (shell s)))) \<and>
     (case managed s of None \<Rightarrow> True
      | Some p \<Rightarrow> childrenShown (shell s) \<and> rowsInv (selfRow (viewerOf time (shell s))) p)"

lemma meSettled_admin:
  "confirmed G (FrameEvent (MeSettled r)) \<Longrightarrow> isAdmin (meSettled r) \<Longrightarrow> G (userName (meSettled r))"
  by (cases r) (auto simp: meSettled_def)

lemma frame_step:
  assumes "layoutInv s" "layoutGuard s e" "confirmed G (FrameEvent e)" "isAdmin (currentUser s) \<longrightarrow> G (userName (currentUser s))"
  shows "layoutInv (fst (layoutStep s e))"
    and "isAdmin (currentUser (fst (layoutStep s e))) \<longrightarrow> G (userName (currentUser (fst (layoutStep s e))))"
    and "childrenShown s \<Longrightarrow> currentUser (fst (layoutStep s e)) = currentUser s"
proof -
  show "layoutInv (fst (layoutStep s e))" using assms(1,2) by (rule frame.inv_step)
  show "isAdmin (currentUser (fst (layoutStep s e))) \<longrightarrow> G (userName (currentUser (fst (layoutStep s e))))"
    using assms(3,4) meSettled_admin by (cases e) auto
  show "currentUser (fst (layoutStep s e)) = currentUser s" if "childrenShown s"
    using assms(1,2) that by (cases e) (auto simp: layoutInv_def childrenShown_def)
qed

interpretation whole_portal: guarded_machine portalStep "\<lambda>s e. portalGuard time s e \<and> confirmed G e" "portalInv time G" for time G
proof
  fix s e
  assume inv: "portalInv time G s" and g: "portalGuard time s e \<and> confirmed G e"
  show "portalInv time G (fst (portalStep s e))"
  proof (cases e)
    case (FrameEvent le)
    have "layoutInv (shell s)" "layoutGuard (shell s) le" "confirmed G (FrameEvent le)"
      "isAdmin (currentUser (shell s)) \<longrightarrow> G (userName (currentUser (shell s)))"
      using inv g FrameEvent by (auto simp: portalInv_def)
    note f = frame_step [OF this]
    show ?thesis
    proof (cases "managed s")
      case None
      then show ?thesis using f(1,2) FrameEvent by (auto simp: portalInv_def Let_def rowsInv_mounted)
    next
      case (Some p)
      then have "childrenShown (shell s)" using inv by (simp add: portalInv_def)
      from f(3) [OF this] have "viewerOf time (fst (layoutStep (shell s) le)) = viewerOf time (shell s)"
        "childrenShown (fst (layoutStep (shell s) le))"
        using \<open>childrenShown (shell s)\<close> by (simp_all add: viewerOf_def childrenShown_def)
      then show ?thesis using f(1,2) inv Some FrameEvent by (simp add: portalInv_def Let_def)
    qed
  next
    case (PageEvent te)
    then obtain p where p: "managed s = Some p" "usersGuard (viewerOf time (shell s)) p (snd te)"
      using g by (auto split: option.splits)
    have "rowsInv (selfRow (viewerOf time (shell s))) (fst (usersStep p te))"
      using inv p by (intro protected.inv_step) (simp_all add: portalInv_def)
    then show ?thesis using inv p PageEvent by (simp add: portalInv_def case_prod_beta)
  qed
qed

text \<open>A call is made only for a confirmed administrator, and spares the protected accounts.\<close>

lemma portal_call:
  assumes "portalInv time G s" "portalGuard time s e" "confirmed G e" "Call c \<in> set (snd (portalStep s e))"
  shows "\<exists>n. G n \<and> sparesProtected \<lparr>currentUserName = n, currentIsAdmin = True, getTime = time\<rparr> c"
proof (cases e)
  case (FrameEvent le)
  have i: "layoutInv (shell s)" "layoutGuard (shell s) le" "confirmed G (FrameEvent le)"
    "isAdmin (currentUser (shell s)) \<longrightarrow> G (userName (currentUser (shell s)))"
    using assms FrameEvent by (auto simp: portalInv_def)
  have "childrenShown (fst (layoutStep (shell s) le))" and "c \<in> {ListUsers, ListNodes, ListAdmins}"
    using assms(4) FrameEvent by (auto simp: Let_def refresh_def split: if_splits option.splits)
  then show ?thesis using frame_step(2) [OF i] by (auto simp: childrenShown_def sparesProtected_def)
next
  case (PageEvent te)
  obtain t pe where te: "te = (t, pe)" by fastforce
  obtain p where p: "managed s = Some p" "usersGuard (viewerOf time (shell s)) p pe"
      "rowsInv (selfRow (viewerOf time (shell s))) p" "childrenShown (shell s)"
    using assms PageEvent te by (auto simp: portalInv_def split: option.splits)
  have "Call c \<in> set (snd (handleEvent p pe))"
    using assms(4) PageEvent p(1) te by (simp add: case_prod_beta snd_usersStep)
  from protected_step [OF p(3,2) this] have "sparesProtected (viewerOf time (shell s)) c" .
  moreover have "G (userName (currentUser (shell s)))" "viewerOf time (shell s) =
      \<lparr>currentUserName = userName (currentUser (shell s)), currentIsAdmin = True, getTime = time\<rparr>"
    using assms(1) p(4) by (auto simp: portalInv_def childrenShown_def viewerOf_def)
  ultimately show ?thesis by metis
qed


definition samplePortalRun :: "portal_event list" where
  "samplePortalRun = FrameEvent (MeSettled (Inr (sampleMe True))) # map PageEvent sampleRevoke"


end
