(* ===== verification/Spec2Isabelle.thy ===== *)
theory Spec2Isabelle
  imports Enrolment Router TunnelAuth TunnelRelay TunnelSpec Portal
begin

text \<open>
  HeadFwd publishes Headscale instances that sit behind a NAT. A sidecar next to the instance
  registers its machine key with the proxy and keeps a WebSocket tunnel open; the proxy, a Cloudflare
  worker with one Durable Object per instance, relays client requests through that tunnel. The sidecar
  also serves a portal, a React page where administrators manage users and devices. This development
  models the proxy (headfwd-proxy/src) and the portal's frontend (headfwd-sidecar/portal/frontend/src)
  and states what makes them correct.

  \<^bold>\<open>Parts and theories.\<close>
  \<^item> \<open>Prelude\<close>: JavaScript strings as lists of 16-bit code units, byte arrays, \<open>Map\<close> objects as
    association lists; the interfaces \<open>codec\<close>, \<open>codec_chain\<close>, \<open>keyed_map\<close>, \<open>guarded_machine\<close> and
    \<open>simulation\<close>.
  \<^item> \<open>Utf8\<close>, \<open>Hex\<close>, \<open>Base64\<close>, \<open>Json\<close>: the conversions of the language and of index.ts and
    tunnel-do.ts (\<open>bufferToHex\<close>, \<open>hexToBytes\<close>, \<open>toBase64\<close>, \<open>fromBase64\<close>), each an interpretation of
    \<open>codec\<close>; JSON text over UTF-8 is one of \<open>codec_chain\<close>.
  \<^item> \<open>Platform\<close>: HTTP messages, the bindings \<open>Env\<close> of types.ts, and the contracts of Web Crypto
    (\<open>webcrypto_ok\<close>) and of the KV namespace (\<open>kv_consistent\<close>, \<open>kv_integrity\<close>, \<open>kv_available\<close>), which are
    parameters.
  \<^item> \<open>Identity\<close>: fingerprints, secrets and the constant-time comparison of index.ts.
  \<^item> \<open>Registration\<close>: \<open>handleRegister\<close>, \<open>handleRegisterInit\<close>, \<open>handleRegisterVerify\<close> of index.ts on the
    state \<open>worker\<close> (the KV namespace and the two module-level maps), with every early return and the
    catch branch; \<open>handleRegisterVerify\<close> is \<open>verifyLookup\<close> followed by \<open>verifyCommit\<close>, the parts before
    and after its awaits.
  \<^item> \<open>Protocol\<close>: the endpoints as a machine whose verifications may overlap, and the invariant that
    traces every stored challenge and registration to the requests that caused it.
  \<^item> \<open>Samples\<close>, \<open>Enrolment\<close>: concrete services, and the properties of registration.
  \<^item> \<open>Router\<close>: \<open>fetch\<close> of index.ts and the landing page.
  \<^item> \<open>Tunnel\<close>: the Durable Object of tunnel-do.ts, its messages (types.ts), and one turn of its event
    loop, \<open>doStep\<close>. \<open>TunnelSafety\<close>: the request table and its timers. \<open>TunnelAuth\<close>: who may hold a
    tunnel. \<open>TunnelRelay\<close>: what passes through it. \<open>TunnelSpec\<close>: the pool of promises that the object
    implements, an inductive specification, and the simulation.
  \<^item> \<open>Uri\<close>, \<open>ApiClient\<close>: \<open>encodeURIComponent\<close>, and api/client.ts: the interfaces, \<open>request\<close>, what each
    call of \<open>api\<close> sends and what it makes of the answer.
  \<^item> \<open>View\<close>: what a component renders, as data: texts and buttons with the events they cause.
  \<^item> \<open>Layout\<close>: ConnectionStatus.tsx and Layout.tsx, with the gate for administrators.
  \<^item> \<open>UsersPage\<close>: Users.tsx, its state, every handler (split at its awaits), the mounting of rows and
    panels, what is rendered, one turn \<open>usersStep\<close> and the events that can occur, \<open>usersGuard\<close>.
    \<open>UsersRows\<close>: its structure. \<open>UsersAccounts\<close>: accounts and forms. \<open>Onboarding\<close>: device keys.
  \<^item> \<open>PortalForms\<close>: UserList.tsx and Onboard.tsx. \<open>Portal\<close>: App.tsx, the frame around the page.
  \<^item> this theory: registration and tunnel together.

  \<^bold>\<open>How state and effects are modelled.\<close> A handler maps the state to a new state and a response, or to
  a list of effects (frames sent, sockets closed, promises settled). What a call draws from outside,
  the clock, random bytes, UUIDs, which sockets accept a frame, is an argument of the event. Code
  between two awaits is one step. A rejected promise or an exception is \<open>None\<close>, an effect \<open>Rejected\<close> or
  an \<open>Inl\<close>. In the portal the calls under way are part of the state and each settles by an event of its
  own, in any order; a click is possible exactly when the rendered view has the button enabled, so the
  guard of the machine is computed from the view. A row keeps its state while React keeps it mounted,
  and a reply that outlives its row changes nothing.

  \<^bold>\<open>What the lemmas show.\<close> Registration: authenticity under interleaving, success of the honest
  exchange, single use and expiry of challenges, harmless refusals. Tunnel: every \<open>fetch\<close> is settled at
  most once, and exactly once when responses are well formed and timers fire; pending requests and
  timers describe each other; only an authenticated socket is a tunnel; requests, responses and
  WebSocket frames arrive unchanged. Both: the secret a registration returns, and only it, opens the
  tunnel. Portal: a call is made only for an administrator that the backend has named; the system user
  and the visitor's own account are never touched; a panel offers only keys of its own user; a name
  stays one path segment; the page matches its lists and comes to rest. Some theorems record defects:
  the legacy endpoint, the close of a replaced tunnel, the response that cannot be rebuilt, overlapping
  verifications, the local-mode secret; in the portal the administrator toggle that dies after a
  success, the confirmation that outlives its question, the poll that closes another panel.

  \<^bold>\<open>Bounds and fuel.\<close> The JSON parser has fuel twice the length of the text plus two, which is
  always enough (\<open>parse_fuel_enough\<close>); every other function terminates without fuel. Numbers in JSON
  are exact decimals; round trips hold for integers below \<open>2 ^ 53\<close>, where a double is exact. The
  comparison runs on 32-bit words and code units on 16-bit words, as in the language. The replies that
  can still arrive at a page at rest are bounded by the measure \<open>openWork\<close>.

  \<^bold>\<open>Not modelled.\<close> Console logging; the generated worker-configuration.d.ts; the URL parser (a request
  carries its parsed URL); constant styling of the portal (class names that depend on the state are
  kept) and the icon of the restricted page; main.tsx, which only mounts \<open>App\<close>; the date parser of
  the browser and the texts of its errors (parameters); the Go programs and the iOS app. The \<open>Response\<close>
  constructor, \<open>WebSocket\<close>, Web Crypto and Workers KV are parameters with stated contracts.
\<close>

section \<open>From registration to the tunnel\<close>

text \<open>
  The Durable Object reads the KV namespace the worker writes: what it sees at time \<open>t\<close>, when the
  namespace is in state \<open>st\<close>.
\<close>

definition registryView :: "'s env \<Rightarrow> 's \<Rightarrow> int \<Rightarrow> (jsstring \<Rightarrow> jsstring option option) option" where
  "registryView env st t = map_option (\<lambda>kv. kvGet kv st t) (REGISTRY env)"

lemma presentsSecret_record:
  assumes "fingerprintForm fp" "hostname (req_url req) = fp @ js ''.headfwd.net''"
    and "di_registry inp = Some get" "get (tunnelKey fp) = Some (Some (JSON_stringify (registrationRecord (Some (JStr pk)) secret c)))"
    and "safeInteger c" "secret \<noteq> []"
  shows "presentsSecret ts inp req \<longleftrightarrow> map_get (searchParams (req_url req)) (js ''auth'') = Some secret"
proof -
  have ok: "json_ok (registrationRecord (Some (JStr pk)) secret c)"
    using assms(5) by (intro registrationRecord_ok) auto
  have "extractFingerprint (hostname (req_url req)) = Some fp" using assms(1,2) extractFingerprint_host by simp
  then show ?thesis
    using assms(3,4,6) JSON_parse_stringify [OF ok] stringify_not_Nil [OF ok]
    by (auto simp: presentsSecret_def registrationRecord_props)
qed

text \<open>A sidecar that dials in with a secret, against the KV namespace of the sample worker.\<close>

definition sampleDialReq :: "jsstring \<Rightarrow> http_request" where
  "sampleDialReq secret =
     \<lparr>req_method = js ''GET'',
      req_url = \<lparr>href = [], hostname = sampleFp @ js ''.headfwd.net'', pathname = js ''/tunnel'',
                 searchParams = [(js ''auth'', secret)]\<rparr>,
      req_headers = [(js ''upgrade'', js ''websocket'')], req_body = None\<rparr>"

definition sampleDial :: "sample_store worker \<Rightarrow> do_inputs" where
  "sampleDial w = \<lparr>di_now = 2000, di_uuid = [], di_registry = registryView sampleEnv (kvState w) 2000, di_open = (\<lambda>_. True)\<rparr>"

lemma sampleDialReq_simps:
  "hostname (req_url (sampleDialReq x)) = sampleFp @ js ''.headfwd.net''"
  "pathname (req_url (sampleDialReq x)) = js ''/tunnel''" "\<not> notWebSocket (sampleDialReq x)"
  "map_get (searchParams (req_url (sampleDialReq x))) (js ''auth'') = Some x"
  by (simp_all add: sampleDialReq_def notWebSocket_def headersGet_def upgrade_header)

lemma sampleFp_form: "fingerprintForm sampleFp"
  unfolding sampleFp_def by (rule computeFingerprint_form [OF sampleCrypto_ok])

lemma TUNNEL_SECRET_sample: "TUNNEL_SECRET sampleEnv = js ''shared''" "TUNNEL_SECRET localEnv = js ''shared''"
  by (simp_all add: sampleEnv_def localEnv_def)







end
